theory Spec2Isabelle
  imports Complex_Main
begin

section \<open>JavaScript strings\<close>

text \<open>
  A string of the program is a list of code units.  The model keeps the code units below 256
  (ASCII and Latin-1), one \<open>char\<close> each, so that \<open>length\<close> is the program's
  \<open>.length\<close> on such text.
\<close>

definition js_spaces :: string where
  \<comment> \<open>the code units below 256 that \<open>\s\<close> and \<open>trim()\<close> treat as white space\<close>
  "js_spaces = [CHR 0x09, CHR 0x0A, CHR 0x0B, CHR 0x0C, CHR 0x0D, CHR 0x20, CHR 0xA0]"

definition js_digits :: string where
  "js_digits = ''0123456789''"

definition js_lower :: string where
  "js_lower = ''abcdefghijklmnopqrstuvwxyz''"

definition js_upper :: string where
  "js_upper = ''ABCDEFGHIJKLMNOPQRSTUVWXYZ''"

definition is_space :: "char \<Rightarrow> bool" where
  "is_space c = (c \<in> set js_spaces)"

definition is_digit :: "char \<Rightarrow> bool" where
  "is_digit c = (c \<in> set js_digits)"

definition is_word_char :: "char \<Rightarrow> bool" where
  \<comment> \<open>\<open>\w\<close>\<close>
  "is_word_char c = (c \<in> set (js_lower @ js_upper @ js_digits @ ''_''))"

definition lower_char :: "char \<Rightarrow> char" where
  \<comment> \<open>\<open>toLowerCase()\<close> on one code unit below 256: A-Z, and the Latin-1 capitals
      0xC0-0xDE other than the multiplication sign 0xD7\<close>
  "lower_char c =
     (let n = (of_char c :: nat)
      in if (65 \<le> n \<and> n \<le> 90) \<or> (192 \<le> n \<and> n \<le> 222 \<and> n \<noteq> 215)
         then char_of (n + 32) else c)"

definition toLowerCase :: "string \<Rightarrow> string" where
  "toLowerCase s = map lower_char s"

definition fold_char :: "char \<Rightarrow> char" where
  \<comment> \<open>case folding of the \<open>i\<close> flag: only ASCII letters fold onto ASCII letters\<close>
  "fold_char c = (if c \<in> set js_upper then lower_char c else c)"

definition trimStart :: "string \<Rightarrow> string" where
  "trimStart s = dropWhile is_space s"

definition trimEnd :: "string \<Rightarrow> string" where
  "trimEnd s = rev (dropWhile is_space (rev s))"

definition trim :: "string \<Rightarrow> string" where
  "trim s = trimEnd (trimStart s)"

fun startsWith :: "string \<Rightarrow> string \<Rightarrow> bool" where
  "startsWith s [] = True"
| "startsWith [] (p # ps) = False"
| "startsWith (c # cs) (p # ps) = (c = p \<and> startsWith cs ps)"

definition endsWith :: "string \<Rightarrow> string \<Rightarrow> bool" where
  "endsWith s p = startsWith (rev s) (rev p)"

fun str_includes :: "string \<Rightarrow> string \<Rightarrow> bool" where
  \<comment> \<open>\<open>s.includes(p)\<close>\<close>
  "str_includes [] p = (p = [])"
| "str_includes (c # cs) p = (startsWith (c # cs) p \<or> str_includes cs p)"

fun indexOf :: "string \<Rightarrow> string \<Rightarrow> nat option" where
  \<comment> \<open>\<open>s.indexOf(p)\<close>, \<open>None\<close> for -1\<close>
  "indexOf [] p = (if p = [] then Some 0 else None)"
| "indexOf (c # cs) p =
     (if startsWith (c # cs) p then Some 0 else map_option Suc (indexOf cs p))"

definition the_default :: "'a \<Rightarrow> 'a option \<Rightarrow> 'a" where
  "the_default d x = (case x of None \<Rightarrow> d | Some v \<Rightarrow> v)"

definition slice0 :: "string \<Rightarrow> nat \<Rightarrow> string" where
  \<comment> \<open>\<open>s.slice(0, n)\<close>\<close>
  "slice0 s n = take n s"

fun join :: "string \<Rightarrow> string list \<Rightarrow> string" where
  \<comment> \<open>\<open>xs.join(sep)\<close>\<close>
  "join sep [] = []"
| "join sep [x] = x"
| "join sep (x # y # ys) = x @ sep @ join sep (y # ys)"

definition digit_of_nat :: "nat \<Rightarrow> char" where
  "digit_of_nat d = js_digits ! (d mod 10)"

fun show_nat_fuel :: "nat \<Rightarrow> nat \<Rightarrow> string" where
  "show_nat_fuel 0 n = [digit_of_nat n]"
| "show_nat_fuel (Suc k) n =
     (if n < 10 then [digit_of_nat n] else show_nat_fuel k (n div 10) @ [digit_of_nat n])"

definition show_nat :: "nat \<Rightarrow> string" where
  \<comment> \<open>the decimal rendering of a non-negative integer in a template string; the number has
      at most \<open>n + 1\<close> digits, so the recursion never stops early\<close>
  "show_nat n = show_nat_fuel n n"

section \<open>Regular expressions\<close>

text \<open>
  The regular expressions of the program are kept as data and run by a backtracking matcher
  that returns the end states of a match in the order in which the engine of the platform
  tries them: the first result is the match the engine reports.  A state is the code unit
  before the position (for \<open>\b\<close> and \<open>^\<close>), the rest of the input and the text of
  the capture group.
\<close>

datatype rx =
    Ch char                \<comment> \<open>a literal code unit\<close>
  | OneOf string           \<comment> \<open>a class \<open>[...]\<close>, \<open>\s\<close>, \<open>\d\<close>\<close>
  | NoneOf string          \<comment> \<open>a negated class \<open>[^...]\<close>\<close>
  | AnyCh                  \<comment> \<open>\<open>[\s\S]\<close>\<close>
  | Eps
  | Cat rx rx
  | Alt rx rx
  | Star rx                \<comment> \<open>greedy \<open>*\<close>\<close>
  | StarLazy rx            \<comment> \<open>\<open>*?\<close>\<close>
  | Grp rx                 \<comment> \<open>the capture group\<close>
  | Bnd                    \<comment> \<open>\<open>\b\<close>\<close>
  | Bol                    \<comment> \<open>\<open>^\<close>\<close>
  | Eol                    \<comment> \<open>\<open>$\<close>\<close>

type_synonym rx_state = "char option \<times> string \<times> string option"

definition ch_eq :: "bool \<Rightarrow> char \<Rightarrow> char \<Rightarrow> bool" where
  "ch_eq ci p c = (if ci then fold_char p = fold_char c else p = c)"

definition at_boundary :: "char option \<Rightarrow> string \<Rightarrow> bool" where
  "at_boundary prev rest =
     ((case prev of None \<Rightarrow> False | Some c \<Rightarrow> is_word_char c)
      \<noteq> (case rest of [] \<Rightarrow> False | c # _ \<Rightarrow> is_word_char c))"

function rx_run :: "bool \<Rightarrow> rx \<Rightarrow> rx_state \<Rightarrow> rx_state list" where
  "rx_run ci (Ch p) st =
     (case st of (prev, [], cap) \<Rightarrow> []
      | (prev, c # cs, cap) \<Rightarrow> if ch_eq ci p c then [(Some c, cs, cap)] else [])"
| "rx_run ci (OneOf ps) st =
     (case st of (prev, [], cap) \<Rightarrow> []
      | (prev, c # cs, cap) \<Rightarrow> if list_ex (\<lambda>p. ch_eq ci p c) ps then [(Some c, cs, cap)] else [])"
| "rx_run ci (NoneOf ps) st =
     (case st of (prev, [], cap) \<Rightarrow> []
      | (prev, c # cs, cap) \<Rightarrow> if list_ex (\<lambda>p. ch_eq ci p c) ps then [] else [(Some c, cs, cap)])"
| "rx_run ci AnyCh st =
     (case st of (prev, [], cap) \<Rightarrow> [] | (prev, c # cs, cap) \<Rightarrow> [(Some c, cs, cap)])"
| "rx_run ci Eps st = [st]"
| "rx_run ci (Cat r1 r2) st = concat (map (rx_run ci r2) (rx_run ci r1 st))"
| "rx_run ci (Alt r1 r2) st = rx_run ci r1 st @ rx_run ci r2 st"
| "rx_run ci (Star r) st =
     concat (map (\<lambda>st'. if length (fst (snd st')) < length (fst (snd st))
                           then rx_run ci (Star r) st' else [])
                 (rx_run ci r st)) @ [st]"
| "rx_run ci (StarLazy r) st =
     st # concat (map (\<lambda>st'. if length (fst (snd st')) < length (fst (snd st))
                               then rx_run ci (StarLazy r) st' else [])
                      (rx_run ci r st))"
| "rx_run ci (Grp r) st =
     map (\<lambda>(prev', rest', cap').
            (prev', rest', Some (take (length (fst (snd st)) - length rest') (fst (snd st)))))
         (rx_run ci r st)"
| "rx_run ci Bnd st = (if at_boundary (fst st) (fst (snd st)) then [st] else [])"
| "rx_run ci Bol st = (if fst st = None then [st] else [])"
| "rx_run ci Eol st = (if fst (snd st) = [] then [st] else [])"
  by pat_completeness auto
termination
  by (relation "inv_image (less_than <*lex*> less_than)
                   (\<lambda>(ci, r, st). (size r, length (fst (snd st))))") auto

text \<open>Building blocks for writing the literals of the source.\<close>

definition lit :: "string \<Rightarrow> rx" where
  "lit s = foldr (\<lambda>c r. Cat (Ch c) r) s Eps"

definition cats :: "rx list \<Rightarrow> rx" where
  "cats rs = foldr Cat rs Eps"

fun alts :: "rx list \<Rightarrow> rx" where
  "alts [] = NoneOf []"
| "alts [r] = r"
| "alts (r # rs) = Alt r (alts rs)"

definition Plus :: "rx \<Rightarrow> rx" where
  "Plus r = Cat r (Star r)"

definition Opt :: "rx \<Rightarrow> rx" where
  "Opt r = Alt r Eps"

definition Sp :: rx where
  \<comment> \<open>\<open>\s\<close>\<close>
  "Sp = OneOf js_spaces"

definition Dg :: rx where
  \<comment> \<open>\<open>\d\<close>\<close>
  "Dg = OneOf js_digits"

definition words :: "string list \<Rightarrow> rx" where
  \<comment> \<open>a phrase whose words are separated by \<open>\s+\<close>\<close>
  "words ws = cats (map (\<lambda>(i, w). if i = 0 then lit w else Cat (Plus Sp) (lit w))
                        (zip [0..<length ws] ws))"

text \<open>The first match at or after the current position: the text before it, the end state
  and the matched text.\<close>

fun rx_find :: "bool \<Rightarrow> rx \<Rightarrow> char option \<Rightarrow> string \<Rightarrow> (string \<times> rx_state \<times> string) option" where
  "rx_find ci r prev [] =
     (case rx_run ci r (prev, [], None) of [] \<Rightarrow> None | st # _ \<Rightarrow> Some ([], st, []))"
| "rx_find ci r prev (c # cs) =
     (case rx_run ci r (prev, c # cs, None) of
        st # _ \<Rightarrow> Some ([], st, take (length (c # cs) - length (fst (snd st))) (c # cs))
      | [] \<Rightarrow> map_option (\<lambda>(pre, st, m). (c # pre, st, m)) (rx_find ci r (Some c) cs))"

definition rx_test :: "bool \<Rightarrow> rx \<Rightarrow> string \<Rightarrow> bool" where
  \<comment> \<open>\<open>re.test(s)\<close>\<close>
  "rx_test ci r s = (rx_find ci r None s \<noteq> None)"

definition rx_capture :: "bool \<Rightarrow> rx \<Rightarrow> string \<Rightarrow> string option" where
  \<comment> \<open>\<open>s.match(re)?.[1]\<close> for an expression without the \<open>g\<close> flag\<close>
  "rx_capture ci r s =
     (case rx_find ci r None s of None \<Rightarrow> None | Some (pre, (prev, rest, cap), m) \<Rightarrow> cap)"

definition rx_replace_first :: "bool \<Rightarrow> rx \<Rightarrow> string \<Rightarrow> string \<Rightarrow> string" where
  \<comment> \<open>\<open>s.replace(re, rep)\<close> for an expression without the \<open>g\<close> flag\<close>
  "rx_replace_first ci r rep s =
     (case rx_find ci r None s of None \<Rightarrow> s
      | Some (pre, (prev, rest, cap), m) \<Rightarrow> pre @ rep @ rest)"

function rx_replace_all :: "bool \<Rightarrow> rx \<Rightarrow> string \<Rightarrow> char option \<Rightarrow> string \<Rightarrow> string" where
  \<comment> \<open>\<open>s.replace(re, rep)\<close> with the \<open>g\<close> flag, from a position on\<close>
  "rx_replace_all ci r rep prev s =
     (case rx_run ci r (prev, s, None) of
        (p, rest, cap) # _ \<Rightarrow>
          if length rest < length s then rep @ rx_replace_all ci r rep p rest
          else (case s of [] \<Rightarrow> rep
                | c # cs \<Rightarrow> rep @ c # rx_replace_all ci r rep (Some c) cs)
      | [] \<Rightarrow> (case s of [] \<Rightarrow> []
               | c # cs \<Rightarrow> c # rx_replace_all ci r rep (Some c) cs))"
  by pat_completeness auto
termination
  by (relation "measure (\<lambda>(ci, r, rep, prev, s). length s)") auto

definition replaceAll :: "bool \<Rightarrow> rx \<Rightarrow> string \<Rightarrow> string \<Rightarrow> string" where
  "replaceAll ci r rep s = rx_replace_all ci r rep None s"

function rx_match_all :: "bool \<Rightarrow> rx \<Rightarrow> char option \<Rightarrow> string \<Rightarrow> string list" where
  \<comment> \<open>\<open>s.match(re)\<close> with the \<open>g\<close> flag: the matched texts, \<open>[]\<close> for null\<close>
  "rx_match_all ci r prev s =
     (case rx_run ci r (prev, s, None) of
        (p, rest, cap) # _ \<Rightarrow>
          if length rest < length s
          then take (length s - length rest) s # rx_match_all ci r p rest
          else (case s of [] \<Rightarrow> [[]]
                | c # cs \<Rightarrow> [] # rx_match_all ci r (Some c) cs)
      | [] \<Rightarrow> (case s of [] \<Rightarrow> []
               | c # cs \<Rightarrow> rx_match_all ci r (Some c) cs))"
  by pat_completeness auto
termination
  by (relation "measure (\<lambda>(ci, r, prev, s). length s)") auto

function rx_split_go :: "bool \<Rightarrow> rx \<Rightarrow> char option \<Rightarrow> string \<Rightarrow> string \<Rightarrow> string list" where
  \<comment> \<open>the loop of \<open>s.split(re)\<close> on a non-empty input; \<open>piece\<close> is the current piece,
      reversed.  An empty match at the start of a piece does not split.\<close>
  "rx_split_go ci r prev piece s =
     (case s of [] \<Rightarrow> [rev piece]
      | c # cs \<Rightarrow>
          (case rx_run ci r (prev, s, None) of
             (p, rest, cap) # _ \<Rightarrow>
               if length rest < length s then rev piece # rx_split_go ci r p [] rest
               else if piece = [] then rx_split_go ci r (Some c) [c] cs
               else rev piece # rx_split_go ci r (Some c) [c] cs
           | [] \<Rightarrow> rx_split_go ci r (Some c) (c # piece) cs))"
  by pat_completeness auto
termination
  by (relation "measure (\<lambda>(ci, r, prev, piece, s). length s)") auto

definition split :: "bool \<Rightarrow> rx \<Rightarrow> string \<Rightarrow> string list" where
  \<comment> \<open>\<open>s.split(re)\<close>\<close>
  "split ci r s =
     (if s = [] then (if rx_run ci r (None, [], None) = [] then [[]] else [])
      else rx_split_go ci r None [] s)"

fun int_of_digits :: "int \<Rightarrow> string \<Rightarrow> int" where
  "int_of_digits acc [] = acc"
| "int_of_digits acc (c # cs) =
     int_of_digits (10 * acc + int (the_default 0 (indexOf js_digits [c]))) cs"

function bit_length :: "int \<Rightarrow> nat" where
  "bit_length n = (if n \<le> 0 then 0 else Suc (bit_length (n div 2)))"
  by pat_completeness auto
termination
  by (relation "measure nat") auto

declare bit_length.simps [simp del]

definition to_double :: "int \<Rightarrow> int" where
  \<comment> \<open>the Number nearest to a natural number: 53 significant bits, ties to the even
      significand; a result of \<open>2^1024\<close> or more stands for Infinity\<close>
  "to_double m =
     (if m < 2 ^ 53 then m
      else (let e = bit_length m - 53;
                q = m div 2 ^ e;
                r = m mod 2 ^ e;
                q' = (if 2 * r > 2 ^ e \<or> (2 * r = 2 ^ e \<and> odd q) then q + 1 else q)
            in q' * 2 ^ e))"

definition parseInt10 :: "string \<Rightarrow> int option" where
  \<comment> \<open>\<open>Number.parseInt(s, 10)\<close>, \<open>None\<close> for NaN: leading white space, a sign, then the
      longest run of digits, read as the nearest Number\<close>
  "parseInt10 s =
     (let t = dropWhile is_space s;
          neg = (case t of [] \<Rightarrow> False | c # _ \<Rightarrow> c = CHR ''-'');
          u = (case t of [] \<Rightarrow> [] | c # r \<Rightarrow> if c = CHR ''-'' \<or> c = CHR ''+'' then r else t);
          ds = takeWhile is_digit u;
          n = to_double (int_of_digits 0 ds)
      in if ds = [] then None
         else Some (if neg then - n else n))"

definition js_finite :: "int \<Rightarrow> bool" where
  \<comment> \<open>\<open>Number.isFinite\<close> on a parsed integer\<close>
  "js_finite n = (\<bar>n\<bar> < 2 ^ 1024)"

section \<open>Sorting with a comparator\<close>

text \<open>\<open>Array.prototype.sort\<close> is stable: insertion from the right keeps equal elements in
  their order.\<close>

fun insert_by :: "('a \<Rightarrow> 'a \<Rightarrow> int) \<Rightarrow> 'a \<Rightarrow> 'a list \<Rightarrow> 'a list" where
  "insert_by cmp x [] = [x]"
| "insert_by cmp x (y # ys) = (if cmp x y \<le> 0 then x # y # ys else y # insert_by cmp x ys)"

definition sort_by :: "('a \<Rightarrow> 'a \<Rightarrow> int) \<Rightarrow> 'a list \<Rightarrow> 'a list" where
  "sort_by cmp xs = foldr (insert_by cmp) xs []"

section \<open>JSON values\<close>

text \<open>\<open>JSON.parse\<close> belongs to the platform: the functions that call it take it as the
  parameter \<open>json_parse\<close>, whose result is \<open>None\<close> when it throws.  An object is the
  list of its members, each key once.\<close>

datatype json =
    JNull
  | JBool bool
  | JInt int          \<comment> \<open>a number with an integer value\<close>
  | JFrac             \<comment> \<open>any other number\<close>
  | JStr string
  | JArr "json list"
  | JObj "(string \<times> json) list"

section \<open>The request\<close>

datatype ask_mode = Fast | Verified
datatype ask_language = Auto | En | Hi
datatype ask_style = Concise | Balanced | Detailed | Creative
datatype web_topic = General | News | Finance
datatype web_time_range = Day | Week | Month | Year | Short_d | Short_w | Short_m | Short_y

record AskRequest =
  question :: string
  model :: "string option"
  mode :: "ask_mode option"
  language :: "ask_language option"
  style :: "ask_style option"
  useWeb :: "bool option"
  webTopic :: "web_topic option"
  webTimeRange :: "web_time_range option"

record Citation =
  c_url :: string
  c_title :: string

record AskResponse =
  r_provider :: string
  r_model :: string
  r_answer :: string
  r_citations :: "Citation list"
  r_followUps :: "string list"
  r_latencyMs :: int

section \<open>Text helpers of the ask pipeline\<close>

definition truncate_text :: "string \<Rightarrow> nat \<Rightarrow> string" where
  \<comment> \<open>\<open>truncate\<close>\<close>
  "truncate_text input maxChars =
     (if length input \<le> maxChars then input else take maxChars input @ ''...'')"

definition normalizeForMatching :: "string \<Rightarrow> string" where
  "normalizeForMatching input = trim (replaceAll False (Plus Sp) '' '' input)"

fun dedupe :: "'a list \<Rightarrow> 'a list \<Rightarrow> 'a list" where
  \<comment> \<open>\<open>Array.from(new Set(xs))\<close>: the first occurrence of each element stays\<close>
  "dedupe seen [] = []"
| "dedupe seen (x # xs) = (if x \<in> set seen then dedupe seen xs else x # dedupe (x # seen) xs)"

definition stopWords :: "string list" where
  "stopWords = [''the'', ''and'', ''for'', ''with'', ''that'', ''this'', ''what'', ''when'',
     ''where'', ''who'', ''why'', ''how'', ''latest'', ''current'', ''today'', ''news'',
     ''update'', ''updates'', ''explain'', ''define'', ''tell'']"

definition tokenizeForMatch :: "string \<Rightarrow> string list" where
  "tokenizeForMatch text =
     filter (\<lambda>t. t \<notin> set stopWords)
       (filter (\<lambda>t. length t \<ge> 3)
          (map trim
             (split False (Plus Sp)
                (replaceAll False (NoneOf (js_lower @ js_digits @ js_spaces)) '' ''
                   (toLowerCase text)))))"

subsection \<open>Citation markers\<close>

definition citation_rx :: rx where
  \<comment> \<open>\<open>/\[(\d+)\]/\<close>\<close>
  "citation_rx = cats [Ch (CHR ''[''), Grp (Plus Dg), Ch (CHR '']'')]"

definition extractCitationNumbers :: "string \<Rightarrow> int list" where
  "extractCitationNumbers answer =
     (let matches = rx_match_all False citation_rx None answer;
          numbers = filter js_finite
                      (concat (map (\<lambda>m. case parseInt10
                                              (replaceAll False (Alt (Ch (CHR ''['')) (Ch (CHR '']''))) [] m)
                                         of None \<Rightarrow> [] | Some n \<Rightarrow> [n]) matches))
      in sort_by (\<lambda>a b. a - b) (dedupe [] numbers))"

definition sanitizeCitationNumbers :: "int list \<Rightarrow> nat \<Rightarrow> int list" where
  "sanitizeCitationNumbers nums maxN =
     (let filtered = filter (\<lambda>n. js_finite n \<and> n \<ge> 1 \<and> n \<le> int maxN) nums
      in sort_by (\<lambda>a b. a - b) (dedupe [] filtered))"

definition fence :: string where
  "fence = [CHR 0x60, CHR 0x60, CHR 0x60]"

definition stripCodeFences :: "string \<Rightarrow> string" where
  "stripCodeFences input = replaceAll False (cats [lit fence, StarLazy AnyCh, lit fence]) '' '' input"

definition hasAnyCitation :: "string \<Rightarrow> bool" where
  "hasAnyCitation text = rx_test False (cats [Ch (CHR ''[''), Plus Dg, Ch (CHR '']'')]) text"

definition bullet_rx :: rx where
  \<comment> \<open>\<open>/^(-|\*|\d+[.)])\s+/\<close>\<close>
  "bullet_rx = cats [Bol, alts [Ch (CHR ''-''), Ch (CHR ''*''), Cat (Plus Dg) (OneOf ''.)'')], Plus Sp]"

definition bullet_missing :: "string \<Rightarrow> bool" where
  \<comment> \<open>one turn of the loop over the bullet lines: the line makes the function return true\<close>
  "bullet_missing l =
     (let meaningful = trim (rx_replace_first False bullet_rx [] l)
      in \<not> length meaningful < 20 \<and> \<not> hasAnyCitation l)"

definition block_missing :: "string \<Rightarrow> bool" where
  \<comment> \<open>one turn of the loop over the blocks\<close>
  "block_missing block =
     (let lines = filter (\<lambda>l. l \<noteq> [])
                    (map trim (split False (Cat (Opt (Ch (CHR 0x0D))) (Ch (CHR 0x0A))) block));
          bulletLines = filter (rx_test False bullet_rx) lines
      in if length bulletLines > 0 then list_ex bullet_missing bulletLines
         else (let plain = trim (rx_replace_first False (cats [Bol, Plus (Ch (CHR ''#'')), Plus Sp]) [] block)
               in \<not> length plain < 40 \<and> \<not> hasAnyCitation block))"

definition hasMissingCitations :: "string \<Rightarrow> bool" where
  "hasMissingCitations answer =
     (let withoutCode = stripCodeFences answer;
          blocks = filter (\<lambda>b. b \<noteq> [])
                     (map trim (split False (cats [Ch (CHR 0x0A), Star Sp, Ch (CHR 0x0A)]) withoutCode))
      in list_ex block_missing blocks)"

subsection \<open>Intent detection\<close>

record RecencyIntent =
  wantsFresh :: bool
  wantsVeryFresh :: bool
  isFinance :: bool

definition bounded :: "rx list \<Rightarrow> rx" where
  \<comment> \<open>\<open>\b(a|b|...)\b\<close>\<close>
  "bounded rs = cats [Bnd, alts rs, Bnd]"

definition detectRecencyIntent :: "string \<Rightarrow> RecencyIntent" where
  "detectRecencyIntent qtext =
     (let q = toLowerCase qtext;
          veryFresh =
            (rx_test True (bounded [lit ''today'', words [''right'', ''now''],
                                    words [''as'', ''of'', ''now''], lit ''breaking'']) q
             \<or> rx_test True (bounded [lit ''aaj'', lit ''abhi'', lit ''breaking'', lit ''taaza'',
                                      lit ''taza'']) q);
          fresh =
            (veryFresh
             \<or> rx_test True (bounded [lit ''latest'', lit ''current'', lit ''recent'', lit ''news'',
                                      lit ''update'', lit ''updates'', words [''this'', ''week''],
                                      words [''this'', ''month''], lit ''trending'']) q
             \<or> rx_test True (bounded [lit ''haal'', words [''haal'', ''hi''], lit ''latest'',
                                      lit ''current'', lit ''news'', lit ''update'', lit ''updates'',
                                      words [''is'', ''hafte''], words [''iss'', ''week'']]) q);
          finance =
            rx_test True (bounded [lit ''stock'', lit ''stocks'', lit ''share'', lit ''shares'',
                                   lit ''market'', lit ''price'', lit ''forecast'', lit ''nifty'',
                                   lit ''sensex'', lit ''nasdaq'', lit ''dow'', lit ''s&p'',
                                   lit ''crypto'', lit ''bitcoin'', lit ''ethereum'', lit ''forex'',
                                   lit ''usd'', lit ''inr'', lit ''rupee'', lit ''inflation'',
                                   cats [lit ''interest'', Star Sp, lit ''rate'']]) q
      in \<lparr>wantsFresh = fresh, wantsVeryFresh = veryFresh, isFinance = finance\<rparr>)"

datatype safety_reason = self_harm | violence | weapons | drugs | hacking | sexual_content

definition detectSafetyBlock :: "string \<Rightarrow> safety_reason option" where
  "detectSafetyBlock qtext =
     (let q = toLowerCase qtext in
      if rx_test True (alts [lit ''suicide'', words [''kill'', ''myself''],
                             cats [lit ''self'', Star Sp, lit ''harm''], words [''cut'', ''myself''],
                             words [''want'', ''to'', ''die'']]) q
      then Some self_harm
      else if rx_test True (alts [words [''how'', ''to'', ''make'', ''a'', ''bomb''],
                                  words [''make'', ''an'', ''explosive''],
                                  words [''pressure'', ''cooker'', ''bomb'']]) q
      then Some violence
      else if rx_test True (alts [words [''build'', ''a'', ''gun''], words [''make'', ''a'', ''gun''],
                                  words [''ghost'', ''gun''],
                                  cats [lit ''3d'', Star Sp, lit ''print'', Plus Sp, lit ''a'',
                                        Plus Sp, lit ''gun'']]) q
      then Some weapons
      else if rx_test True (alts [words [''how'', ''to'', ''make'', ''meth''], words [''cook'', ''meth''],
                                  words [''make'', ''cocaine''], words [''synthesize'', ''fentanyl'']]) q
      then Some drugs
      else if rx_test True (alts [lit ''ddos'', words [''sql'', ''injection''], Cat (lit ''xss'') Bnd,
                                  words [''hack'', ''into''], words [''steal'', ''password''],
                                  lit ''phishing'', lit ''malware'', lit ''ransomware'']) q
      then Some hacking
      else if rx_test True (alts [words [''child'', ''porn''], words [''minor'', ''sex''],
                                  words [''underage'', ''sex'']]) q
      then Some sexual_content
      else None)"

definition reason_name :: "safety_reason \<Rightarrow> string" where
  "reason_name r = (case r of self_harm \<Rightarrow> ''self_harm'' | violence \<Rightarrow> ''violence''
     | weapons \<Rightarrow> ''weapons'' | drugs \<Rightarrow> ''drugs'' | hacking \<Rightarrow> ''hacking''
     | sexual_content \<Rightarrow> ''sexual_content'')"

datatype clock_intent = AsksDate | AsksTime | AsksDatetime

definition classifyLocalClockIntent :: "string \<Rightarrow> clock_intent option" where
  "classifyLocalClockIntent qtext =
     (let q = toLowerCase (trim qtext);
          asksDate =
            (rx_test True (bounded [cats [lit ''today'', Opt (Ch (CHR 0x27)), lit ''s'', Plus Sp, lit ''date''],
                                    words [''today'', ''date''], words [''date'', ''today''],
                                    cats [lit ''what'', Plus Sp, lit ''is'', Plus Sp,
                                          Opt (Cat (lit ''the'') (Plus Sp)), lit ''date'', Bnd],
                                    words [''current'', ''date'']]) q
             \<or> rx_test True (bounded [words [''aaj'', ''ki'', ''date''], words [''aaj'', ''ki'', ''tarikh''],
                                      words [''aaj'', ''tarikh'']]) q);
          asksTime =
            (rx_test True (bounded [words [''what'', ''time'', ''is'', ''it''], words [''time'', ''now''],
                                    words [''current'', ''time''], words [''time'', ''right'', ''now'']]) q
             \<or> rx_test True (bounded [words [''abhi'', ''time''], words [''abhi'', ''ka'', ''time''],
                                      words [''abhi'', ''kitna'', ''baja'']]) q)
      in if asksDate \<and> asksTime then Some AsksDatetime
         else if asksDate then Some AsksDate
         else if asksTime then Some AsksTime
         else None)"

definition has_devanagari :: "string \<Rightarrow> bool" where
  \<comment> \<open>\<open>/[\u0900-\u097F]/.test(s)\<close>; no code unit below 256 is in that range\<close>
  "has_devanagari s = list_ex (\<lambda>c. 0x0900 \<le> (of_char c :: nat) \<and> (of_char c :: nat) \<le> 0x097F) s"

definition looksHindiQuestion :: "AskRequest \<Rightarrow> bool" where
  "looksHindiQuestion input =
     (if language input = Some Hi then True
      else if language input = Some En then False
      else has_devanagari (question input)
           \<or> rx_test True (bounded [lit ''aaj'', lit ''abhi'', lit ''kya'', lit ''kaise'', lit ''kyu'',
                                    lit ''kyon'', lit ''kab'', lit ''kaha'']) (question input))"

definition extractTopicFromQuestion :: "string \<Rightarrow> string" where
  "extractTopicFromQuestion qtext =
     (let cleaned = trim (replaceAll False (Plus Sp) '' ''
                      (replaceAll False (Plus (OneOf ''?!.'')) []
                         (replaceAll False (Plus (OneOf [CHR 0x0D, CHR 0x0A])) '' '' qtext)));
          withoutLead =
            rx_replace_first True
              (cats [Bol, Star Sp,
                     alts [lit ''what'', lit ''who'', lit ''where'', lit ''when'', lit ''why'',
                           lit ''how'', lit ''explain'', lit ''tell me'', lit ''define'',
                           lit ''latest'', lit ''current''],
                     Bnd, Star Sp]) [] cleaned
      in if trim withoutLead = [] then cleaned else trim withoutLead)"

section \<open>Rate limiter (server/lib/rateLimiter.ts)\<close>

text \<open>
  The fixed-window limiter keeps one \<open>HitCounter\<close> per key in a process-wide map.
  Times are the integer milliseconds of \<open>Date.now()\<close>.  A header value is kept as the
  number that the source renders with \<open>toString()\<close>.
\<close>

record HitCounter =
  count :: int
  resetAtMs :: int

record RateLimitOptions =
  windowMs :: int
  maxHits :: int
  keyPrefix :: string

text \<open>What the middleware reads from its surroundings for one call: \<open>req.ip\<close>
  (possibly undefined), \<open>req.requestId\<close> when it is a string, and \<open>Date.now()\<close>.\<close>

record rl_request =
  ip :: "string option"
  requestId :: "string option"
  now :: int

datatype rl_verdict =
    Next
  | Respond (status: int) (message: string) (envelopeRequestId: "string option")

record rl_response =
  headers :: "(string \<times> int) list"
  verdict :: rl_verdict

type_synonym hits_table = "string \<rightharpoonup> HitCounter"

definition ceil_div_1000 :: "int \<Rightarrow> int" where
  \<comment> \<open>\<open>Math.ceil(x / 1000)\<close> on an integer \<open>x\<close>\<close>
  "ceil_div_1000 x = - ((- x) div 1000)"

definition rl_key :: "RateLimitOptions \<Rightarrow> rl_request \<Rightarrow> string" where
  "rl_key options req =
     keyPrefix options @ '':'' @ (case ip req of None \<Rightarrow> ''undefined'' | Some a \<Rightarrow> a)"

definition rateLimiter ::
  "RateLimitOptions \<Rightarrow> hits_table \<Rightarrow> rl_request \<Rightarrow> hits_table \<times> rl_response" where
  "rateLimiter options hits req =
     (let key = rl_key options req;
          fresh = (case hits key of None \<Rightarrow> True | Some existing \<Rightarrow> resetAtMs existing \<le> now req)
      in if fresh then
           (let r = now req + windowMs options
            in (hits(key \<mapsto> \<lparr>count = 1, resetAtMs = r\<rparr>),
                \<lparr>headers = [(''X-RateLimit-Limit'', maxHits options),
                             (''X-RateLimit-Remaining'', max 0 (maxHits options - 1)),
                             (''X-RateLimit-Reset'', ceil_div_1000 r)],
                 verdict = Next\<rparr>))
         else
           (let existing = the (hits key);
                c = count existing + 1;
                r = resetAtMs existing;
                hs = [(''X-RateLimit-Limit'', maxHits options),
                      (''X-RateLimit-Remaining'', max 0 (maxHits options - c)),
                      (''X-RateLimit-Reset'', ceil_div_1000 r)]
            in (hits(key \<mapsto> \<lparr>count = c, resetAtMs = r\<rparr>),
                if c > maxHits options then
                  \<lparr>headers = hs @ [(''Retry-After'', max 1 (ceil_div_1000 (r - now req)))],
                   verdict = Respond 429 ''Too Many Requests, please try again later''
                               (requestId req)\<rparr>
                else \<lparr>headers = hs, verdict = Next\<rparr>)))"

text \<open>Serving a sequence of requests threads the table through the calls.\<close>

fun serve ::
  "RateLimitOptions \<Rightarrow> hits_table \<Rightarrow> rl_request list \<Rightarrow> hits_table \<times> rl_response list" where
  "serve options hits [] = (hits, [])"
| "serve options hits (req # reqs) =
     (let (hits', resp) = rateLimiter options hits req;
          (hits'', resps) = serve options hits' reqs
      in (hits'', resp # resps))"

definition askRateLimit :: RateLimitOptions where
  \<comment> \<open>the instance that routes.ts puts in front of \<open>/api/ask\<close>\<close>
  "askRateLimit = \<lparr>windowMs = 60000, maxHits = 10, keyPrefix = ''ask''\<rparr>"

section \<open>LLM adapter: openRouterChatCompletion with its retry loop\<close>

text \<open>
  The chat-completion call with the retry loop (the copy of the adapter that defines
  \<open>sleep\<close>, \<open>getRetryAfterMs\<close>, \<open>isTransientStatus\<close> and
  \<open>isRetryableNetworkError\<close>).  The network is a parameter: \<open>fetch k\<close> is what the
  \<open>k\<close>-th call of \<open>fetchWithTimeout\<close> does, either throwing an error object or
  returning a response.  The run records the attempts made and the waits of \<open>sleep\<close> in
  milliseconds.
\<close>

record net_error =
  err_name :: "string option"
  err_code :: "string option"

record http_response =
  status :: nat
  retry_after :: "string option"   \<comment> \<open>\<open>res.headers.get("retry-after")\<close>\<close>
  body :: string

datatype thrown =
    HttpError nat string     \<comment> \<open>\<open>new HttpError(status, message)\<close>\<close>
  | Raised net_error         \<comment> \<open>the error of \<open>fetchWithTimeout\<close>, thrown again\<close>












section \<open>The platform\<close>

text \<open>
  Four functions of the platform are parameters of the model: \<open>new URL(s)\<close>
  (\<open>None\<close> when it throws), the collation \<open>a.localeCompare(b)\<close>, \<open>JSON.parse\<close>
  (\<open>None\<close> when it throws) and \<open>Date.parse\<close> (\<open>None\<close> for NaN).  A parsed URL
  is kept as the fields the program reads; \<open>searchParams\<close> is the decoded list of
  name-value pairs in query order.
\<close>

record URL =
  protocol :: string        \<comment> \<open>the scheme with its colon, as in \<open>https:\<close>\<close>
  hostname :: string
  pathname :: string
  searchParams :: "(string \<times> string) list"
  hash :: string

record platform =
  url_parse :: "string \<Rightarrow> URL option"
  localeCompare :: "string \<Rightarrow> string \<Rightarrow> int"
  json_parse :: "string \<Rightarrow> json option"
  date_parse :: "string \<Rightarrow> int option"

subsection \<open>Serialising a query\<close>

definition hex_digit :: "nat \<Rightarrow> char" where
  "hex_digit d = ''0123456789ABCDEF'' ! (d mod 16)"

definition percent_byte :: "nat \<Rightarrow> string" where
  "percent_byte b = [CHR ''%'', hex_digit (b div 16), hex_digit b]"

definition utf8_bytes :: "char \<Rightarrow> nat list" where
  \<comment> \<open>UTF-8 of a code unit below 256\<close>
  "utf8_bytes c =
     (let n = (of_char c :: nat)
      in if n < 128 then [n] else [192 + n div 64, 128 + n mod 64])"

definition urlencode_char :: "char \<Rightarrow> string" where
  \<comment> \<open>the \<open>application/x-www-form-urlencoded\<close> serialiser on one code unit\<close>
  "urlencode_char c =
     (if c \<in> set (js_lower @ js_upper @ js_digits @ ''*-._'') then [c]
      else if c = CHR '' '' then ''+''
      else concat (map percent_byte (utf8_bytes c)))"

definition urlencode :: "string \<Rightarrow> string" where
  "urlencode s = concat (map urlencode_char s)"

definition url_search :: "(string \<times> string) list \<Rightarrow> string" where
  \<comment> \<open>\<open>url.search\<close> after \<open>url.search = ""\<close> and the \<open>append\<close> calls\<close>
  "url_search entries =
     (if entries = [] then []
      else ''?'' @ join ''&'' (map (\<lambda>(k, v). urlencode k @ ''='' @ urlencode v) entries))"

section \<open>URL canonicalisation\<close>

definition strip_www :: "string \<Rightarrow> string" where
  \<comment> \<open>\<open>.replace(/^www\./, "")\<close>\<close>
  "strip_www h = (if startsWith h ''www.'' then drop 4 h else h)"

definition strip_trailing_slashes :: "string \<Rightarrow> string" where
  \<comment> \<open>\<open>.replace(/\/+$/, "")\<close>\<close>
  "strip_trailing_slashes p = rev (dropWhile (\<lambda>c. c = CHR ''/'') (rev p))"

definition is_tracking_param :: "string \<Rightarrow> bool" where
  "is_tracking_param k =
     (let key = toLowerCase k
      in startsWith key ''utm_'' \<or> key = ''gclid'' \<or> key = ''fbclid'' \<or> key = ''igshid''
         \<or> key = ''mc_cid'' \<or> key = ''mc_eid'' \<or> key = ''ref'' \<or> key = ''ref_src'')"

definition params_delete :: "string \<Rightarrow> (string \<times> string) list \<Rightarrow> (string \<times> string) list" where
  \<comment> \<open>\<open>searchParams.delete(k)\<close>: every pair of that name goes\<close>
  "params_delete k ps = filter (\<lambda>(n, v). n \<noteq> k) ps"

definition normalizeUrlForDedupe :: "'a platform_scheme \<Rightarrow> string \<Rightarrow> (string \<times> string) option" where
  \<comment> \<open>the pair is \<open>(key, cleanedUrl)\<close>; \<open>None\<close> is the \<open>null\<close> of the catch branch\<close>
  "normalizeUrlForDedupe P raw =
     (case url_parse P raw of
        None \<Rightarrow> None
      | Some url0 \<Rightarrow>
          (let url = url0\<lparr>hash := []\<rparr>;
               toDelete = map fst (filter (\<lambda>(k, v). is_tracking_param k) (searchParams url));
               kept = fold params_delete toDelete (searchParams url);
               entries = sort_by (\<lambda>(a, _) (b, _). localeCompare P a b) kept;
               host = strip_www (toLowerCase (hostname url));
               path = (let p = strip_trailing_slashes (pathname url) in if p = [] then ''/'' else p);
               search = url_search entries;
               key = host @ path @ search;
               cleanedUrl = protocol url @ ''//'' @ host @ path @ search
           in Some (key, cleanedUrl)))"

definition getHostnameSafe :: "'a platform_scheme \<Rightarrow> string \<Rightarrow> string" where
  "getHostnameSafe P url =
     (case url_parse P url of
        None \<Rightarrow> []
      | Some u \<Rightarrow> strip_www (toLowerCase (hostname u)))"

section \<open>A model of the platform's URL parser\<close>

text \<open>
  For evaluating the program on concrete inputs the parameters of the platform get a
  concrete value.  \<open>parseURL\<close> follows the WHATWG URL parser that \<open>new URL(s)\<close> runs,
  on the absolute URLs of the schemes \<open>http\<close>, \<open>https\<close>, \<open>ws\<close>, \<open>wss\<close> and
  \<open>ftp\<close> with a host made of ASCII letters, digits, hyphens, underscores and dots:
  leading and trailing control characters and spaces are removed, as are tabs and newlines
  anywhere; the scheme is lower-cased; any run of slashes and backslashes after the colon is
  skipped; credentials and port are split off the authority; an empty host is an error;
  the host is lower-cased; dot segments of the path are resolved and an empty path is
  \<open>/\<close>; the query is split at \<open>&\<close> and \<open>=\<close>, with \<open>+\<close> and percent
  sequences decoded.  Outside this fragment (other schemes, IPv6 and numeric hosts,
  percent signs or other characters in the host, decoded bytes from 128 on) the model
  has no answer and gives \<open>None\<close>; the general theorems below do not use it, they hold
  for every parser.
\<close>

definition is_c0_or_space :: "char \<Rightarrow> bool" where
  "is_c0_or_space c = ((of_char c :: nat) \<le> 32)"

definition hex_value :: "char \<Rightarrow> nat option" where
  "hex_value c = (case indexOf ''0123456789abcdef'' [fold_char c] of None \<Rightarrow> None | Some d \<Rightarrow> Some d)"

fun percent_decode :: "string \<Rightarrow> string" where
  "percent_decode (p # a # b # cs) =
     (if p = CHR ''%'' then
        (case (hex_value a, hex_value b) of
           (Some x, Some y) \<Rightarrow> char_of (16 * x + y) # percent_decode cs
         | _ \<Rightarrow> p # percent_decode (a # b # cs))
      else p # percent_decode (a # b # cs))"
| "percent_decode cs = cs"

fun split_char :: "char \<Rightarrow> string \<Rightarrow> string list" where
  \<comment> \<open>\<open>s.split(c)\<close> for one code unit\<close>
  "split_char d [] = [[]]"
| "split_char d (c # cs) =
     (case split_char d cs of
        [] \<Rightarrow> [[c]]
      | p # ps \<Rightarrow> if c = d then [] # p # ps else (c # p) # ps)"

definition parse_query :: "string \<Rightarrow> (string \<times> string) list" where
  \<comment> \<open>the \<open>application/x-www-form-urlencoded\<close> parser\<close>
  "parse_query q =
     map (\<lambda>piece.
            (let name = takeWhile (\<lambda>c. c \<noteq> CHR ''='') piece;
                 val = drop 1 (dropWhile (\<lambda>c. c \<noteq> CHR ''='') piece);
                 plus = map (\<lambda>c. if c = CHR ''+'' then CHR '' '' else c)
             in (percent_decode (plus name), percent_decode (plus val))))
         (filter (\<lambda>piece. piece \<noteq> []) (split_char (CHR ''&'') q))"

fun resolve_segments :: "string list \<Rightarrow> string list \<Rightarrow> string list" where
  \<comment> \<open>the path state: \<open>acc\<close> is the path so far, reversed\<close>
  "resolve_segments acc [] = rev acc"
| "resolve_segments acc [seg] =
     (if seg = ''..'' then rev ([] # tl acc)
      else if seg = ''.'' then rev ([] # acc)
      else rev (seg # acc))"
| "resolve_segments acc (seg # segs) =
     (if seg = ''..'' then resolve_segments (tl acc) segs
      else if seg = ''.'' then resolve_segments acc segs
      else resolve_segments (seg # acc) segs)"

definition path_encode_char :: "char \<Rightarrow> string" where
  "path_encode_char c =
     (let n = (of_char c :: nat)
      in if n \<le> 32 \<or> 127 \<le> n \<or> c \<in> set [CHR 0x22, CHR ''<'', CHR ''>'', CHR 0x60, CHR ''{'', CHR ''}'', CHR ''^'']
         then concat (map percent_byte (utf8_bytes c)) else [c])"

definition parse_pathname :: "string \<Rightarrow> string" where
  "parse_pathname p =
     (let p1 = map (\<lambda>c. if c = CHR 0x5C then CHR ''/'' else c) p
      in if p1 = [] then ''/''
         else ''/'' @ join ''/'' (map (\<lambda>seg. concat (map path_encode_char seg))
                                      (resolve_segments [] (split_char (CHR ''/'') (drop 1 p1)))))"

definition special_schemes :: "string list" where
  "special_schemes = [''http'', ''https'', ''ws'', ''wss'', ''ftp'']"

definition parse_host :: "string \<Rightarrow> string option" where
  \<comment> \<open>the host and port of an authority without credentials\<close>
  "parse_host hostport =
     (let has_port = (CHR '':'' \<in> set hostport);
          port = (if has_port then rev (takeWhile (\<lambda>c. c \<noteq> CHR '':'') (rev hostport)) else []);
          host = (if has_port then rev (drop 1 (dropWhile (\<lambda>c. c \<noteq> CHR '':'') (rev hostport)))
                  else hostport);
          last_label = (case filter (\<lambda>l. l \<noteq> []) (rev (split_char (CHR ''.'') host)) of
                          [] \<Rightarrow> [] | l # _ \<Rightarrow> l)
      in if host = [] \<or> \<not> list_all is_digit port
            \<or> \<not> list_all (\<lambda>c. c \<in> set (js_lower @ js_upper @ js_digits @ ''-_.'')) host
            \<or> (last_label \<noteq> [] \<and> list_all is_digit last_label)
         then None
         else Some (toLowerCase host))"

definition parseURL :: "string \<Rightarrow> URL option" where
  "parseURL raw =
     (let s0 = rev (dropWhile is_c0_or_space (rev (dropWhile is_c0_or_space raw)));
          s = filter (\<lambda>c. c \<notin> set [CHR 0x09, CHR 0x0A, CHR 0x0D]) s0;
          scheme = takeWhile (\<lambda>c. c \<noteq> CHR '':'') s;
          rest0 = dropWhile (\<lambda>c. c \<noteq> CHR '':'') s
      in if rest0 = [] \<or> toLowerCase scheme \<notin> set special_schemes then None
         else
           (let after = dropWhile (\<lambda>c. c = CHR ''/'' \<or> c = CHR 0x5C) (drop 1 rest0);
                stop = (\<lambda>c. c \<in> set [CHR ''/'', CHR 0x5C, CHR ''?'', CHR ''#'']);
                authority = takeWhile (\<lambda>c. \<not> stop c) after;
                rest1 = dropWhile (\<lambda>c. \<not> stop c) after;
                hostport = rev (takeWhile (\<lambda>c. c \<noteq> CHR ''@'') (rev authority));
                path = takeWhile (\<lambda>c. c \<noteq> CHR ''?'' \<and> c \<noteq> CHR ''#'') rest1;
                rest2 = dropWhile (\<lambda>c. c \<noteq> CHR ''?'' \<and> c \<noteq> CHR ''#'') rest1;
                query = (if startsWith rest2 ''?''
                         then takeWhile (\<lambda>c. c \<noteq> CHR ''#'') (drop 1 rest2) else []);
                fragment = drop 1 (dropWhile (\<lambda>c. c \<noteq> CHR ''#'') rest2);
                params = parse_query query
            in case parse_host hostport of
                 None \<Rightarrow> None
               | Some host \<Rightarrow>
                   if list_ex (\<lambda>(k, v). list_ex (\<lambda>c. 128 \<le> (of_char c :: nat)) (k @ v)) params
                   then None
                   else Some \<lparr>protocol = toLowerCase scheme @ '':'', hostname = host,
                              pathname = parse_pathname path, searchParams = params,
                              hash = (if fragment = [] then [] else ''#'' @ fragment)\<rparr>))"

fun compare_strings :: "string \<Rightarrow> string \<Rightarrow> int" where
  \<comment> \<open>code-unit order, standing in for the collation on the concrete inputs\<close>
  "compare_strings [] [] = 0"
| "compare_strings [] (b # bs) = - 1"
| "compare_strings (a # as) [] = 1"
| "compare_strings (a # as) (b # bs) =
     (if (of_char a :: nat) < of_char b then - 1
      else if (of_char b :: nat) < of_char a then 1
      else compare_strings as bs)"

definition node :: platform where
  \<comment> \<open>the concrete platform of the examples; its JSON and date parsers reject everything\<close>
  "node = \<lparr>url_parse = parseURL, localeCompare = compare_strings,
           json_parse = (\<lambda>s. None), date_parse = (\<lambda>s. None)\<rparr>"

section \<open>Follow-up questions\<close>

definition strip_list_prefix :: "string \<Rightarrow> string" where
  \<comment> \<open>\<open>.replace(/^[-*\d.\s]+/, "")\<close>\<close>
  "strip_list_prefix s = dropWhile (\<lambda>c. c \<in> set ''-*.'' \<or> is_digit c \<or> is_space c) s"

definition strip_quotes :: "string \<Rightarrow> string" where
  \<comment> \<open>\<open>.replace(/^"|"$/g, "")\<close>\<close>
  "strip_quotes s =
     (let s1 = (case s of [] \<Rightarrow> [] | c # cs \<Rightarrow> if c = CHR 0x22 then cs else s)
      in if s1 \<noteq> [] \<and> last s1 = CHR 0x22 then butlast s1 else s1)"

fun unique_ci :: "string list \<Rightarrow> string list \<Rightarrow> string list" where
  \<comment> \<open>the loop with the \<open>seen\<close> set of lower-cased keys\<close>
  "unique_ci seen [] = []"
| "unique_ci seen (s # ss) =
     (let key = toLowerCase s
      in if key \<in> set seen then unique_ci seen ss else s # unique_ci (key # seen) ss)"

definition sanitizeFollowUps :: "string list \<Rightarrow> string list" where
  "sanitizeFollowUps items =
     (let cleaned = take 3 (filter (\<lambda>s. s \<noteq> [])
                       (map (\<lambda>s. trim (strip_quotes s))
                          (map (\<lambda>s. trim (strip_list_prefix s)) items)))
      in take 3 (unique_ci [] cleaned))"

definition followUpsSchema :: "json \<Rightarrow> string list option" where
  \<comment> \<open>\<open>z.array(z.string().trim().min(1).max(140)).min(1).max(3)\<close>: the trimmed strings
      when the value passes\<close>
  "followUpsSchema j =
     (case j of
        JArr xs \<Rightarrow>
          if list_all (\<lambda>x. case x of JStr s \<Rightarrow> 1 \<le> length (trim s) \<and> length (trim s) \<le> 140
                                 | _ \<Rightarrow> False) xs
             \<and> 1 \<le> length xs \<and> length xs \<le> 3
          then Some (map (\<lambda>x. case x of JStr s \<Rightarrow> trim s | _ \<Rightarrow> []) xs)
          else None
      | _ \<Rightarrow> None)"

fun lastIndexOf :: "string \<Rightarrow> char \<Rightarrow> nat option" where
  "lastIndexOf [] c = None"
| "lastIndexOf (x # xs) c =
     (case lastIndexOf xs c of
        Some i \<Rightarrow> Some (Suc i)
      | None \<Rightarrow> if x = c then Some 0 else None)"

definition fence_rx :: rx where
  \<comment> \<open>the fenced block, with or without the \<open>json\<close> tag; the group is the text inside\<close>
  "fence_rx = cats [lit fence, Opt (lit ''json''), Star Sp, Grp (StarLazy AnyCh), Star Sp, lit fence]"

definition extractJsonArrayString :: "string \<Rightarrow> string option" where
  "extractJsonArrayString text =
     (let trimmed = trim text in
      if startsWith trimmed ''['' \<and> endsWith trimmed '']'' then Some trimmed
      else
        (let inside = (case rx_capture True fence_rx trimmed of
                         None \<Rightarrow> None
                       | Some g \<Rightarrow> if g = [] then None else Some (trim g))
         in if (case inside of None \<Rightarrow> False
                | Some i \<Rightarrow> startsWith i ''['' \<and> endsWith i '']'')
            then inside
            else
              (case (indexOf trimmed ''['', lastIndexOf trimmed (CHR '']'')) of
                 (Some first, Some lst) \<Rightarrow>
                   if lst > first
                   then (let candidate = trim (take (lst + 1 - first) (drop first trimmed))
                         in if startsWith candidate ''['' \<and> endsWith candidate '']''
                            then Some candidate else None)
                   else None
               | _ \<Rightarrow> None)))"

definition parseFollowUpsLoose :: "string \<Rightarrow> string list option" where
  "parseFollowUpsLoose raw =
     (let lines = filter (\<lambda>l. \<not> startsWith l fence)
                    (filter (\<lambda>l. l \<noteq> [])
                       (map trim (split False (Cat (Opt (Ch (CHR 0x0D))) (Ch (CHR 0x0A))) raw)));
          cleaned = sanitizeFollowUps lines
      in if cleaned \<noteq> [] then Some cleaned else None)"

definition parse_follow_up_reply :: "'a platform_scheme \<Rightarrow> string \<Rightarrow> string list option" where
  \<comment> \<open>\<open>generateFollowUps\<close> from the reply of the model on\<close>
  "parse_follow_up_reply P raw =
     (let trimmed = trim raw in
      case extractJsonArrayString trimmed of
        None \<Rightarrow> parseFollowUpsLoose trimmed
      | Some jsonArrayString \<Rightarrow>
          (case json_parse P jsonArrayString of
             None \<Rightarrow> parseFollowUpsLoose trimmed
           | Some j \<Rightarrow>
               (case followUpsSchema j of
                  None \<Rightarrow> parseFollowUpsLoose trimmed
                | Some strs \<Rightarrow>
                    (let sanitized = sanitizeFollowUps strs
                     in if sanitized \<noteq> [] then Some sanitized
                        else parseFollowUpsLoose trimmed))))"

definition buildHeuristicFollowUps :: "AskRequest \<Rightarrow> string list" where
  "buildHeuristicFollowUps input =
     (let topic = slice0 (extractTopicFromQuestion (question input)) 80;
          hindi = looksHindiQuestion input;
          items =
            (if hindi
             then [topic @ '' ke baare me key facts kya hain?'',
                   topic @ '' ke latest updates kya hain?'',
                   topic @ '' ka short summary 5 points me do.'']
             else [''What are the key facts about '' @ topic @ ''?'',
                   ''Any recent updates or news about '' @ topic @ ''?'',
                   ''Summarize '' @ topic @ '' in 5 bullet points.''])
      in sanitizeFollowUps items)"

section \<open>Safety refusal and local clock\<close>

definition buildSafetyRefusal :: "AskRequest \<Rightarrow> safety_reason \<Rightarrow> int \<Rightarrow> AskResponse" where
  \<comment> \<open>\<open>elapsed\<close> is the difference of the two clock readings\<close>
  "buildSafetyRefusal input block elapsed =
     (let hindi = looksHindiQuestion input;
          msg = (if hindi
                 then ''Main is request me madad nahi kar sakti. Agar aap turant khatre me ho, apne area ki emergency services ya kisi trusted person se turant baat karein.''
                 else ''I can't help with that. If you're in immediate danger, contact local emergency services or someone you trust right now.'');
          followUps =
            (if hindi
             then [''Kya aap safe hain abhi?'',
                   ''Aap kis type ki help chahte hain (support/resources)?'',
                   ''Main aapko safe alternatives ke saath guide kar sakti hoon.'']
             else [''Are you safe right now?'',
                   ''What kind of help or resources are you looking for?'',
                   ''I can offer safer alternatives or general guidance.''])
      in \<lparr>r_provider = ''openrouter'', r_model = ''policy-'' @ reason_name block,
          r_answer = msg, r_citations = [], r_followUps = followUps, r_latencyMs = elapsed\<rparr>)"

text \<open>The wall clock and its formatting belong to the platform: the formatted date and time
  and the time zone name are given, for the locale that the function asks for.\<close>

record clock_text =
  dateStr :: "bool \<Rightarrow> string"     \<comment> \<open>\<open>dateStyle: "full"\<close>; the argument says whether the locale is \<open>hi-IN\<close>\<close>
  timeStr :: "bool \<Rightarrow> string"     \<comment> \<open>\<open>timeStyle: "medium"\<close>\<close>
  tz :: string

definition buildLocalClockAnswer :: "clock_text \<Rightarrow> AskRequest \<Rightarrow> string option" where
  "buildLocalClockAnswer clk input =
     (case classifyLocalClockIntent (question input) of
        None \<Rightarrow> None
      | Some intent \<Rightarrow>
          (let looksHindi =
                 (language input = Some Hi
                  \<or> (language input = Some Auto
                      \<and> (has_devanagari (question input)
                          \<or> rx_test True (bounded [lit ''aaj'', lit ''abhi'', lit ''tarikh''])
                               (question input))));
               d = dateStr clk looksHindi;
               t = timeStr clk looksHindi
           in Some
                (if looksHindi then
                   (if intent = AsksDate then ''Aaj ki tareekh '' @ d @ '' hai ('' @ tz clk @ '' ke hisaab se).''
                    else if intent = AsksTime then ''Abhi ka samay '' @ t @ '' hai ('' @ tz clk @ '' ke hisaab se).''
                    else ''Abhi '' @ t @ '' ho rahe hain aur tareekh '' @ d @ '' hai ('' @ tz clk @ '' ke hisaab se).'')
                 else
                   (if intent = AsksDate then ''Today's date is '' @ d @ '' (local time: '' @ tz clk @ '').''
                    else if intent = AsksTime then ''The current time is '' @ t @ '' (local time: '' @ tz clk @ '').''
                    else ''Right now it's '' @ t @ '' on '' @ d @ '' (local time: '' @ tz clk @ '').''))))"

section \<open>Evidence: excerpts, scores, candidates\<close>

record EvidenceSource =
  title :: string
  url :: string
  snippet :: string
  extractedText :: "string option"

record SourceCandidate = EvidenceSource +
  score :: int
  normUrl :: string

record chunk =
  ch_start :: nat
  ch_end :: nat
  ch_score :: nat

function scan_chunks :: "string list \<Rightarrow> string \<Rightarrow> nat \<Rightarrow> chunk list" where
  \<comment> \<open>the loop over the windows of 520 code units, 320 apart\<close>
  "scan_chunks qTokens lower start =
     (if \<not> start < length lower then []
      else
        (let end = min (length lower) (start + 520);
             piece = take (end - start) (drop start lower);
             sc = length (filter (\<lambda>t. str_includes piece t) qTokens);
             here = (if sc > 0 then [\<lparr>ch_start = start, ch_end = end, ch_score = sc\<rparr>] else [])
         in if end \<ge> length lower then here
            else here @ scan_chunks qTokens lower (start + 320)))"
  by pat_completeness auto
termination
  by (relation "measure (\<lambda>(qTokens, lower, start). length lower - start)") auto

fun pick_chunks :: "nat \<Rightarrow> chunk list \<Rightarrow> chunk list \<Rightarrow> chunk list" where
  \<comment> \<open>the loop that picks windows at least 220 apart\<close>
  "pick_chunks maxChunks picked [] = picked"
| "pick_chunks maxChunks picked (c # cs) =
     (if length picked \<ge> maxChunks then picked
      else if list_ex (\<lambda>p. \<bar>int (ch_start p) - int (ch_start c)\<bar> < 220) picked
      then pick_chunks maxChunks picked cs
      else pick_chunks maxChunks (picked @ [c]) cs)"

definition buildRelevantExcerpt :: "string \<Rightarrow> string \<Rightarrow> nat \<Rightarrow> nat \<Rightarrow> string" where
  "buildRelevantExcerpt text0 qtext maxTotalChars maxChunks =
     (let text = normalizeForMatching text0 in
      if text = [] then []
      else
        (let qTokens = tokenizeForMatch qtext in
         if length qTokens = 0 then truncate_text text maxTotalChars
         else
           (let scored = scan_chunks qTokens (toLowerCase text) 0 in
            if length scored = 0 then truncate_text text maxTotalChars
            else
              (let sorted = sort_by (\<lambda>a b. if ch_score b \<noteq> ch_score a
                                               then int (ch_score b) - int (ch_score a)
                                               else int (ch_start a) - int (ch_start b)) scored;
                   picked = pick_chunks maxChunks [] sorted;
                   parts = filter (\<lambda>p. p \<noteq> [])
                             (map (\<lambda>p. trim (take (ch_end p - ch_start p) (drop (ch_start p) text)))
                                (sort_by (\<lambda>a b. int (ch_start a) - int (ch_start b)) picked))
               in truncate_text (join [CHR 0x0A, CHR 0x0A] parts) maxTotalChars))))"

definition host_rx_gov :: rx where "host_rx_gov = cats [lit ''.gov'', Alt (Ch (CHR ''.'')) Eol]"
definition host_rx_edu :: rx where "host_rx_edu = cats [lit ''.edu'', Alt (Ch (CHR ''.'')) Eol]"
definition host_rx_org :: rx where "host_rx_org = cats [lit ''.org'', Alt (Ch (CHR ''.'')) Eol]"

definition host_rx_ugc :: rx where
  "host_rx_ugc = alts [Cat (lit ''medium.com'') Eol, lit ''blogspot.'', lit ''wordpress.'',
                       Cat (lit ''substack.com'') Eol, lit ''tumblr.'', Cat (lit ''reddit.com'') Eol,
                       Cat (lit ''quora.com'') Eol]"

definition published_rx :: rx where
  \<comment> \<open>\<open>/\bpublished:\s*(\d{4}-\d{2}-\d{2})\b/i\<close>\<close>
  "published_rx = cats [Bnd, lit ''published:'', Star Sp,
                        Grp (cats [Dg, Dg, Dg, Dg, Ch (CHR ''-''), Dg, Dg, Ch (CHR ''-''), Dg, Dg]), Bnd]"

definition scoreSource ::
  "'a platform_scheme \<Rightarrow> int \<Rightarrow> string \<Rightarrow> string \<Rightarrow> string \<Rightarrow> string \<Rightarrow> bool \<Rightarrow> int option" where
  \<comment> \<open>\<open>nowMs\<close> is \<open>Date.now()\<close>; the result is \<open>None\<close> when \<open>new URL(norm.cleanedUrl)\<close>
      throws\<close>
  "scoreSource P nowMs url_s title_s snippet_s qtext fresh =
     (case (case normalizeUrlForDedupe P url_s of
              None \<Rightarrow> Some []
            | Some (key, cleanedUrl) \<Rightarrow> map_option hostname (url_parse P cleanedUrl)) of
        None \<Rightarrow> None
      | Some host \<Rightarrow>
          (let s1 = (if rx_test True host_rx_gov host then 6
                     else if rx_test True host_rx_edu host then 5
                     else if rx_test True host_rx_org host then 2 else (0::int));
               s2 = s1 + (if rx_test True (Cat (lit ''wikipedia.org'') Eol) host then 3 else 0);
               s3 = s2 + (if rx_test True (Cat (lit ''github.com'') Eol) host then 2 else 0);
               s4 = s3 - (if rx_test True host_rx_ugc host then 2 else 0);
               qTokens = dedupe [] (tokenizeForMatch qtext);
               hay = toLowerCase (title_s @ '' '' @ snippet_s);
               hits = length (filter (\<lambda>t. str_includes hay t) qTokens);
               s5 = s4 + int (min 6 hits);
               s6 = s5 +
                 (if fresh then
                    (case rx_capture True published_rx snippet_s of
                       None \<Rightarrow> 0
                     | Some d \<Rightarrow>
                         if d = [] then 0
                         else (case date_parse P d of
                                 None \<Rightarrow> 2
                               | Some ts \<Rightarrow>
                                   (let ageDays = max 0 ((nowMs - ts) div (24 * 60 * 60 * 1000))
                                    in if ageDays \<le> 2 then 4
                                       else if ageDays \<le> 7 then 3
                                       else if ageDays \<le> 30 then 2 else 1)))
                  else 0)
           in Some s6))"

type_synonym candidate_table = "(string \<times> SourceCandidate) list"

fun table_set :: "string \<Rightarrow> SourceCandidate \<Rightarrow> candidate_table \<Rightarrow> candidate_table" where
  \<comment> \<open>\<open>Map.set\<close>: a key that is there keeps its place in the iteration order\<close>
  "table_set k v [] = [(k, v)]"
| "table_set k v ((k', v') # rest) =
     (if k' = k then (k, v) # rest else (k', v') # table_set k v rest)"

definition upsertCandidate ::
  "'a platform_scheme \<Rightarrow> int \<Rightarrow> string \<Rightarrow> bool \<Rightarrow> candidate_table \<Rightarrow> EvidenceSource
     \<Rightarrow> candidate_table option" where
  \<comment> \<open>\<open>None\<close> when the call throws\<close>
  "upsertCandidate P nowMs qtext fresh byNormUrl src =
     (let norm = normalizeUrlForDedupe P (url src);
          normKey = (case norm of None \<Rightarrow> url src | Some (key, cleaned) \<Rightarrow> key);
          cleanedUrl = (case norm of None \<Rightarrow> url src | Some (key, cleaned) \<Rightarrow> cleaned);
          s = src\<lparr>url := cleanedUrl\<rparr>
      in case scoreSource P nowMs cleanedUrl (title s) (snippet s) qtext fresh of
           None \<Rightarrow> None
         | Some sc \<Rightarrow>
             (case map_of byNormUrl normKey of
                None \<Rightarrow> Some (table_set normKey
                                (EvidenceSource.extend s \<lparr>score = sc, normUrl = normKey\<rparr>) byNormUrl)
              | Some existing \<Rightarrow>
                  if sc > score existing
                  then Some (table_set normKey
                               (EvidenceSource.extend s \<lparr>score = sc, normUrl = normKey\<rparr>) byNormUrl)
                  else Some byNormUrl))"

fun upsert_results ::
  "'a platform_scheme \<Rightarrow> int \<Rightarrow> string \<Rightarrow> bool \<Rightarrow> candidate_table \<Rightarrow> EvidenceSource list
     \<Rightarrow> candidate_table" where
  \<comment> \<open>the loop over the results of one provider inside its \<open>try\<close>: a throw ends the loop
      and the \<open>catch\<close> keeps what the table holds\<close>
  "upsert_results P nowMs qtext fresh byNormUrl [] = byNormUrl"
| "upsert_results P nowMs qtext fresh byNormUrl (src # srcs) =
     (case upsertCandidate P nowMs qtext fresh byNormUrl src of
        None \<Rightarrow> byNormUrl
      | Some t \<Rightarrow> upsert_results P nowMs qtext fresh t srcs)"

subsection \<open>Rank, host cap, backfill\<close>

definition host_of_candidate :: "'a platform_scheme \<Rightarrow> SourceCandidate \<Rightarrow> string" where
  \<comment> \<open>\<open>getHostnameSafe(c.url) || c.url\<close>\<close>
  "host_of_candidate P c = (let h = getHostnameSafe P (url c) in if h = [] then url c else h)"

fun pick_capped ::
  "'a platform_scheme \<Rightarrow> nat \<Rightarrow> nat \<Rightarrow> (string \<Rightarrow> nat) \<Rightarrow> SourceCandidate list \<Rightarrow> SourceCandidate list
     \<Rightarrow> SourceCandidate list" where
  \<comment> \<open>the first loop; the candidates picked are kept whole here and cut down to
      \<open>EvidenceSource\<close> at the end\<close>
  "pick_capped P maxSources cap hostCounts picked [] = picked"
| "pick_capped P maxSources cap hostCounts picked (c # cs) =
     (if length picked \<ge> maxSources then picked
      else (let host = host_of_candidate P c; n = hostCounts host
            in if n \<ge> cap then pick_capped P maxSources cap hostCounts picked cs
               else pick_capped P maxSources cap (hostCounts(host := n + 1)) (picked @ [c]) cs))"

fun backfill :: "nat \<Rightarrow> SourceCandidate list \<Rightarrow> SourceCandidate list \<Rightarrow> SourceCandidate list" where
  \<comment> \<open>the second loop\<close>
  "backfill maxSources picked [] = picked"
| "backfill maxSources picked (c # cs) =
     (if length picked \<ge> maxSources then picked
      else if list_ex (\<lambda>p. url p = url c) picked then backfill maxSources picked cs
      else backfill maxSources (picked @ [c]) cs)"

definition select_candidates :: "'a platform_scheme \<Rightarrow> bool \<Rightarrow> candidate_table \<Rightarrow> SourceCandidate list" where
  "select_candidates P fresh byNormUrl =
     (let ranked = sort_by (\<lambda>a b. score b - score a) (map snd byNormUrl);
          maxSources = (if fresh then 8 else 6);
          preferredMaxPerHost = (if fresh then 1 else 2);
          picked = pick_capped P maxSources preferredMaxPerHost (\<lambda>h. 0) [] ranked
      in if length picked < maxSources then backfill maxSources picked ranked else picked)"

definition select_sources :: "'a platform_scheme \<Rightarrow> bool \<Rightarrow> candidate_table \<Rightarrow> EvidenceSource list" where
  \<comment> \<open>what is pushed onto \<open>sources\<close>: each pick without \<open>score\<close> and \<open>normUrl\<close>\<close>
  "select_sources P fresh byNormUrl = map EvidenceSource.truncate (select_candidates P fresh byNormUrl)"

subsection \<open>Citations of the response\<close>

definition map_citations :: "EvidenceSource list \<Rightarrow> string \<Rightarrow> Citation list" where
  \<comment> \<open>\<open>usedSourceNumbers.map(n => sources[n - 1]).filter(s => !!s).map(...)\<close>\<close>
  "map_citations sources answer =
     (let usedSourceNumbers = sanitizeCitationNumbers (extractCitationNumbers answer) (length sources)
      in map (\<lambda>s. \<lparr>c_url = url s, c_title = title s\<rparr>)
           (concat (map (\<lambda>n. if 1 \<le> n \<and> nat (n - 1) < length sources
                              then [sources ! nat (n - 1)] else [])
                        usedSourceNumbers)))"

section \<open>Invariant of the candidate table\<close>

definition table_ok :: "candidate_table \<Rightarrow> bool" where
  \<comment> \<open>what \<open>byNormUrl\<close> is as a \<open>Map\<close>: every key once, and each candidate filed under its
      own \<open>normUrl\<close>\<close>
  "table_ok tbl = (distinct (map fst tbl) \<and> list_all (\<lambda>(k, c). normUrl c = k) tbl)"

definition without_tracking :: "(string \<times> string) list \<Rightarrow> (string \<times> string) list" where
  \<comment> \<open>the query pairs that are not tracking parameters\<close>
  "without_tracking ps = filter (\<lambda>(k, v). \<not> is_tracking_param k) ps"

definition canon_key :: "'a platform_scheme \<Rightarrow> string \<Rightarrow> string" where
  \<comment> \<open>\<open>norm?.key ?? src.url\<close>\<close>
  "canon_key P u = (case normalizeUrlForDedupe P u of None \<Rightarrow> u | Some (key, cleaned) \<Rightarrow> key)"

definition canon_url :: "'a platform_scheme \<Rightarrow> string \<Rightarrow> string" where
  \<comment> \<open>\<open>norm?.cleanedUrl ?? src.url\<close>\<close>
  "canon_url P u = (case normalizeUrlForDedupe P u of None \<Rightarrow> u | Some (key, cleaned) \<Rightarrow> cleaned)"

definition candidate_of :: "'a platform_scheme \<Rightarrow> EvidenceSource \<Rightarrow> int \<Rightarrow> SourceCandidate" where
  \<comment> \<open>\<open>{ ...s, score, normUrl: normKey }\<close> with \<open>s = { ...src, url: cleanedUrl }\<close>\<close>
  "candidate_of P src sc =
     EvidenceSource.extend (src\<lparr>url := canon_url P (url src)\<rparr>)
       \<lparr>score = sc, normUrl = canon_key P (url src)\<rparr>"

definition canon_host :: "URL \<Rightarrow> string" where
  \<comment> \<open>\<open>host\<close> of \<open>normalizeUrlForDedupe\<close>\<close>
  "canon_host u = strip_www (toLowerCase (hostname u))"

definition canon_path :: "URL \<Rightarrow> string" where
  \<comment> \<open>\<open>path\<close> of \<open>normalizeUrlForDedupe\<close>\<close>
  "canon_path u = (if strip_trailing_slashes (pathname u) = [] then ''/''
                   else strip_trailing_slashes (pathname u))"

definition canon_entries :: "'a platform_scheme \<Rightarrow> URL \<Rightarrow> (string \<times> string) list" where
  \<comment> \<open>\<open>entries\<close> of \<open>normalizeUrlForDedupe\<close>: the query pairs left, sorted by name\<close>
  "canon_entries P u =
     sort_by (\<lambda>(a, _) (b, _). localeCompare P a b) (without_tracking (searchParams u))"

section \<open>The services around the ask pipeline\<close>

text \<open>
  Every outbound call of the pipeline is an event of a trace.  The services are parameters:
  each answers from the trace of the calls made before it and from its own arguments, so
  that a service may answer the same request differently at different moments.  The
  concurrent calls of one \<open>Promise.allSettled\<close> are taken in the order of the array.
\<close>

record chat_message =
  role :: string
  content :: string

record ChatCompletionParams =
  cc_apiKey :: string
  cc_model :: string
  cc_messages :: "chat_message list"
  cc_timeoutMs :: nat
  cc_temperature :: "real option"
  cc_maxTokens :: "nat option"

record TavilyParams =
  tv_query :: string
  tv_maxResults :: nat
  tv_timeoutMs :: nat
  tv_topic :: web_topic
  tv_timeRange :: "web_time_range option"
  tv_searchDepth :: string
  tv_includeRawContent :: bool       \<comment> \<open>\<open>"text"\<close> or \<open>false\<close>\<close>

record BraveParams =
  bv_query :: string
  bv_count :: nat
  bv_timeoutMs :: nat

record WebSearchResult =
  ws_title :: string
  ws_url :: string
  ws_snippet :: string

record TavilyResult =
  tv_results :: "WebSearchResult list"
  tv_rawByUrl :: "(string \<times> string) list"

datatype outbound =
    ChatCall ChatCompletionParams
  | TavilyCall TavilyParams
  | BraveCall BraveParams
  | PageFetch string
  | ListModels

type_synonym trace = "outbound list"

record world = platform +
  env_OPENROUTER_API_KEY :: "string option"
  env_OPENROUTER_DEFAULT_MODEL :: "string option"
  env_TAVILY_API_KEY :: "string option"
  env_BRAVE_SEARCH_API_KEY :: "string option"
  chat :: "trace \<Rightarrow> ChatCompletionParams \<Rightarrow> thrown + string"
      \<comment> \<open>\<open>openRouterChatCompletion\<close>, retries included\<close>
  tavilyWebSearch :: "trace \<Rightarrow> TavilyParams \<Rightarrow> TavilyResult option"
      \<comment> \<open>\<open>None\<close> for a rejected promise\<close>
  braveWebSearch :: "trace \<Rightarrow> BraveParams \<Rightarrow> WebSearchResult list option"
  fetchPageText :: "trace \<Rightarrow> string \<Rightarrow> string option"
  listFreeOpenRouterModels :: "trace \<Rightarrow> thrown + string list"
  clock :: clock_text
  date_now :: "trace \<Rightarrow> int"          \<comment> \<open>\<open>Date.now()\<close>\<close>
  referenceDateUtc :: string           \<comment> \<open>\<open>new Date().toISOString().slice(0, 10)\<close>\<close>

fun call_all :: "(trace \<Rightarrow> 'q \<Rightarrow> 'r) \<Rightarrow> ('q \<Rightarrow> outbound) \<Rightarrow> trace \<Rightarrow> 'q list \<Rightarrow> trace \<times> 'r list" where
  "call_all service event tr [] = (tr, [])"
| "call_all service event tr (q # qs) =
     (let r = service tr q;
          rest = call_all service event (tr @ [event q]) qs
      in (fst rest, r # snd rest))"

section \<open>Evidence gathering\<close>

fun first_queries :: "string list \<Rightarrow> string list \<Rightarrow> string list \<Rightarrow> string list" where
  \<comment> \<open>the loop that keeps at most three queries, equal ones (ignoring case) once\<close>
  "first_queries seenQ queries [] = queries"
| "first_queries seenQ queries (q # qs) =
     (let key = toLowerCase q
      in if key \<in> set seenQ then first_queries seenQ queries qs
         else if length (queries @ [q]) \<ge> 3 then queries @ [q]
         else first_queries (key # seenQ) (queries @ [q]) qs)"

definition build_queries :: "AskRequest \<Rightarrow> string list" where
  "build_queries input =
     (let recency = detectRecencyIntent (question input);
          base = trim (question input);
          core = slice0 (extractTopicFromQuestion (question input)) 120;
          coreOrBase = (if core \<noteq> [] then core else base);
          queryCandidates =
            filter (\<lambda>q. q \<noteq> [] \<and> length (trim q) > 0)
              ([base]
               @ (if core \<noteq> [] \<and> core \<noteq> base then [core] else [])
               @ (if wantsFresh recency then [coreOrBase @ '' latest''] else [])
               @ (if wantsVeryFresh recency then [coreOrBase @ '' today''] else [])
               @ (if isFinance recency then [coreOrBase @ '' price''] else [])
               @ (if mode input = Some Verified then [coreOrBase @ '' official''] else []))
      in first_queries [] [] queryCandidates)"

definition tavily_sources :: "string \<Rightarrow> TavilyResult option list \<Rightarrow> EvidenceSource list" where
  \<comment> \<open>the results of the fulfilled searches, as the arguments of \<open>upsertCandidate\<close>\<close>
  "tavily_sources qtext settled =
     concat (map (\<lambda>s. case s of
                        None \<Rightarrow> []
                      | Some v \<Rightarrow>
                          map (\<lambda>r. \<lparr>title = ws_title r, url = ws_url r, snippet = ws_snippet r,
                                     extractedText =
                                       (case map_of (tv_rawByUrl v) (ws_url r) of
                                          None \<Rightarrow> None
                                        | Some raw \<Rightarrow>
                                            if trim raw \<noteq> []
                                            then Some (buildRelevantExcerpt raw qtext 1200 3)
                                            else None)\<rparr>)
                              (filter (\<lambda>r. ws_url r \<noteq> []) (tv_results v)))
                 settled)"

definition brave_sources :: "WebSearchResult list option list \<Rightarrow> EvidenceSource list" where
  "brave_sources settled =
     concat (map (\<lambda>s. case s of
                        None \<Rightarrow> []
                      | Some v \<Rightarrow>
                          map (\<lambda>r. \<lparr>title = ws_title r, url = ws_url r, snippet = ws_snippet r,
                                     extractedText = None\<rparr>)
                              (filter (\<lambda>r. ws_url r \<noteq> []) v))
                 settled)"

fun fetch_pages ::
  "('a world_scheme) \<Rightarrow> string \<Rightarrow> trace \<Rightarrow> nat list \<Rightarrow> EvidenceSource list
     \<Rightarrow> trace \<times> EvidenceSource list" where
  \<comment> \<open>the page fetches of \<open>toFetch\<close>; a failed fetch leaves the source as it is\<close>
  "fetch_pages W qtext tr [] sources = (tr, sources)"
| "fetch_pages W qtext tr (idx # idxs) sources =
     (let page = fetchPageText W tr (url (sources ! idx));
          sources' = (case page of
                        None \<Rightarrow> sources
                      | Some pageText \<Rightarrow>
                          sources[idx := (sources ! idx)
                                    \<lparr>extractedText := Some (buildRelevantExcerpt pageText qtext 1200 3)\<rparr>])
      in fetch_pages W qtext (tr @ [PageFetch (url (sources ! idx))]) idxs sources')"

definition gather_table :: "('a world_scheme) \<Rightarrow> AskRequest \<Rightarrow> trace \<Rightarrow> trace \<times> candidate_table" where
  \<comment> \<open>the two provider blocks: the searches and the upserts into \<open>byNormUrl\<close>\<close>
  "gather_table W input tr0 =
     (let recency = detectRecencyIntent (question input);
          fresh = wantsFresh recency;
          topic = (case webTopic input of
                     Some t \<Rightarrow> t
                   | None \<Rightarrow> if isFinance recency then Finance else if fresh then News else General);
          timeRange = (case webTimeRange input of
                         Some t \<Rightarrow> Some t
                       | None \<Rightarrow> if wantsVeryFresh recency then Some Day
                                 else if fresh then Some Week else None);
          queries = build_queries input;
          maxResultsPerQuery = (if fresh then 6 else 4);
          searchDepth = (if mode input = Some Verified then (if fresh then ''advanced'' else ''basic'')
                         else ''fast'');
          t1 = (if env_TAVILY_API_KEY W \<noteq> None then
                  (let called = call_all (tavilyWebSearch W) TavilyCall tr0
                                  (map (\<lambda>q. \<lparr>tv_query = q, tv_maxResults = maxResultsPerQuery,
                                             tv_timeoutMs = 10000, tv_topic = topic,
                                             tv_timeRange = timeRange, tv_searchDepth = searchDepth,
                                             tv_includeRawContent = (mode input = Some Verified)\<rparr>)
                                       queries)
                   in (fst called,
                       upsert_results W (date_now W (fst called)) (question input) fresh []
                         (tavily_sources (question input) (snd called))))
                else (tr0, []));
          t2 = (if env_BRAVE_SEARCH_API_KEY W \<noteq> None then
                  (let called = call_all (braveWebSearch W) BraveCall (fst t1)
                                  (map (\<lambda>q. \<lparr>bv_query = q, bv_count = maxResultsPerQuery,
                                             bv_timeoutMs = 10000\<rparr>)
                                       (take 2 queries))
                   in (fst called,
                       upsert_results W (date_now W (fst called)) (question input) fresh (snd t1)
                         (brave_sources (snd called))))
                else t1)
      in t2)"

definition gather_evidence :: "('a world_scheme) \<Rightarrow> AskRequest \<Rightarrow> trace \<Rightarrow> trace \<times> EvidenceSource list" where
  \<comment> \<open>the body of \<open>if (useWeb)\<close>\<close>
  "gather_evidence W input tr0 =
     (let fresh = wantsFresh (detectRecencyIntent (question input));
          t2 = gather_table W input tr0;
          sources = select_sources W fresh (snd t2);
          maxFetch = (if mode input = Some Verified then (if fresh then 5 else 4)
                      else if fresh then 4 else 3);
          toFetch = filter (\<lambda>i. extractedText (sources ! i) = None \<or> extractedText (sources ! i) = Some [])
                      [0..<min maxFetch (length sources)]
      in fetch_pages W (question input) (fst t2) toFetch sources)"

section \<open>Prompts\<close>

definition lines :: "string list \<Rightarrow> string" where
  \<comment> \<open>\<open>[...].join("\n")\<close>\<close>
  "lines ls = join [CHR 0x0A] ls"

fun evidence_lines :: "nat \<Rightarrow> EvidenceSource list \<Rightarrow> string list" where
  "evidence_lines idx [] = []"
| "evidence_lines idx (s # ss) =
     [[], ''['' @ show_nat idx @ ''] '' @ title s, ''URL: '' @ url s]
     @ (if snippet s \<noteq> [] then [''Snippet: '' @ truncate_text (snippet s) 500] else [])
     @ (case extractedText s of
          None \<Rightarrow> []
        | Some e \<Rightarrow> if e \<noteq> [] then [''Extracted: '' @ truncate_text e 2500] else [])
     @ evidence_lines (idx + 1) ss"

definition buildEvidenceBlock :: "EvidenceSource list \<Rightarrow> string" where
  "buildEvidenceBlock sources =
     (if length sources = 0 then []
      else lines (''SOURCES (use citations like [1], [2] that refer to these sources):''
                  # evidence_lines 1 sources))"

definition style_name :: "ask_style \<Rightarrow> string" where
  "style_name s = (case s of Concise \<Rightarrow> ''Concise'' | Balanced \<Rightarrow> ''Balanced''
                    | Detailed \<Rightarrow> ''Detailed'' | Creative \<Rightarrow> ''Creative'')"

definition mode_name :: "ask_mode \<Rightarrow> string" where
  "mode_name m = (case m of Fast \<Rightarrow> ''fast'' | Verified \<Rightarrow> ''verified'')"

definition language_name :: "ask_language \<Rightarrow> string" where
  "language_name l = (case l of Auto \<Rightarrow> ''auto'' | En \<Rightarrow> ''en'' | Hi \<Rightarrow> ''hi'')"

record prompt_options =
  strictCitations :: "bool option"
  sourcesCount :: "nat option"

definition buildSystemPrompt :: "string \<Rightarrow> AskRequest \<Rightarrow> prompt_options \<Rightarrow> string" where
  \<comment> \<open>the first argument is the reference date\<close>
  "buildSystemPrompt refDate input options =
     (let strict = the_default False (strictCitations options)
      in lines (filter (\<lambda>l. l \<noteq> [])
           [''You are NOLIA, an assistant that answers accurately.'',
            ''Style: '' @ style_name (the_default Balanced (style input)) @ ''.'',
            ''Mode: '' @ mode_name (the_default Verified (mode input)) @ ''.'',
            ''Language: '' @ language_name (the_default Auto (language input))
               @ ''. If language is auto, reply in the user's language.'',
            ''Reference date (UTC): '' @ refDate
               @ ''. Use this only to interpret words like 'today' when needed.'',
            ''Output formatting: you MAY use simple Markdown for readability (short headings, bullet lists, and code blocks).'',
            ''Do not repeat the same answer or paragraphs. Avoid duplicated content.'',
            ''Do not add a 'Sources' section or 'Sources:' footer. Use only inline citations like [1], [2].'',
            ''If the user asks for the latest/current information, prioritize the most recent sources available and avoid guessing dates.'',
            ''When sources are provided, you must not introduce facts, numbers, or dates that are not supported by the sources.'',
            ''If sources are provided, you MUST cite them using [n] and only use information supported by the sources.'',
            ''When sources are provided, each paragraph or bullet list item should include at least one citation [n] for factual claims.'',
            ''If no sources are provided, say you do not have sources to cite and avoid confident claims, exact numbers, or exact dates.'',
            ''If sources do not support a claim, say you could not verify it from the sources rather than guessing.'',
            ''If you are unsure, say so instead of guessing.'',
            (if strict
             then ''CRITICAL: Citations are REQUIRED. Do not output any citation number outside the provided range. If you cannot cite a claim, say you cannot verify it from the sources.''
             else []),
            (case sourcesCount options of
               None \<Rightarrow> []
             | Some n \<Rightarrow> if n > 0
                         then ''Citations: Use only [1]..['' @ show_nat n
                              @ ''] and cite relevant sources frequently.''
                         else []),
            ''Safety policy: refuse requests for self-harm, violence, weapons, illegal drugs, hacking/malware, or sexual content involving minors.'',
            ''For medical, legal, or financial topics: provide general info and encourage consulting a qualified professional.'']))"

section \<open>Grounded facts\<close>

record GroundedFact =
  fact :: string
  citations :: "int list"

definition citationNumberSchema :: "json \<Rightarrow> int option" where
  \<comment> \<open>the preprocessing and \<open>z.number().int().min(1)\<close>\<close>
  "citationNumberSchema v =
     (case (case v of
              JStr s \<Rightarrow> (case parseInt10 s of
                           None \<Rightarrow> v
                         | Some n \<Rightarrow> if js_finite n then JInt n else v)
            | _ \<Rightarrow> v) of
        JInt n \<Rightarrow> if n \<ge> 1 then Some n else None
      | _ \<Rightarrow> None)"

definition groundedFactSchema :: "json \<Rightarrow> GroundedFact option" where
  "groundedFactSchema j =
     (case j of
        JObj kv \<Rightarrow>
          (case (map_of kv ''fact'', map_of kv ''citations'') of
             (Some (JStr f), Some (JArr cs)) \<Rightarrow>
               if 1 \<le> length (trim f) \<and> length (trim f) \<le> 500
                  \<and> 1 \<le> length cs \<and> length cs \<le> 3
                  \<and> list_all (\<lambda>c. citationNumberSchema c \<noteq> None) cs
               then Some \<lparr>fact = trim f,
                          citations = map (\<lambda>c. the_default 0 (citationNumberSchema c)) cs\<rparr>
               else None
           | _ \<Rightarrow> None)
      | _ \<Rightarrow> None)"

definition groundedFactsSchema :: "json \<Rightarrow> GroundedFact list option" where
  "groundedFactsSchema j =
     (case j of
        JArr xs \<Rightarrow>
          if 1 \<le> length xs \<and> length xs \<le> 15 \<and> list_all (\<lambda>x. groundedFactSchema x \<noteq> None) xs
          then Some (map (\<lambda>x. the_default \<lparr>fact = [], citations = []\<rparr> (groundedFactSchema x)) xs)
          else None
      | _ \<Rightarrow> None)"

definition parseGroundedFacts :: "'a platform_scheme \<Rightarrow> string \<Rightarrow> nat \<Rightarrow> GroundedFact list option" where
  "parseGroundedFacts P raw maxSource =
     (case extractJsonArrayString raw of
        None \<Rightarrow> None
      | Some jsonArrayString \<Rightarrow>
          (case json_parse P jsonArrayString of
             None \<Rightarrow> None
           | Some j \<Rightarrow>
               (case groundedFactsSchema j of
                  None \<Rightarrow> None
                | Some parsed \<Rightarrow>
                    (let cleaned =
                           concat (map (\<lambda>f. let cites = sanitizeCitationNumbers (citations f) maxSource
                                             in if length cites = 0 then []
                                                else [\<lparr>fact = fact f, citations = cites\<rparr>])
                                       parsed)
                     in if cleaned \<noteq> [] then Some cleaned else None))))"

definition buildFactsBlock :: "GroundedFact list \<Rightarrow> string" where
  "buildFactsBlock facts =
     lines (map (\<lambda>(idx, f). trim (show_nat (idx + 1) @ ''. '' @ fact f @ '' ''
                                    @ join '' '' (map (\<lambda>n. ''['' @ show_nat (nat n) @ '']'') (citations f))))
                (zip [0..<length facts] facts))"

section \<open>Answer composition\<close>

definition grounded_facts_params :: "('a world_scheme) \<Rightarrow> string \<Rightarrow> string \<Rightarrow> AskRequest \<Rightarrow> string \<Rightarrow> nat
    \<Rightarrow> ChatCompletionParams" where
  \<comment> \<open>the request of \<open>generateGroundedFacts\<close>\<close>
  "grounded_facts_params W apiKey model_s input userContent n =
     (let prompt = lines
            [''Extract a list of source-backed facts that answer the user's question.'',
             ''Return ONLY valid JSON as an array of objects with shape:'',
             ''{'' @ [CHR 0x22] @ ''fact'' @ [CHR 0x22] @ '': string, '' @ [CHR 0x22] @ ''citations''
                @ [CHR 0x22] @ '': number[]}'',
             ''Rules:'',
             ''- Each fact must be supported by the provided SOURCES.'',
             ''- Use only citation numbers in range [1]..['' @ show_nat n @ ''].'',
             ''- Keep facts short and specific (no long paragraphs).'',
             ''- Include key numbers/dates ONLY if supported by sources.'',
             ''- If sources do not support an important detail, omit it.'',
             ''- Do NOT include markdown, headings, or extra keys.'',
             ''- Output JSON only.'',
             [],
             ''User language: '' @ language_name (the_default Auto (language input)),
             ''User question: '' @ question input]
      in \<lparr>cc_apiKey = apiKey, cc_model = model_s,
          cc_messages =
            [\<lparr>role = ''system'',
              content = buildSystemPrompt (referenceDateUtc W) input
                          \<lparr>strictCitations = Some True, sourcesCount = Some n\<rparr>\<rparr>,
             \<lparr>role = ''user'', content = prompt @ [CHR 0x0A, CHR 0x0A] @ userContent\<rparr>],
          cc_timeoutMs = 25000, cc_temperature = Some 0.1, cc_maxTokens = Some 520\<rparr>)"

definition compose_from_facts_params :: "('a world_scheme) \<Rightarrow> string \<Rightarrow> string \<Rightarrow> AskRequest
    \<Rightarrow> GroundedFact list \<Rightarrow> nat \<Rightarrow> ChatCompletionParams" where
  \<comment> \<open>the request of \<open>composeAnswerFromFacts\<close>\<close>
  "compose_from_facts_params W apiKey model_s input facts n =
     (let prompt = lines
            [''Write the final answer using ONLY the FACTS below.'',
             ''Rules:'',
             ''- Do not introduce any new facts, numbers, or dates that are not present in FACTS.'',
             ''- Use inline citations like [1]..[N] for factual claims.'',
             ''- Each paragraph or bullet should include at least one citation if it contains factual claims.'',
             ''- If the facts do not fully answer the question, say what cannot be verified from sources.'',
             [],
             ''Question: '' @ question input,
             [],
             ''FACTS:'',
             buildFactsBlock facts]
      in \<lparr>cc_apiKey = apiKey, cc_model = model_s,
          cc_messages =
            [\<lparr>role = ''system'',
              content = buildSystemPrompt (referenceDateUtc W) input
                          \<lparr>strictCitations = Some True, sourcesCount = Some n\<rparr>\<rparr>,
             \<lparr>role = ''user'', content = prompt\<rparr>],
          cc_timeoutMs = 30000, cc_temperature = Some 0.2, cc_maxTokens = Some 900\<rparr>)"

definition direct_params :: "('a world_scheme) \<Rightarrow> string \<Rightarrow> string \<Rightarrow> AskRequest \<Rightarrow> string \<Rightarrow> nat
    \<Rightarrow> ChatCompletionParams" where
  \<comment> \<open>the request of the direct composition\<close>
  "direct_params W apiKey model_s input userContent n =
     \<lparr>cc_apiKey = apiKey, cc_model = model_s,
      cc_messages =
        [\<lparr>role = ''system'',
          content = buildSystemPrompt (referenceDateUtc W) input
                      \<lparr>strictCitations = None, sourcesCount = Some n\<rparr>\<rparr>,
         \<lparr>role = ''user'', content = userContent\<rparr>],
      cc_timeoutMs = 30000,
      cc_temperature = Some (if mode input = Some Fast then 0.7 else 0.3),
      cc_maxTokens = None\<rparr>"

definition strict_directive :: "nat \<Rightarrow> string" where
  \<comment> \<open>what the strict retry appends to the user content\<close>
  "strict_directive n =
     ''CRITICAL: You have '' @ show_nat n @ '' sources. Use citations like [1]..['' @ show_nat n
       @ ''] for factual claims. ''
     @ ''Each paragraph or bullet must include at least one citation [n] if it contains factual claims. ''
     @ ''If the sources don't contain the information, say you couldn't verify it from the sources.''"

definition strict_params :: "('a world_scheme) \<Rightarrow> string \<Rightarrow> string \<Rightarrow> AskRequest \<Rightarrow> string \<Rightarrow> nat
    \<Rightarrow> ChatCompletionParams" where
  \<comment> \<open>the request of the strict retry\<close>
  "strict_params W apiKey model_s input userContent n =
     \<lparr>cc_apiKey = apiKey, cc_model = model_s,
      cc_messages =
        [\<lparr>role = ''system'',
          content = buildSystemPrompt (referenceDateUtc W) input
                      \<lparr>strictCitations = Some True, sourcesCount = Some n\<rparr>\<rparr>,
         \<lparr>role = ''user'', content = userContent @ [CHR 0x0A, CHR 0x0A] @ strict_directive n\<rparr>],
      cc_timeoutMs = 30000, cc_temperature = Some 0.2, cc_maxTokens = None\<rparr>"

definition compose_answer :: "('a world_scheme) \<Rightarrow> string \<Rightarrow> string \<Rightarrow> AskRequest \<Rightarrow> string
    \<Rightarrow> nat \<Rightarrow> trace \<Rightarrow> trace \<times> (thrown + string)" where
  \<comment> \<open>the first composed answer: grounded when the mode is verified and there are sources,
      direct otherwise\<close>
  "compose_answer W apiKey model_s input userContent n tr =
     (if the_default Verified (mode input) = Verified \<and> n > 0 then
        (let gp = grounded_facts_params W apiKey model_s input userContent n;
             facts = (case chat W tr gp of
                        Inl err \<Rightarrow> None
                      | Inr raw \<Rightarrow> parseGroundedFacts W raw n);
             tr1 = tr @ [ChatCall gp]
         in case facts of
              Some fs \<Rightarrow>
                (let cp = compose_from_facts_params W apiKey model_s input fs n
                 in (tr1 @ [ChatCall cp], chat W tr1 cp))
            | None \<Rightarrow>
                (let dp = direct_params W apiKey model_s input userContent n
                 in (tr1 @ [ChatCall dp], chat W tr1 dp)))
      else
        (let dp = direct_params W apiKey model_s input userContent n
         in (tr @ [ChatCall dp], chat W tr dp)))"

section \<open>Citation verification and the strict retry\<close>

definition citation_defect :: "string \<Rightarrow> nat \<Rightarrow> bool" where
  \<comment> \<open>\<open>hasNone || hasInvalid || hasMissing\<close>\<close>
  "citation_defect answer n =
     (let extracted = extractCitationNumbers answer;
          sanitized = sanitizeCitationNumbers extracted n;
          hasInvalid = (length extracted \<noteq> length sanitized);
          hasNone = (length sanitized = 0);
          hasMissing = hasMissingCitations answer
      in hasNone \<or> hasInvalid \<or> hasMissing)"

definition verify_citations :: "('a world_scheme) \<Rightarrow> string \<Rightarrow> string \<Rightarrow> AskRequest \<Rightarrow> string
    \<Rightarrow> nat \<Rightarrow> trace \<Rightarrow> string \<Rightarrow> trace \<times> (thrown + string)" where
  \<comment> \<open>the block under \<open>if (wantsRetryForCitations)\<close>: the answer after it\<close>
  "verify_citations W apiKey model_s input userContent n tr answer =
     (let wantsRetryForCitations = (the_default Verified (mode input) = Verified \<and> n > 0)
      in if wantsRetryForCitations \<and> citation_defect answer n
         then (let sp = strict_params W apiKey model_s input userContent n
               in (tr @ [ChatCall sp], chat W tr sp))
         else (tr, Inr answer))"

section \<open>Follow-ups of the response\<close>

definition follow_up_params :: "string \<Rightarrow> string \<Rightarrow> AskRequest \<Rightarrow> string \<Rightarrow> ChatCompletionParams" where
  "follow_up_params apiKey model_s input answer =
     (let prompt = lines
            [''Generate 3 short, natural follow-up questions a user might ask next.'',
             ''Return ONLY valid JSON as an array of strings.'',
             ''No markdown. No numbering.'',
             ''Keep each question under 90 characters.'',
             ''Match the user's language when possible.'',
             ''Make them specific to THIS question/answer (avoid generic questions like 'How does AI work?').'',
             ''Do not repeat the original question.'',
             [],
             ''User language: '' @ language_name (the_default Auto (language input)),
             ''Original question: '' @ question input,
             ''Answer:'',
             answer]
      in \<lparr>cc_apiKey = apiKey, cc_model = model_s,
          cc_messages = [\<lparr>role = ''system'', content = ''You are a helpful assistant.''\<rparr>,
                         \<lparr>role = ''user'', content = prompt\<rparr>],
          cc_timeoutMs = 12000, cc_temperature = Some 0.5, cc_maxTokens = Some 140\<rparr>)"

definition final_follow_ups :: "('a world_scheme) \<Rightarrow> string \<Rightarrow> string \<Rightarrow> AskRequest \<Rightarrow> string
    \<Rightarrow> trace \<Rightarrow> string list" where
  \<comment> \<open>\<open>generateFollowUps\<close> under its \<open>try\<close>, then the heuristic fallback\<close>
  "final_follow_ups W apiKey model_s input answer tr =
     (let followUps = (case chat W tr (follow_up_params apiKey model_s input answer) of
                         Inl err \<Rightarrow> None
                       | Inr raw \<Rightarrow> parse_follow_up_reply W raw)
      in case followUps of
           Some fs \<Rightarrow> if fs \<noteq> [] then fs else buildHeuristicFollowUps input
         | None \<Rightarrow> buildHeuristicFollowUps input)"

section \<open>askPipeline\<close>

definition no_web_note :: string where
  "no_web_note = ''NOTE: No web sources were available to cite. Avoid exact numbers/dates and be explicit about uncertainty.''"

definition user_content :: "AskRequest \<Rightarrow> EvidenceSource list \<Rightarrow> string" where
  "user_content input sources =
     (let evidenceBlock = buildEvidenceBlock sources
      in if evidenceBlock \<noteq> [] then question input @ [CHR 0x0A, CHR 0x0A] @ evidenceBlock
         else question input @ [CHR 0x0A, CHR 0x0A] @ no_web_note)"

definition answer_and_respond :: "('a world_scheme) \<Rightarrow> string \<Rightarrow> string \<Rightarrow> AskRequest
    \<Rightarrow> EvidenceSource list \<Rightarrow> trace \<Rightarrow> trace \<times> (thrown + AskResponse)" where
  \<comment> \<open>the pipeline from the evidence block on\<close>
  "answer_and_respond W apiKey model_s input sources tr =
     (let userContent = user_content input sources;
          n = length sources;
          first = compose_answer W apiKey model_s input userContent n tr
      in case snd first of
           Inl err \<Rightarrow> (fst first, Inl err)
         | Inr answer0 \<Rightarrow>
             (let checked = verify_citations W apiKey model_s input userContent n (fst first) answer0
              in case snd checked of
                   Inl err \<Rightarrow> (fst checked, Inl err)
                 | Inr answer \<Rightarrow>
                     (let tr2 = fst checked;
                          latencyMs = date_now W tr2 - date_now W [];
                          cites = map_citations sources answer;
                          followUps = final_follow_ups W apiKey model_s input answer tr2
                      in (tr2 @ [ChatCall (follow_up_params apiKey model_s input answer)],
                          Inr \<lparr>r_provider = ''openrouter'', r_model = model_s, r_answer = answer,
                               r_citations = cites, r_followUps = followUps,
                               r_latencyMs = latencyMs\<rparr>))))"

definition askPipeline :: "('a world_scheme) \<Rightarrow> AskRequest \<Rightarrow> trace \<times> (thrown + AskResponse)" where
  "askPipeline W input =
     (case buildLocalClockAnswer (clock W) input of
        Some localClockAnswer \<Rightarrow>
          ([], Inr \<lparr>r_provider = ''openrouter'', r_model = ''local-clock'',
                    r_answer = localClockAnswer, r_citations = [],
                    r_followUps = buildHeuristicFollowUps input,
                    r_latencyMs = date_now W [] - date_now W []\<rparr>)
      | None \<Rightarrow>
          (case detectSafetyBlock (question input) of
             Some safetyBlock \<Rightarrow>
               ([], Inr (buildSafetyRefusal input safetyBlock (date_now W [] - date_now W [])))
           | None \<Rightarrow>
               (case env_OPENROUTER_API_KEY W of
                  None \<Rightarrow> ([], Inl (HttpError 503 ''OPENROUTER_API_KEY is not configured''))
                | Some apiKey \<Rightarrow>
                    (let configured = (case model input of
                                         Some m \<Rightarrow> Some m
                                       | None \<Rightarrow> env_OPENROUTER_DEFAULT_MODEL W);
                         needList = (case configured of None \<Rightarrow> True | Some m \<Rightarrow> m = []);
                         listed = (if needList then listFreeOpenRouterModels W [] else Inr []);
                         tr0 = (if needList then [ListModels] else [])
                     in case listed of
                          Inl err \<Rightarrow> (tr0, Inl err)
                        | Inr freeModels \<Rightarrow>
                            (let chosen = (if needList
                                           then (case freeModels of [] \<Rightarrow> [] | m # _ \<Rightarrow> m)
                                           else the_default [] configured)
                             in if chosen = []
                                then (tr0, Inl (HttpError 503 ''No free OpenRouter models available''))
                                else
                                  (let gathered = (if the_default True (useWeb input)
                                                   then gather_evidence W input tr0
                                                   else (tr0, []))
                                   in answer_and_respond W apiKey chosen input
                                        (snd gathered) (fst gathered)))))))"

section \<open>Concrete inputs for the examples\<close>

definition ask :: "string \<Rightarrow> AskRequest" where
  \<comment> \<open>a request that gives only the question\<close>
  "ask q = \<lparr>question = q, model = None, mode = None, language = None, style = None,
            useWeb = None, webTopic = None, webTimeRange = None\<rparr>"

definition offline_world :: world where
  \<comment> \<open>no key is configured and every service fails\<close>
  "offline_world = platform.extend node
     \<lparr>env_OPENROUTER_API_KEY = None, env_OPENROUTER_DEFAULT_MODEL = None,
      env_TAVILY_API_KEY = None, env_BRAVE_SEARCH_API_KEY = None,
      chat = (\<lambda>tr p. Inl (HttpError 502 ''LLM provider error'')),
      tavilyWebSearch = (\<lambda>tr p. None),
      braveWebSearch = (\<lambda>tr p. None),
      fetchPageText = (\<lambda>tr u. None),
      listFreeOpenRouterModels = (\<lambda>tr. Inr []),
      clock = \<lparr>dateStr = (\<lambda>hindi. ''Monday, November 2, 2026''),
               timeStr = (\<lambda>hindi. ''10:15:00 AM''), tz = ''UTC''\<rparr>,
      date_now = (\<lambda>tr. 1793614500000 + int (length tr)),
      referenceDateUtc = ''2026-11-02''\<rparr>"

definition scripted_world ::
  "WebSearchResult list \<Rightarrow> (trace \<Rightarrow> ChatCompletionParams \<Rightarrow> thrown + string) \<Rightarrow> world" where
  \<comment> \<open>the LLM key, a default model and the first search provider are configured; the first
      search returns the given results, every later one nothing; no page can be fetched\<close>
  "scripted_world results reply = offline_world
     \<lparr>env_OPENROUTER_API_KEY := Some ''key'', env_OPENROUTER_DEFAULT_MODEL := Some ''model-1'',
      env_TAVILY_API_KEY := Some ''key'',
      tavilyWebSearch := (\<lambda>tr p. if tr = [] then Some \<lparr>tv_results = results, tv_rawByUrl = []\<rparr>
                                  else Some \<lparr>tv_results = [], tv_rawByUrl = []\<rparr>),
      chat := reply\<rparr>"

definition result_at :: "string \<Rightarrow> WebSearchResult" where
  "result_at u = \<lparr>ws_title = ''Title'', ws_url = u, ws_snippet = ''Snippet''\<rparr>"

definition citing_world :: "string list \<Rightarrow> world" where
  \<comment> \<open>the first search returns one result for each of the given URL strings, and every LLM
      call gives the same answer, which cites three sources\<close>
  "citing_world urls = scripted_world (map result_at urls) (\<lambda>tr p. Inr ''See [1] [2] [3].'')"

definition fast_ask :: "string \<Rightarrow> AskRequest" where
  "fast_ask q = (ask q)\<lparr>mode := Some Fast\<rparr>"

definition long_line :: string where
  \<comment> \<open>one line of 141 characters\<close>
  "long_line = replicate 141 (CHR ''a'')"

definition long_line_world :: world where
  \<comment> \<open>the follow-up call (the one with \<open>maxTokens: 140\<close>) is answered with the long line,
      every other LLM call with a short answer\<close>
  "long_line_world = scripted_world []
     (\<lambda>tr p. if cc_maxTokens p = Some 140 then Inr long_line else Inr ''Ok.'')"

section \<open>Sorting and deduplication\<close>

lemma set_insert_by: "set (insert_by cmp x xs) = insert x (set xs)"
  by (induction xs) auto

lemma length_insert_by: "length (insert_by cmp x xs) = Suc (length xs)"
  by (induction xs) auto

lemma sort_by_Cons: "sort_by cmp (x # xs) = insert_by cmp x (sort_by cmp xs)"
  by (simp add: sort_by_def)

lemma sort_by_Nil: "sort_by cmp [] = []"
  by (simp add: sort_by_def)

lemma set_sort_by: "set (sort_by cmp xs) = set xs"
  by (induction xs) (auto simp: sort_by_Nil sort_by_Cons set_insert_by)

lemma length_sort_by: "length (sort_by cmp xs) = length xs"
  by (induction xs) (auto simp: sort_by_Nil sort_by_Cons length_insert_by)

lemma distinct_insert_by: "distinct (insert_by cmp x xs) = (x \<notin> set xs \<and> distinct xs)"
  by (induction xs) (auto simp: set_insert_by)

lemma distinct_sort_by: "distinct (sort_by cmp xs) = distinct xs"
  by (induction xs) (auto simp: sort_by_Nil sort_by_Cons distinct_insert_by set_sort_by)

lemma map_insert_by:
  "map f (insert_by (\<lambda>a b. cmp (f a) (f b)) x xs) = insert_by cmp (f x) (map f xs)"
  by (induction xs) auto

lemma map_sort_by: "map f (sort_by (\<lambda>a b. cmp (f a) (f b)) xs) = sort_by cmp (map f xs)"
  by (induction xs) (auto simp: sort_by_Nil sort_by_Cons map_insert_by)

lemma insert_by_front: "(\<And>y. y \<in> set ys \<Longrightarrow> cmp x y \<le> 0) \<Longrightarrow> insert_by cmp x ys = x # ys"
  by (cases ys) auto

lemma sort_by_sorted:
  "sorted_wrt (\<lambda>x y. cmp x y \<le> 0) xs \<Longrightarrow> sort_by cmp xs = xs"
  by (induction xs) (auto simp: sort_by_Nil sort_by_Cons insert_by_front)

lemma sorted_insert_by:
  assumes total: "\<And>a b. cmp a b \<le> 0 \<or> cmp b a \<le> 0"
      and trans: "\<And>a b c. cmp a b \<le> 0 \<Longrightarrow> cmp b c \<le> 0 \<Longrightarrow> cmp a c \<le> 0"
  shows "sorted_wrt (\<lambda>x y. cmp x y \<le> 0) xs \<Longrightarrow> sorted_wrt (\<lambda>x y. cmp x y \<le> 0) (insert_by cmp x xs)"
proof (induction xs)
  case Nil
  then show ?case by simp
next
  case (Cons y ys)
  show ?case
  proof (cases "cmp x y \<le> 0")
    case True
    then show ?thesis using Cons.prems trans by auto
  next
    case False
    then have "cmp y x \<le> 0" using total by blast
    then show ?thesis using False Cons by (auto simp: set_insert_by)
  qed
qed

lemma sorted_sort_by:
  assumes total: "\<And>a b. cmp a b \<le> 0 \<or> cmp b a \<le> 0"
      and trans: "\<And>a b c. cmp a b \<le> 0 \<Longrightarrow> cmp b c \<le> 0 \<Longrightarrow> cmp a c \<le> 0"
  shows "sorted_wrt (\<lambda>x y. cmp x y \<le> 0) (sort_by cmp xs)"
  by (induction xs) (auto simp: sort_by_Nil sort_by_Cons intro: sorted_insert_by[OF total trans])

lemma sorted_sort_by_int: "sorted (sort_by (\<lambda>a b. a - b) (xs :: int list))"
proof -
  have "sorted_wrt (\<lambda>x y. (\<lambda>a b. a - b) x y \<le> 0) (sort_by (\<lambda>a b. a - b) xs)"
    by (rule sorted_sort_by) auto
  then show ?thesis by (rule sorted_wrt_mono_rel[rotated]) simp
qed

lemma sort_by_int_id: "sorted (xs :: int list) \<Longrightarrow> sort_by (\<lambda>a b. a - b) xs = xs"
proof -
  assume "sorted xs"
  then have "sorted_wrt (\<lambda>x y. (\<lambda>a b. a - b) x y \<le> 0) xs"
    by (rule sorted_wrt_mono_rel[rotated]) simp
  then show ?thesis by (rule sort_by_sorted)
qed

lemma set_dedupe: "set (dedupe seen xs) = set xs - set seen"
  by (induction seen xs rule: dedupe.induct) auto

lemma distinct_dedupe: "distinct (dedupe seen xs)"
  by (induction seen xs rule: dedupe.induct) (auto simp: set_dedupe)

lemma dedupe_distinct: "distinct xs \<Longrightarrow> set xs \<inter> set seen = {} \<Longrightarrow> dedupe seen xs = xs"
  by (induction seen xs rule: dedupe.induct) auto

section \<open>Citation numbers\<close>

lemma extract_sorted: "sorted (extractCitationNumbers a)"
  and extract_distinct: "distinct (extractCitationNumbers a)"
  and extract_finite: "\<forall>k \<in> set (extractCitationNumbers a). js_finite k"
  by (auto simp: extractCitationNumbers_def Let_def sorted_sort_by_int distinct_sort_by
                 distinct_dedupe set_sort_by set_dedupe)

lemma sanitize_extracted:
  "sanitizeCitationNumbers (extractCitationNumbers a) n
     = filter (\<lambda>k. 1 \<le> k \<and> k \<le> int n) (extractCitationNumbers a)"
proof -
  let ?xs = "extractCitationNumbers a"
  have f: "filter (\<lambda>k. js_finite k \<and> k \<ge> 1 \<and> k \<le> int n) ?xs = filter (\<lambda>k. 1 \<le> k \<and> k \<le> int n) ?xs"
    using extract_finite[of a] by (intro filter_cong) auto
  have d: "distinct (filter (\<lambda>k. 1 \<le> k \<and> k \<le> int n) ?xs)" using extract_distinct by simp
  have s: "sorted (filter (\<lambda>k. 1 \<le> k \<and> k \<le> int n) ?xs)" using extract_sorted[of a] by (rule sorted_wrt_filter)
  show ?thesis
    unfolding sanitizeCitationNumbers_def Let_def f
    using d s by (simp add: dedupe_distinct sort_by_int_id)
qed

lemma map_citations_eq:
  "map_citations sources a =
     map (\<lambda>k. \<lparr>c_url = url (sources ! nat (k - 1)), c_title = title (sources ! nat (k - 1))\<rparr>)
       (filter (\<lambda>k. 1 \<le> k \<and> k \<le> int (length sources)) (extractCitationNumbers a))"
proof -
  have "concat (map (\<lambda>k. if 1 \<le> k \<and> nat (k - 1) < length sources then [sources ! nat (k - 1)] else []) ks)
        = map (\<lambda>k. sources ! nat (k - 1)) ks"
    if "\<forall>k \<in> set ks. 1 \<le> k \<and> k \<le> int (length sources)" for ks
    using that by (induction ks) auto
  then show ?thesis
    by (simp add: map_citations_def Let_def sanitize_extracted comp_def)
qed

lemma citation_defect_iff:
  "citation_defect a n \<longleftrightarrow>
     (\<exists>k \<in> set (extractCitationNumbers a). \<not> (1 \<le> k \<and> k \<le> int n))
     \<or> (\<forall>k \<in> set (extractCitationNumbers a). \<not> (1 \<le> k \<and> k \<le> int n))
     \<or> hasMissingCitations a"
proof -
  let ?xs = "extractCitationNumbers a"
  let ?P = "\<lambda>k. 1 \<le> k \<and> k \<le> int n"
  have 1: "(length ?xs \<noteq> length (filter ?P ?xs)) \<longleftrightarrow> (\<exists>k \<in> set ?xs. \<not> ?P k)"
  proof -
    have "length ?xs = length (filter ?P ?xs) + length (filter (\<lambda>k. \<not> ?P k) ?xs)"
      using sum_length_filter_compl[of ?P ?xs] by simp
    then have "(length ?xs \<noteq> length (filter ?P ?xs)) \<longleftrightarrow> filter (\<lambda>k. \<not> ?P k) ?xs \<noteq> []"
      by auto
    then show ?thesis by (simp add: filter_empty_conv)
  qed
  have 2: "(length (filter ?P ?xs) = 0) \<longleftrightarrow> (\<forall>k \<in> set ?xs. \<not> ?P k)"
    by (simp add: filter_empty_conv)
  show ?thesis
    unfolding citation_defect_def Let_def sanitize_extracted using 1 2 by blast
qed

section \<open>The candidate table\<close>

lemma map_fst_table_set:
  "map fst (table_set k v tbl) = (if k \<in> set (map fst tbl) then map fst tbl else map fst tbl @ [k])"
  by (induction k v tbl rule: table_set.induct) auto

lemma set_table_set: "set (table_set k v tbl) \<subseteq> insert (k, v) (set tbl)"
  by (induction k v tbl rule: table_set.induct) (auto split: if_splits)

lemma map_of_table_set: "map_of (table_set k v tbl) = (map_of tbl)(k \<mapsto> v)"
  by (induction k v tbl rule: table_set.induct) auto

lemma table_ok_Nil: "table_ok []"
  by (simp add: table_ok_def)

lemma table_ok_set: "table_ok tbl \<Longrightarrow> normUrl v = k \<Longrightarrow> table_ok (table_set k v tbl)"
  using set_table_set[of k v tbl]
  by (auto simp: table_ok_def map_fst_table_set list_all_iff)

lemma upsertCandidate_ok:
  assumes "upsertCandidate P nowMs q fresh tbl src = Some tbl'" and "table_ok tbl"
  shows "table_ok tbl'"
  using assms
  by (auto simp: upsertCandidate_def Let_def EvidenceSource.defs
           split: option.splits if_splits prod.splits intro!: table_ok_set)

lemma upsert_results_ok: "table_ok tbl \<Longrightarrow> table_ok (upsert_results P nowMs q fresh tbl srcs)"
proof (induction srcs arbitrary: tbl)
  case Nil
  then show ?case by simp
next
  case (Cons s srcs)
  show ?case
  proof (cases "upsertCandidate P nowMs q fresh tbl s")
    case None
    then show ?thesis using Cons.prems by simp
  next
    case (Some t)
    then show ?thesis using Cons.IH[of t] upsertCandidate_ok[OF Some Cons.prems] by simp
  qed
qed

section \<open>Selection\<close>

lemma distinct_map_insert_by:
  "distinct (map f (insert_by cmp x xs)) = (f x \<notin> f ` set xs \<and> distinct (map f xs))"
  by (induction xs) (auto simp: set_insert_by)

lemma distinct_map_sort_by: "distinct (map f (sort_by cmp xs)) = distinct (map f xs)"
  by (induction xs) (auto simp: sort_by_Nil sort_by_Cons distinct_map_insert_by set_sort_by)

lemma pick_capped_props:
  "distinct (map f (picked @ cs)) \<Longrightarrow>
     distinct (map f (pick_capped P maxS cap hc picked cs))
     \<and> set (pick_capped P maxS cap hc picked cs) \<subseteq> set picked \<union> set cs"
proof (induction cs arbitrary: picked hc)
  case Nil
  then show ?case by simp
next
  case (Cons c cs)
  have 1: "distinct (map f (picked @ cs))" using Cons.prems by auto
  have 2: "distinct (map f ((picked @ [c]) @ cs))" using Cons.prems by auto
  show ?case
    using Cons.IH[OF 1] Cons.IH[OF 2] Cons.prems
    by (auto simp: Let_def)
qed

lemma backfill_props:
  assumes "inj_on f (set ranked)"
  shows "set cs \<subseteq> set ranked \<Longrightarrow> set picked \<subseteq> set ranked \<Longrightarrow> distinct (map f picked) \<Longrightarrow>
     distinct (map f (backfill maxS picked cs))
     \<and> set (backfill maxS picked cs) \<subseteq> set ranked"
proof (induction cs arbitrary: picked)
  case Nil
  then show ?case by simp
next
  case (Cons c cs)
  show ?case
  proof (cases "length picked \<ge> maxS \<or> list_ex (\<lambda>p. url p = url c) picked")
    case True
    then show ?thesis using Cons by auto
  next
    case False
    then have "c \<notin> set picked" by (auto simp: list_ex_iff)
    moreover have "c \<in> set ranked" using Cons.prems(1) by simp
    ultimately have "f c \<notin> f ` set picked"
      using assms Cons.prems(2) by (auto simp: inj_on_def)
    then have d: "distinct (map f (picked @ [c]))" using Cons.prems(3) by simp
    have s: "set (picked @ [c]) \<subseteq> set ranked" using Cons.prems by simp
    have cs: "set cs \<subseteq> set ranked" using Cons.prems by simp
    show ?thesis using Cons.IH[OF cs s d] False by simp
  qed
qed

lemma select_candidates_props:
  assumes "table_ok tbl"
  shows "distinct (map normUrl (select_candidates P fresh tbl))
         \<and> set (select_candidates P fresh tbl) \<subseteq> snd ` set tbl"
proof -
  define ranked where "ranked = sort_by (\<lambda>a b. score b - score a) (map snd tbl)"
  define maxS :: nat where "maxS = (if fresh then 8 else 6)"
  define cap :: nat where "cap = (if fresh then 1 else 2)"
  define picked where "picked = pick_capped P maxS cap (\<lambda>h. 0) [] ranked"
  have n: "map normUrl (map snd tbl) = map fst tbl"
    using assms by (induction tbl) (auto simp: table_ok_def)
  have d: "distinct (map normUrl ranked)"
    unfolding ranked_def distinct_map_sort_by n using assms by (simp add: table_ok_def)
  have sr: "set ranked = snd ` set tbl" by (simp add: ranked_def set_sort_by)
  have p: "distinct (map normUrl picked) \<and> set picked \<subseteq> set ranked"
    using pick_capped_props[of normUrl "[]" ranked P maxS cap "\<lambda>h. 0"] d
    by (simp add: picked_def)
  have inj: "inj_on normUrl (set ranked)" using d by (simp add: distinct_map)
  have b: "distinct (map normUrl (backfill maxS picked ranked))
           \<and> set (backfill maxS picked ranked) \<subseteq> set ranked"
    using backfill_props[OF inj, of ranked picked maxS] p by simp
  have sel: "select_candidates P fresh tbl
             = (if length picked < maxS then backfill maxS picked ranked else picked)"
    by (simp add: select_candidates_def Let_def ranked_def maxS_def cap_def picked_def)
  show ?thesis unfolding sel using p b sr by auto
qed

section \<open>Canonical keys\<close>

lemma fold_params_delete:
  "fold params_delete ks ps = filter (\<lambda>(n, v). n \<notin> set ks) ps"
proof (induction ks arbitrary: ps)
  case Nil
  then show ?case by simp
next
  case (Cons k ks)
  have "fold params_delete (k # ks) ps = filter (\<lambda>(n, v). n \<notin> set ks) (params_delete k ps)"
    by (simp add: Cons.IH)
  also have "\<dots> = filter (\<lambda>(n, v). n \<notin> set (k # ks)) ps"
    unfolding params_delete_def filter_filter by (rule filter_cong) auto
  finally show ?case .
qed

lemma delete_tracking:
  "fold params_delete (map fst (filter (\<lambda>(k, v). is_tracking_param k) ps)) ps = without_tracking ps"
  unfolding fold_params_delete without_tracking_def
  by (rule filter_cong) (auto simp: image_iff)

lemma normalize_key:
  "normalizeUrlForDedupe P raw =
     (case url_parse P raw of
        None \<Rightarrow> None
      | Some u \<Rightarrow>
          (let entries = sort_by (\<lambda>(a, _) (b, _). localeCompare P a b) (without_tracking (searchParams u));
               host = strip_www (toLowerCase (hostname u));
               path = (if strip_trailing_slashes (pathname u) = [] then ''/''
                       else strip_trailing_slashes (pathname u))
           in Some (host @ path @ url_search entries,
                    protocol u @ ''//'' @ host @ path @ url_search entries)))"
  by (simp add: normalizeUrlForDedupe_def Let_def delete_tracking split: option.splits)

lemma toLowerCase_append: "toLowerCase (a @ b) = toLowerCase a @ toLowerCase b"
  by (simp add: toLowerCase_def)

lemma lower_www: "toLowerCase ''www.'' = ''www.''"
  by code_simp

lemma strip_www_prefixed: "strip_www (''www.'' @ h) = h"
  by (simp add: strip_www_def)

lemma strip_www_other: "\<not> startsWith h ''www.'' \<Longrightarrow> strip_www h = h"
  by (simp add: strip_www_def)

section \<open>The upsert as a map update\<close>

lemma upsertCandidate_eq:
  "upsertCandidate P nowMs q fresh tbl src =
     (case scoreSource P nowMs (canon_url P (url src)) (title src) (snippet src) q fresh of
        None \<Rightarrow> None
      | Some sc \<Rightarrow>
          (case map_of tbl (canon_key P (url src)) of
             None \<Rightarrow> Some (table_set (canon_key P (url src)) (candidate_of P src sc) tbl)
           | Some existing \<Rightarrow>
               if sc > score existing
               then Some (table_set (canon_key P (url src)) (candidate_of P src sc) tbl)
               else Some tbl))"
  unfolding upsertCandidate_def canon_key_def canon_url_def candidate_of_def Let_def
  by simp

lemma upsert_keeps_higher:
  assumes "upsertCandidate P nowMs q fresh tbl src = Some tbl'"
  shows "\<exists>sc. scoreSource P nowMs (canon_url P (url src)) (title src) (snippet src) q fresh = Some sc
           \<and> map_of tbl' (canon_key P (url src)) =
               Some (case map_of tbl (canon_key P (url src)) of
                       None \<Rightarrow> candidate_of P src sc
                     | Some e \<Rightarrow> if sc > score e then candidate_of P src sc else e)
           \<and> (\<forall>k. k \<noteq> canon_key P (url src) \<longrightarrow> map_of tbl' k = map_of tbl k)"
  using assms unfolding upsertCandidate_eq
  by (auto simp: map_of_table_set split: option.splits if_splits)

lemma table_ok_one_entry:
  assumes "table_ok tbl" and "map_of tbl k = Some c"
  shows "filter (\<lambda>(k', c'). k' = k) tbl = [(k, c)]"
  using assms
proof (induction tbl)
  case Nil
  then show ?case by simp
next
  case (Cons p tbl)
  obtain k' c' where p: "p = (k', c')" by (cases p)
  show ?case
  proof (cases "k' = k")
    case True
    then have "k \<notin> fst ` set tbl" using Cons.prems(1) p by (auto simp: table_ok_def)
    then have "filter (\<lambda>(k', c'). k' = k) tbl = []" by (force simp: filter_empty_conv)
    then show ?thesis using True p Cons.prems(2) by simp
  next
    case False
    then show ?thesis using Cons p by (auto simp: table_ok_def)
  qed
qed

section \<open>The sources of a run\<close>

lemma fetch_pages_keeps:
  "map (\<lambda>s. (title s, url s, snippet s)) (snd (fetch_pages W q tr idxs srcs))
     = map (\<lambda>s. (title s, url s, snippet s)) srcs"
proof (induction idxs arbitrary: tr srcs)
  case Nil
  then show ?case by simp
next
  case (Cons i idxs)
  have upd: "map (\<lambda>s. (title s, url s, snippet s)) (srcs[i := (srcs ! i)\<lparr>extractedText := e\<rparr>])
             = map (\<lambda>s. (title s, url s, snippet s)) srcs" for e
  proof (cases "i < length srcs")
    case True
    then show ?thesis by (simp add: map_update list_update_same_conv)
  next
    case False
    then have "srcs[i := (srcs ! i)\<lparr>extractedText := e\<rparr>] = srcs" by (simp add: list_update_beyond)
    then show ?thesis by simp
  qed
  show ?case
    by (cases "fetchPageText W tr (url (srcs ! i))") (simp_all add: Let_def Cons.IH upd)
qed

lemma gather_table_ok: "table_ok (snd (gather_table W input tr0))"
  by (simp add: gather_table_def Let_def upsert_results_ok table_ok_Nil)

lemma gather_evidence_sources:
  "map (\<lambda>s. (title s, url s, snippet s)) (snd (gather_evidence W input tr0))
     = map (\<lambda>c. (title c, url c, snippet c))
         (select_candidates W (wantsFresh (detectRecencyIntent (question input)))
            (snd (gather_table W input tr0)))"
  by (simp add: gather_evidence_def Let_def fetch_pages_keeps select_sources_def comp_def
                EvidenceSource.defs)

section \<open>Keys of URLs that differ in scheme, fragment, tracking parameters or www\<close>

lemma canon_key_parsed:
  assumes "url_parse P a = Some ua"
  shows "canon_key P a =
           strip_www (toLowerCase (hostname ua))
           @ (if strip_trailing_slashes (pathname ua) = [] then ''/''
              else strip_trailing_slashes (pathname ua))
           @ url_search (sort_by (\<lambda>(a, _) (b, _). localeCompare P a b)
                           (without_tracking (searchParams ua)))"
  using assms by (simp add: canon_key_def normalize_key Let_def)

lemma toLowerCase_www: "toLowerCase (''www.'' @ h) = ''www.'' @ toLowerCase h"
  using lower_www by (simp add: toLowerCase_def)

lemma same_key:
  assumes "url_parse P a = Some ua" and "url_parse P b = Some ub"
      and "pathname ub = pathname ua"
      and "without_tracking (searchParams ub) = without_tracking (searchParams ua)"
      and "hostname ub = hostname ua
           \<or> (hostname ub = ''www.'' @ hostname ua
               \<and> \<not> startsWith (toLowerCase (hostname ua)) ''www.'')"
  shows "canon_key P a = canon_key P b"
proof -
  have "strip_www (toLowerCase (hostname ub)) = strip_www (toLowerCase (hostname ua))"
    using assms(5)
  proof
    assume "hostname ub = hostname ua"
    then show ?thesis by simp
  next
    assume h: "hostname ub = ''www.'' @ hostname ua
               \<and> \<not> startsWith (toLowerCase (hostname ua)) ''www.''"
    then have "strip_www (toLowerCase (hostname ub)) = toLowerCase (hostname ua)"
      using strip_www_prefixed[of "toLowerCase (hostname ua)"] by (simp only: toLowerCase_www)
    moreover have "strip_www (toLowerCase (hostname ua)) = toLowerCase (hostname ua)"
      using h strip_www_other by blast
    ultimately show ?thesis by simp
  qed
  then show ?thesis
    unfolding canon_key_parsed[OF assms(1)] canon_key_parsed[OF assms(2)] assms(3) assms(4)
    by simp
qed

section \<open>The shape of a pipeline run\<close>

lemma respond_citations:
  assumes "answer_and_respond W apiKey m input sources tr = (tr', Inr resp)"
  shows "r_citations resp = map_citations sources (r_answer resp)"
  using assms
  by (auto simp: answer_and_respond_def Let_def split: sum.splits)

lemma pipeline_cases:
  assumes "askPipeline W input = (tr, Inr resp)"
  shows "(r_citations resp = [] \<and> tr = [])
         \<or> (\<exists>apiKey m sources tr0 tr1.
               (sources = [] \<or> sources = snd (gather_evidence W input tr0))
               \<and> answer_and_respond W apiKey m input sources tr1 = (tr, Inr resp))"
proof (cases "buildLocalClockAnswer (clock W) input")
  case (Some a)
  then show ?thesis using assms by (auto simp: askPipeline_def)
next
  case None
  note clock = None
  show ?thesis
  proof (cases "detectSafetyBlock (question input)")
    case (Some r)
    then show ?thesis using assms clock by (auto simp: askPipeline_def buildSafetyRefusal_def Let_def)
  next
    case None
    note safety = None
    show ?thesis
    proof (cases "env_OPENROUTER_API_KEY W")
      case None
      then show ?thesis using assms clock safety by (simp add: askPipeline_def)
    next
      case (Some apiKey)
      from assms have "\<exists>chosen tr0 srcs tr1.
          answer_and_respond W apiKey chosen input srcs tr1 = (tr, Inr resp)
          \<and> (srcs = [] \<or> srcs = snd (gather_evidence W input tr0))"
        unfolding askPipeline_def Let_def clock safety Some
        by (auto split: sum.splits if_splits)
      then show ?thesis by blast
    qed
  qed
qed

section \<open>Concrete runs\<close>

lemma pipeline_run:
  assumes "classifyLocalClockIntent (question input) = None"
      and "detectSafetyBlock (question input) = None"
      and "env_OPENROUTER_API_KEY W = Some k"
      and "model input = None"
      and "env_OPENROUTER_DEFAULT_MODEL W = Some m"
      and "m \<noteq> []"
  shows "askPipeline W input =
           (if the_default True (useWeb input)
            then answer_and_respond W k m input (snd (gather_evidence W input []))
                   (fst (gather_evidence W input []))
            else answer_and_respond W k m input [] [])"
  using assms
  by (simp add: askPipeline_def buildLocalClockAnswer_def Let_def the_default_def)

lemma respond_fast:
  assumes "mode input = Some Fast"
      and "chat W tr (direct_params W k m input (user_content input sources) (length sources)) = Inr a"
  shows "\<exists>resp. snd (answer_and_respond W k m input sources tr) = Inr resp
           \<and> r_answer resp = a
           \<and> r_citations resp = map_citations sources a
           \<and> r_followUps resp =
               final_follow_ups W k m input a
                 (tr @ [ChatCall (direct_params W k m input (user_content input sources)
                                    (length sources))])"
  using assms
  by (simp add: answer_and_respond_def compose_answer_def verify_citations_def Let_def
                the_default_def)

lemma scripted_world_sel:
  "env_OPENROUTER_API_KEY (scripted_world rs reply) = Some ''key''"
  "env_OPENROUTER_DEFAULT_MODEL (scripted_world rs reply) = Some ''model-1''"
  "chat (scripted_world rs reply) = reply"
  "url_parse (scripted_world rs reply) = parseURL"
  by (simp_all add: scripted_world_def offline_world_def node_def platform.defs)

lemma fast_ask_sel:
  "question (fast_ask q) = q" "model (fast_ask q) = None" "mode (fast_ask q) = Some Fast"
  "useWeb (fast_ask q) = None"
  "question ((fast_ask q)\<lparr>useWeb := Some False\<rparr>) = q"
  "model ((fast_ask q)\<lparr>useWeb := Some False\<rparr>) = None"
  "mode ((fast_ask q)\<lparr>useWeb := Some False\<rparr>) = Some Fast"
  by (simp_all add: fast_ask_def ask_def)

lemma gravity_plain:
  "classifyLocalClockIntent ''Gravity'' = None" "detectSafetyBlock ''Gravity'' = None"
  by code_simp+

lemma citing_run:
  "\<exists>resp. snd (askPipeline (citing_world urls) (fast_ask ''Gravity'')) = Inr resp
           \<and> r_answer resp = ''See [1] [2] [3].''
           \<and> r_citations resp =
               map_citations (snd (gather_evidence (citing_world urls) (fast_ask ''Gravity'') []))
                 ''See [1] [2] [3].''"
proof -
  let ?W = "citing_world urls"
  let ?I = "fast_ask ''Gravity''"
  have run: "askPipeline ?W ?I =
               answer_and_respond ?W ''key'' ''model-1'' ?I (snd (gather_evidence ?W ?I []))
                 (fst (gather_evidence ?W ?I []))"
    using pipeline_run[of ?I ?W "''key''" "''model-1''"] gravity_plain
    by (simp add: fast_ask_sel scripted_world_sel citing_world_def the_default_def)
  have "chat ?W tr p = Inr ''See [1] [2] [3].''" for tr p
    by (simp add: citing_world_def scripted_world_sel)
  from respond_fast[OF fast_ask_sel(3) this] show ?thesis
    unfolding run by blast
qed

lemma www_run_sources:
  "snd (gather_evidence
          (citing_world [''https://www.www.example.com/'', ''https://www.example.com/'',
                         ''not a url''])
          (fast_ask ''Gravity'') []) =
     [\<lparr>title = ''Title'', url = ''https://www.example.com/'', snippet = ''Snippet'',
        extractedText = None\<rparr>,
      \<lparr>title = ''Title'', url = ''https://example.com/'', snippet = ''Snippet'',
        extractedText = None\<rparr>,
      \<lparr>title = ''Title'', url = ''not a url'', snippet = ''Snippet'', extractedText = None\<rparr>]"
  by code_simp

lemma slash_run_sources:
  "snd (gather_evidence (citing_world [''http://www./'', ''http:///'']) (fast_ask ''Gravity'') []) =
     [\<lparr>title = ''Title'', url = ''http:///'', snippet = ''Snippet'', extractedText = None\<rparr>,
      \<lparr>title = ''Title'', url = ''http:///'', snippet = ''Snippet'', extractedText = None\<rparr>]"
  by code_simp

lemma www_run_citations:
  "map_citations
     [\<lparr>title = ''Title'', url = ''https://www.example.com/'', snippet = ''Snippet'',
        extractedText = None\<rparr>,
      \<lparr>title = ''Title'', url = ''https://example.com/'', snippet = ''Snippet'',
        extractedText = None\<rparr>,
      \<lparr>title = ''Title'', url = ''not a url'', snippet = ''Snippet'', extractedText = None\<rparr>]
     ''See [1] [2] [3].'' =
     [\<lparr>c_url = ''https://www.example.com/'', c_title = ''Title''\<rparr>,
      \<lparr>c_url = ''https://example.com/'', c_title = ''Title''\<rparr>,
      \<lparr>c_url = ''not a url'', c_title = ''Title''\<rparr>]"
  by code_simp

lemma slash_run_citations:
  "map_citations
     [\<lparr>title = ''Title'', url = ''http:///'', snippet = ''Snippet'', extractedText = None\<rparr>,
      \<lparr>title = ''Title'', url = ''http:///'', snippet = ''Snippet'', extractedText = None\<rparr>]
     ''See [1] [2] [3].'' =
     [\<lparr>c_url = ''http:///'', c_title = ''Title''\<rparr>,
      \<lparr>c_url = ''http:///'', c_title = ''Title''\<rparr>]"
  by code_simp

section \<open>Rate limiter: the fixed window\<close>

lemma rateLimiter_in_window:
  assumes "hits (rl_key options req) = Some h" and "now req < resetAtMs h"
  shows "rateLimiter options hits req =
     (hits(rl_key options req \<mapsto> \<lparr>count = count h + 1, resetAtMs = resetAtMs h\<rparr>),
      if count h + 1 > maxHits options then
        \<lparr>headers = [(''X-RateLimit-Limit'', maxHits options),
                    (''X-RateLimit-Remaining'', max 0 (maxHits options - (count h + 1))),
                    (''X-RateLimit-Reset'', ceil_div_1000 (resetAtMs h)),
                    (''Retry-After'', max 1 (ceil_div_1000 (resetAtMs h - now req)))],
         verdict = Respond 429 ''Too Many Requests, please try again later'' (requestId req)\<rparr>
      else
        \<lparr>headers = [(''X-RateLimit-Limit'', maxHits options),
                    (''X-RateLimit-Remaining'', max 0 (maxHits options - (count h + 1))),
                    (''X-RateLimit-Reset'', ceil_div_1000 (resetAtMs h))],
         verdict = Next\<rparr>)"
  using assms by (simp add: rateLimiter_def Let_def)

lemma rateLimiter_fresh:
  assumes "case hits (rl_key options req) of None \<Rightarrow> True | Some h \<Rightarrow> resetAtMs h \<le> now req"
  shows "rateLimiter options hits req =
     (hits(rl_key options req \<mapsto> \<lparr>count = 1, resetAtMs = now req + windowMs options\<rparr>),
      \<lparr>headers = [(''X-RateLimit-Limit'', maxHits options),
                  (''X-RateLimit-Remaining'', max 0 (maxHits options - 1)),
                  (''X-RateLimit-Reset'', ceil_div_1000 (now req + windowMs options))],
       verdict = Next\<rparr>)"
  using assms by (simp add: rateLimiter_def Let_def split: option.splits)

lemma snd_serve_Cons:
  "snd (serve options hits (q # reqs)) =
     snd (rateLimiter options hits q) # snd (serve options (fst (rateLimiter options hits q)) reqs)"
  by (simp split: prod.splits)

lemma rateLimiter_other_key:
  "rl_key options req \<noteq> key \<Longrightarrow> fst (rateLimiter options hits req) key = hits key"
  by (simp add: rateLimiter_def Let_def)

lemma rl_key_same_client:
  assumes "ip a \<noteq> Some ''undefined''" and "ip b \<noteq> Some ''undefined''"
  shows "rl_key options a = rl_key options b \<longleftrightarrow> ip a = ip b"
  using assms by (cases "ip a"; cases "ip b") (simp_all add: rl_key_def)

lemma serve_in_window:
  assumes "hits key = Some h"
      and "\<forall>q \<in> set reqs. rl_key options q = key \<longrightarrow> now q < resetAtMs h"
      and "k < length reqs"
      and "rl_key options (reqs ! k) = key"
  shows "snd (serve options hits reqs) ! k =
     (let c = count h + int (length (filter (\<lambda>r. rl_key options r = key) (take (Suc k) reqs)));
          hs = [(''X-RateLimit-Limit'', maxHits options),
                (''X-RateLimit-Remaining'', max 0 (maxHits options - c)),
                (''X-RateLimit-Reset'', ceil_div_1000 (resetAtMs h))]
      in if c > maxHits options then
           \<lparr>headers = hs @ [(''Retry-After'', max 1 (ceil_div_1000 (resetAtMs h - now (reqs ! k))))],
            verdict = Respond 429 ''Too Many Requests, please try again later'' (requestId (reqs ! k))\<rparr>
         else \<lparr>headers = hs, verdict = Next\<rparr>)"
  using assms
proof (induction reqs arbitrary: hits h k)
  case Nil
  then show ?case by simp
next
  case (Cons q reqs)
  show ?case
  proof (cases "rl_key options q = key")
    case kq: True
    have nq: "now q < resetAtMs h" using Cons.prems(2) kq by auto
    let ?h' = "\<lparr>count = count h + 1, resetAtMs = resetAtMs h\<rparr>"
    let ?hits' = "hits(key \<mapsto> ?h')"
    have step: "fst (rateLimiter options hits q) = ?hits'"
      using rateLimiter_in_window[of hits options q h] Cons.prems(1) kq nq by simp
    show ?thesis
    proof (cases k)
      case 0
      then show ?thesis
        using rateLimiter_in_window[of hits options q h] Cons.prems(1) kq nq
        by (simp add: Let_def snd_serve_Cons del: serve.simps)
    next
      case (Suc j)
      have "snd (serve options ?hits' reqs) ! j =
        (let c = count ?h' + int (length (filter (\<lambda>r. rl_key options r = key) (take (Suc j) reqs)));
            hs = [(''X-RateLimit-Limit'', maxHits options),
                  (''X-RateLimit-Remaining'', max 0 (maxHits options - c)),
                  (''X-RateLimit-Reset'', ceil_div_1000 (resetAtMs ?h'))]
        in if c > maxHits options then
             \<lparr>headers = hs @ [(''Retry-After'', max 1 (ceil_div_1000 (resetAtMs ?h' - now (reqs ! j))))],
              verdict = Respond 429 ''Too Many Requests, please try again later'' (requestId (reqs ! j))\<rparr>
           else \<lparr>headers = hs, verdict = Next\<rparr>)"
        by (rule Cons.IH) (use Cons.prems Suc in auto)
      moreover have "snd (serve options hits (q # reqs)) ! k = snd (serve options ?hits' reqs) ! j"
        using step Suc by (simp add: snd_serve_Cons del: serve.simps)
      ultimately show ?thesis using Suc kq by (simp add: Let_def add.commute add.left_commute)
    qed
  next
    case other: False
    let ?hits' = "fst (rateLimiter options hits q)"
    have keep: "?hits' key = Some h"
      using rateLimiter_other_key[OF other, of hits] Cons.prems(1) by simp
    obtain j where Suc: "k = Suc j" using Cons.prems(4) other by (cases k) auto
    have "snd (serve options ?hits' reqs) ! j =
        (let c = count h + int (length (filter (\<lambda>r. rl_key options r = key) (take (Suc j) reqs)));
            hs = [(''X-RateLimit-Limit'', maxHits options),
                  (''X-RateLimit-Remaining'', max 0 (maxHits options - c)),
                  (''X-RateLimit-Reset'', ceil_div_1000 (resetAtMs h))]
        in if c > maxHits options then
             \<lparr>headers = hs @ [(''Retry-After'', max 1 (ceil_div_1000 (resetAtMs h - now (reqs ! j))))],
              verdict = Respond 429 ''Too Many Requests, please try again later'' (requestId (reqs ! j))\<rparr>
           else \<lparr>headers = hs, verdict = Next\<rparr>)"
      by (rule Cons.IH[where hits = ?hits' and h = h]) (use keep Cons.prems Suc in auto)
    moreover have "snd (serve options hits (q # reqs)) ! k = snd (serve options ?hits' reqs) ! j"
      using Suc by (simp add: snd_serve_Cons del: serve.simps)
    ultimately show ?thesis using Suc other by (simp add: Let_def)
  qed
qed

lemma ceil_div_1000_pos: "0 < x \<Longrightarrow> 1 \<le> ceil_div_1000 x"
  unfolding ceil_div_1000_def by linarith

text \<open>
  Claim C5.  With the \<open>/api/ask\<close> options (window 60 s, limit 10), let a request of some
  client arrive when that client's counter is missing or has reached its reset time, and let
  any requests follow it, of this client and of any other clients in any order, those of
  this client before the new reset time.  A client is its \<open>req.ip\<close> (no request carries
  the string \<open>undefined\<close> as its address, which is the key of a request without address).
  Then the first request opens a fresh window with count 1, and the response to a request of
  this client depends only on \<open>c\<close>, the number of this client's requests so far in the
  window, whatever the other clients sent in between: for \<open>c \<le> 10\<close> it is passed on; for
  \<open>c \<ge> 11\<close> it is answered with status 429, the \<open>{message, requestId}\<close> envelope and a
  \<open>Retry-After\<close> header that is the ceiling of the remaining window in seconds and at
  least 1; and every response, passed or rejected, carries \<open>X-RateLimit-Limit = 10\<close>,
  \<open>X-RateLimit-Remaining = max(0, 10 - c)\<close> and \<open>X-RateLimit-Reset\<close>.
\<close>

theorem rate_limiter_fixed_window:
  assumes fresh: "case hits (rl_key askRateLimit first) of None \<Rightarrow> True
                  | Some h \<Rightarrow> resetAtMs h \<le> now first"
      and addresses: "\<forall>q \<in> set (first # later). ip q \<noteq> Some ''undefined''"
      and window: "\<forall>q \<in> set later. ip q = ip first \<longrightarrow> now q < now first + 60000"
      and k: "k < length (first # later)"
      and mine: "ip ((first # later) ! k) = ip first"
  shows "(let q = (first # later) ! k;
              c = int (length (filter (\<lambda>r. ip r = ip first) (take (Suc k) (first # later))));
              reset = now first + 60000;
              hs = [(''X-RateLimit-Limit'', 10),
                    (''X-RateLimit-Remaining'', max 0 (10 - c)),
                    (''X-RateLimit-Reset'', ceil_div_1000 reset)]
          in snd (serve askRateLimit hits (first # later)) ! k =
               (if c \<le> 10 then \<lparr>headers = hs, verdict = Next\<rparr>
                else \<lparr>headers = hs @ [(''Retry-After'', ceil_div_1000 (reset - now q))],
                      verdict = Respond 429 ''Too Many Requests, please try again later''
                                  (requestId q)\<rparr>)
             \<and> (10 < c \<longrightarrow> 1 \<le> ceil_div_1000 (reset - now q)))
         \<and> fst (rateLimiter askRateLimit hits first) (rl_key askRateLimit first)
             = Some \<lparr>count = 1, resetAtMs = now first + 60000\<rparr>"
proof -
  let ?key = "rl_key askRateLimit first"
  let ?h = "\<lparr>count = 1, resetAtMs = now first + 60000\<rparr>"
  let ?hits' = "hits(?key \<mapsto> ?h)"
  have first: "rateLimiter askRateLimit hits first =
     (?hits', \<lparr>headers = [(''X-RateLimit-Limit'', 10), (''X-RateLimit-Remaining'', 9),
                            (''X-RateLimit-Reset'', ceil_div_1000 (now first + 60000))],
               verdict = Next\<rparr>)"
    using rateLimiter_fresh[where hits = hits and options = askRateLimit and req = first] fresh
    by (simp add: askRateLimit_def)
  have tbl: "fst (rateLimiter askRateLimit hits first) (rl_key askRateLimit first)
             = Some \<lparr>count = 1, resetAtMs = now first + 60000\<rparr>"
    using first by simp
  have same: "rl_key askRateLimit q = ?key \<longleftrightarrow> ip q = ip first" if "q \<in> set later" for q
    using rl_key_same_client[of q first askRateLimit] addresses that by simp
  have cnt: "filter (\<lambda>r. rl_key askRateLimit r = ?key) (take n later)
             = filter (\<lambda>r. ip r = ip first) (take n later)" for n
    by (rule filter_cong) (auto dest: in_set_takeD simp: same)
  show ?thesis
  proof (cases k)
    case 0
    then show ?thesis using first by (simp add: snd_serve_Cons Let_def del: serve.simps)
  next
    case (Suc j)
    have j: "j < length later" using k Suc by simp
    have minej: "ip (later ! j) = ip first" using mine Suc by simp
    have keyj: "rl_key askRateLimit (later ! j) = ?key" using same[of "later ! j"] minej j by simp
    have all: "\<forall>q \<in> set later. rl_key askRateLimit q = ?key \<longrightarrow> now q < resetAtMs ?h"
      using window same by auto
    have nowj: "now (later ! j) < now first + 60000" using window j minej by auto
    let ?c = "1 + int (length (filter (\<lambda>r. ip r = ip first) (take (Suc j) later)))"
    have "snd (serve askRateLimit hits (first # later)) ! k = snd (serve askRateLimit ?hits' later) ! j"
      using first Suc by (simp add: snd_serve_Cons del: serve.simps)
    also have "\<dots> = (let c = count ?h + int (length (filter (\<lambda>r. rl_key askRateLimit r = ?key) (take (Suc j) later)));
          hs = [(''X-RateLimit-Limit'', maxHits askRateLimit),
                (''X-RateLimit-Remaining'', max 0 (maxHits askRateLimit - c)),
                (''X-RateLimit-Reset'', ceil_div_1000 (resetAtMs ?h))]
      in if c > maxHits askRateLimit then
           \<lparr>headers = hs @ [(''Retry-After'', max 1 (ceil_div_1000 (resetAtMs ?h - now (later ! j))))],
            verdict = Respond 429 ''Too Many Requests, please try again later'' (requestId (later ! j))\<rparr>
         else \<lparr>headers = hs, verdict = Next\<rparr>)"
      by (rule serve_in_window[where key = ?key]) (use all j keyj in auto)
    finally have main: "snd (serve askRateLimit hits (first # later)) ! k =
       (if ?c > 10 then
           \<lparr>headers = [(''X-RateLimit-Limit'', 10),
                (''X-RateLimit-Remaining'', max 0 (10 - ?c)),
                (''X-RateLimit-Reset'', ceil_div_1000 (now first + 60000)),
                (''Retry-After'', max 1 (ceil_div_1000 (now first + 60000 - now (later ! j))))],
            verdict = Respond 429 ''Too Many Requests, please try again later'' (requestId (later ! j))\<rparr>
         else \<lparr>headers = [(''X-RateLimit-Limit'', 10),
                (''X-RateLimit-Remaining'', max 0 (10 - ?c)),
                (''X-RateLimit-Reset'', ceil_div_1000 (now first + 60000))], verdict = Next\<rparr>)"
      unfolding cnt by (simp add: Let_def askRateLimit_def)
    have pos: "1 \<le> ceil_div_1000 (now first + 60000 - now (later ! j))"
      using nowj by (intro ceil_div_1000_pos) simp
    have m1: "max 1 (ceil_div_1000 (now first + 60000 - now (later ! j)))
                  = ceil_div_1000 (now first + 60000 - now (later ! j))"
      using pos by simp
    have nthk: "(first # later) ! k = later ! j" using Suc by simp
    have c: "int (length (filter (\<lambda>r. ip r = ip first) (take (Suc k) (first # later)))) = ?c"
      using Suc by simp
    show ?thesis
      unfolding Let_def c nthk main m1 using pos tbl by auto
  qed
qed

theorem rate_limiter_fixed_window_witness:
  "snd (serve askRateLimit Map.empty
         (\<lparr>ip = Some ''203.0.113.7'', requestId = Some ''r-1'', now = 1700000000123\<rparr>
           # replicate 10 \<lparr>ip = Some ''203.0.113.7'', requestId = Some ''r-1'', now = 1700000000123\<rparr>)) ! 10
     = \<lparr>headers = [(''X-RateLimit-Limit'', 10), (''X-RateLimit-Remaining'', 0),
                    (''X-RateLimit-Reset'', 1700000061), (''Retry-After'', 60)],
         verdict = Respond 429 ''Too Many Requests, please try again later'' (Some ''r-1'')\<rparr>
   \<and> snd (serve askRateLimit Map.empty
         [\<lparr>ip = Some ''203.0.113.7'', requestId = None, now = 1700000000123\<rparr>,
          \<lparr>ip = Some ''198.51.100.9'', requestId = None, now = 1700000000200\<rparr>,
          \<lparr>ip = None, requestId = None, now = 1700000090000\<rparr>,
          \<lparr>ip = Some ''203.0.113.7'', requestId = None, now = 1700000000300\<rparr>]) ! 3
     = \<lparr>headers = [(''X-RateLimit-Limit'', 10), (''X-RateLimit-Remaining'', 8),
                    (''X-RateLimit-Reset'', 1700000061)],
         verdict = Next\<rparr>"
  using rate_limiter_fixed_window[where hits = Map.empty
          and first = "\<lparr>ip = Some ''203.0.113.7'', requestId = Some ''r-1'', now = 1700000000123\<rparr>"
          and later = "replicate 10 \<lparr>ip = Some ''203.0.113.7'', requestId = Some ''r-1'', now = 1700000000123\<rparr>" and k = 10]
        rate_limiter_fixed_window[where hits = Map.empty
          and first = "\<lparr>ip = Some ''203.0.113.7'', requestId = None, now = 1700000000123\<rparr>"
          and later = "[\<lparr>ip = Some ''198.51.100.9'', requestId = None, now = 1700000000200\<rparr>,
                        \<lparr>ip = None, requestId = None, now = 1700000090000\<rparr>,
                        \<lparr>ip = Some ''203.0.113.7'', requestId = None, now = 1700000000300\<rparr>]" and k = 3]
  by (simp add: ceil_div_1000_def Let_def del: serve.simps)

section \<open>Rate limiter: the hit table\<close>

lemma dom_rateLimiter:
  "dom (fst (rateLimiter options hits req)) = insert (rl_key options req) (dom hits)"
  by (simp add: rateLimiter_def Let_def)

lemma dom_serve:
  "dom (fst (serve options hits reqs)) = dom hits \<union> rl_key options ` set reqs"
proof (induction reqs arbitrary: hits)
  case Nil
  then show ?case by simp
next
  case (Cons q reqs)
  have "fst (serve options hits (q # reqs)) = fst (serve options (fst (rateLimiter options hits q)) reqs)"
    by (simp split: prod.splits)
  then show ?case using Cons.IH[of "fst (rateLimiter options hits q)"]
    by (simp add: dom_rateLimiter)
qed

text \<open>
  Claim C8 asks that every process-wide map is bounded.  The hit table of the rate limiter
  is never pruned: the only writes are \<open>hits.set\<close>, so after requests from \<open>n\<close>
  different client addresses the table holds \<open>n\<close> counters, whatever the times of the
  requests.
\<close>

theorem rate_limiter_table_grows:
  assumes "\<forall>q \<in> set reqs. ip q \<noteq> None" and "distinct (map ip reqs)"
  shows "card (dom (fst (serve options Map.empty reqs))) = length reqs"
proof -
  have inj: "inj_on (rl_key options) (set reqs)"
  proof (rule inj_onI)
    fix q q' assume q: "q \<in> set reqs" and q': "q' \<in> set reqs"
      and eq: "rl_key options q = rl_key options q'"
    obtain a where "ip q = Some a" using assms(1) q by blast
    moreover obtain a' where "ip q' = Some a'" using assms(1) q' by blast
    ultimately have a: "ip q = Some a" "ip q' = Some a'" by simp_all
    then have "a = a'" using eq by (simp add: rl_key_def)
    then have "ip q = ip q'" using a by simp
    then show "q = q'" using assms(2) q q' by (meson distinct_map inj_onD)
  qed
  have "distinct reqs" using assms(2) by (simp add: distinct_map)
  have "card (rl_key options ` set reqs) = card (set reqs)" using inj by (rule card_image)
  also have "\<dots> = length reqs" using \<open>distinct reqs\<close> by (rule distinct_card)
  finally show ?thesis by (simp add: dom_serve)
qed

theorem rate_limiter_table_grows_witness:
  "card (dom (fst (serve askRateLimit Map.empty
      [\<lparr>ip = Some ''198.51.100.1'', requestId = None, now = 0\<rparr>,
       \<lparr>ip = Some ''198.51.100.2'', requestId = None, now = 70000\<rparr>,
       \<lparr>ip = Some ''198.51.100.3'', requestId = None, now = 9000000\<rparr>]))) = 3"
  using rate_limiter_table_grows[of
      "[\<lparr>ip = Some ''198.51.100.1'', requestId = None, now = 0\<rparr>,
       \<lparr>ip = Some ''198.51.100.2'', requestId = None, now = 70000\<rparr>,
       \<lparr>ip = Some ''198.51.100.3'', requestId = None, now = 9000000\<rparr>]" askRateLimit]
  by simp

section \<open>LLM adapter: the retry policy\<close>











section \<open>Canonicalisation applied twice\<close>

lemma normalize_parts:
  "normalizeUrlForDedupe P raw =
     (case url_parse P raw of
        None \<Rightarrow> None
      | Some u \<Rightarrow>
          Some (canon_host u @ canon_path u @ url_search (canon_entries P u),
                protocol u @ ''//'' @ canon_host u @ canon_path u @ url_search (canon_entries P u)))"
  by (simp add: normalize_key canon_host_def canon_path_def canon_entries_def Let_def
           split: option.splits)

lemma lower_char_idem: "lower_char (lower_char c) = lower_char c"
proof -
  have "of_char (char_of (of_char c + 32 :: nat)) = ((of_char c + 32) mod 256 :: nat)"
    by (simp add: of_char_of)
  moreover have "(of_char c :: nat) < 256"
    using of_char_mod_256[of c, where ?'a = nat] mod_less_divisor[of 256 "of_char c :: nat"]
    by simp
  ultimately show ?thesis
    by (auto simp: lower_char_def Let_def)
qed

lemma toLowerCase_idem: "toLowerCase (toLowerCase s) = toLowerCase s"
  by (simp add: toLowerCase_def lower_char_idem)

lemma toLowerCase_strip_www: "toLowerCase (strip_www (toLowerCase h)) = strip_www (toLowerCase h)"
  by (simp add: strip_www_def toLowerCase_def drop_map lower_char_idem)

lemma canon_host_again:
  assumes "hostname v = canon_host u" and "\<not> startsWith (canon_host u) ''www.''"
  shows "canon_host v = canon_host u"
  using assms unfolding canon_host_def
  by (simp add: toLowerCase_strip_www strip_www_other)

lemma strip_trailing_slashes_idem:
  "strip_trailing_slashes (strip_trailing_slashes p) = strip_trailing_slashes p"
  by (simp add: strip_trailing_slashes_def)

lemma strip_single_slash: "strip_trailing_slashes ''/'' = []"
  by (simp add: strip_trailing_slashes_def)

lemma canon_path_again:
  assumes "pathname v = canon_path u"
  shows "canon_path v = canon_path u"
  using assms unfolding canon_path_def
  by (simp add: strip_trailing_slashes_idem strip_single_slash)

lemma without_tracking_sorted:
  "without_tracking (sort_by cmp (without_tracking ps)) = sort_by cmp (without_tracking ps)"
  unfolding without_tracking_def
  by (rule filter_True) (auto simp: set_sort_by)

lemma canon_entries_again:
  assumes "searchParams v = canon_entries P u"
      and total: "\<And>a b. localeCompare P a b \<le> 0 \<or> localeCompare P b a \<le> 0"
      and trans: "\<And>a b c. localeCompare P a b \<le> 0 \<Longrightarrow> localeCompare P b c \<le> 0
                    \<Longrightarrow> localeCompare P a c \<le> 0"
  shows "canon_entries P v = canon_entries P u"
proof -
  let ?cmp = "\<lambda>(a, _ :: string) (b, _ :: string). localeCompare P a b"
  have t: "\<And>x y. ?cmp x y \<le> 0 \<or> ?cmp y x \<le> 0" using total by (auto split: prod.splits)
  have tr: "\<And>x y z. ?cmp x y \<le> 0 \<Longrightarrow> ?cmp y z \<le> 0 \<Longrightarrow> ?cmp x z \<le> 0"
    using trans by (auto split: prod.splits)
  have "sorted_wrt (\<lambda>x y. ?cmp x y \<le> 0) (sort_by ?cmp (without_tracking (searchParams u)))"
    by (rule sorted_sort_by[of ?cmp, OF t tr])
  then have "sort_by ?cmp (sort_by ?cmp (without_tracking (searchParams u)))
             = sort_by ?cmp (without_tracking (searchParams u))"
    by (rule sort_by_sorted)
  then show ?thesis
    unfolding canon_entries_def assms(1)[unfolded canon_entries_def] without_tracking_sorted .
qed

lemma www_key_shorter:
  assumes "startsWith h ''www.''"
  shows "length (strip_www h) < length h"
proof -
  have "4 \<le> length h" using assms
    by (cases h; cases "tl h"; cases "tl (tl h)"; cases "tl (tl (tl h))") auto
  then show ?thesis using assms by (simp add: strip_www_def)
qed

text \<open>
  Claim C7, as the code has it.  Let the canonicaliser succeed on \<open>u\<close>, and let the parser
  read the cleaned URL back as the parts it was put together from (its scheme, the
  canonical host, the canonical path and the sorted query pairs).  If the canonical host
  does not begin with \<open>www.\<close> and the collation is total and transitive, the
  canonicaliser gives the same key and the same cleaned URL again.  If the canonical host
  begins with \<open>www.\<close> (the host of \<open>u\<close> began with \<open>www.www.\<close>), the second key is
  another one.
\<close>

theorem canonicalisation_idempotent:
  assumes first: "normalizeUrlForDedupe P u = Some (key, cleaned)"
      and parsed: "url_parse P u = Some pu"
      and again: "url_parse P cleaned = Some pc"
      and same_parts: "protocol pc = protocol pu \<and> hostname pc = canon_host pu
                 \<and> pathname pc = canon_path pu \<and> searchParams pc = canon_entries P pu"
      and total: "\<forall>a b. localeCompare P a b \<le> 0 \<or> localeCompare P b a \<le> 0"
      and trans: "\<forall>a b c. localeCompare P a b \<le> 0 \<and> localeCompare P b c \<le> 0
                    \<longrightarrow> localeCompare P a c \<le> 0"
  shows "(\<not> startsWith (canon_host pu) ''www.''
            \<longrightarrow> normalizeUrlForDedupe P cleaned = Some (key, cleaned))
         \<and> (startsWith (canon_host pu) ''www.''
            \<longrightarrow> (\<exists>key' cleaned'. normalizeUrlForDedupe P cleaned = Some (key', cleaned')
                    \<and> key' \<noteq> key \<and> cleaned' \<noteq> cleaned))"
proof -
  have kc: "key = canon_host pu @ canon_path pu @ url_search (canon_entries P pu)"
           "cleaned = protocol pu @ ''//'' @ canon_host pu @ canon_path pu
                      @ url_search (canon_entries P pu)"
    using first parsed by (auto simp: normalize_parts)
  have p: "canon_path pc = canon_path pu" using same_parts canon_path_again by blast
  have e: "canon_entries P pc = canon_entries P pu"
    using canon_entries_again[of pc P pu] same_parts total trans by blast
  have second: "normalizeUrlForDedupe P cleaned =
      Some (canon_host pc @ canon_path pu @ url_search (canon_entries P pu),
            protocol pu @ ''//'' @ canon_host pc @ canon_path pu @ url_search (canon_entries P pu))"
    using again same_parts by (simp add: normalize_parts p e)
  have A: "normalizeUrlForDedupe P cleaned = Some (key, cleaned)"
    if "\<not> startsWith (canon_host pu) ''www.''"
    using second canon_host_again[of pc pu] same_parts that kc by simp
  have B: "\<exists>key' cleaned'. normalizeUrlForDedupe P cleaned = Some (key', cleaned')
                    \<and> key' \<noteq> key \<and> cleaned' \<noteq> cleaned"
    if w: "startsWith (canon_host pu) ''www.''"
  proof -
    have "canon_host pc = strip_www (canon_host pu)"
      using same_parts by (simp add: canon_host_def toLowerCase_strip_www)
    then have "length (canon_host pc) < length (canon_host pu)"
      using www_key_shorter[OF w] by simp
    then have "canon_host pc \<noteq> canon_host pu" by auto
    then show ?thesis using second kc by simp
  qed
  show ?thesis using A B by blast
qed

lemma compare_strings_total: "compare_strings a b \<le> 0 \<or> compare_strings b a \<le> 0"
  by (induction a b rule: compare_strings.induct) auto

lemma compare_strings_trans:
  "compare_strings a b \<le> 0 \<Longrightarrow> compare_strings b c \<le> 0 \<Longrightarrow> compare_strings a c \<le> 0"
proof (induction a b arbitrary: c rule: compare_strings.induct)
  case 1
  then show ?case by simp
next
  case (2 b bs)
  then show ?case by (cases c) auto
next
  case (3 a as)
  then show ?case by simp
next
  case (4 a as b bs)
  show ?case
  proof (cases c)
    case Nil
    then show ?thesis using 4 by simp
  next
    case (Cons x xs)
    show ?thesis
    proof (cases "(of_char a :: nat) < of_char b")
      case True
      then show ?thesis using 4 Cons by (auto split: if_splits)
    next
      case ab: False
      then have eq: "(of_char a :: nat) = of_char b" and rec: "compare_strings as bs \<le> 0"
        using 4(2) by (auto split: if_splits)
      show ?thesis
      proof (cases "(of_char b :: nat) < of_char x")
        case True
        then show ?thesis using eq Cons by simp
      next
        case False
        then have eq2: "(of_char b :: nat) = of_char x" and rec2: "compare_strings bs xs \<le> 0"
          using 4(3) Cons by (auto split: if_splits)
        have "compare_strings as xs \<le> 0"
          using 4(1)[OF ab _ rec rec2] eq by simp
        then show ?thesis using eq eq2 Cons by simp
      qed
    qed
  qed
qed

theorem canonicalisation_idempotent_witness:
  "normalizeUrlForDedupe node ''http://Example.com/a/?utm_source=x&b=2&a=1#top''
     = Some (''example.com/a?a=1&b=2'', ''http://example.com/a?a=1&b=2'')
   \<and> normalizeUrlForDedupe node ''http://example.com/a?a=1&b=2''
     = Some (''example.com/a?a=1&b=2'', ''http://example.com/a?a=1&b=2'')
   \<and> (\<exists>key' cleaned'. normalizeUrlForDedupe node ''https://www.example.com/'' = Some (key', cleaned')
         \<and> key' \<noteq> ''www.example.com/'' \<and> cleaned' \<noteq> ''https://www.example.com/'')"
proof -
  let ?u = "''http://Example.com/a/?utm_source=x&b=2&a=1#top''"
  let ?pu = "\<lparr>protocol = ''http:'', hostname = ''example.com'', pathname = ''/a/'',
              searchParams = [(''utm_source'', ''x''), (''b'', ''2''), (''a'', ''1'')],
              hash = ''#top''\<rparr>"
  let ?c = "''http://example.com/a?a=1&b=2''"
  let ?pc = "\<lparr>protocol = ''http:'', hostname = ''example.com'', pathname = ''/a'',
              searchParams = [(''a'', ''1''), (''b'', ''2'')], hash = ''''\<rparr>"
  have n1: "normalizeUrlForDedupe node ?u = Some (''example.com/a?a=1&b=2'', ?c)" by code_simp
  have p1: "url_parse node ?u = Some ?pu" by code_simp
  have p2: "url_parse node ?c = Some ?pc" by code_simp
  have parts: "canon_host ?pu = ''example.com''" "canon_path ?pu = ''/a''"
              "canon_entries node ?pu = [(''a'', ''1''), (''b'', ''2'')]"
              "\<not> startsWith ''example.com'' ''www.''"
    by code_simp+
  have cmp: "localeCompare node = compare_strings" by (simp add: node_def)
  have total: "\<forall>a b. localeCompare node a b \<le> 0 \<or> localeCompare node b a \<le> 0"
    unfolding cmp using compare_strings_total by blast
  have trans: "\<forall>a b c. localeCompare node a b \<le> 0 \<and> localeCompare node b c \<le> 0
                 \<longrightarrow> localeCompare node a c \<le> 0"
    unfolding cmp using compare_strings_trans by blast
  have 2: "normalizeUrlForDedupe node ?c = Some (''example.com/a?a=1&b=2'', ?c)"
    using canonicalisation_idempotent[OF n1 p1 p2 _ total trans, THEN conjunct1] parts by simp
  let ?w = "''https://www.www.example.com/''"
  let ?pw = "\<lparr>protocol = ''https:'', hostname = ''www.www.example.com'', pathname = ''/'',
              searchParams = [], hash = ''''\<rparr>"
  let ?pv = "\<lparr>protocol = ''https:'', hostname = ''www.example.com'', pathname = ''/'',
              searchParams = [], hash = ''''\<rparr>"
  have n3: "normalizeUrlForDedupe node ?w = Some (''www.example.com/'', ''https://www.example.com/'')"
    by code_simp
  have p3: "url_parse node ?w = Some ?pw" by code_simp
  have p4: "url_parse node ''https://www.example.com/'' = Some ?pv" by code_simp
  have parts': "canon_host ?pw = ''www.example.com''" "canon_path ?pw = ''/''"
               "canon_entries node ?pw = []" "startsWith ''www.example.com'' ''www.''"
    by code_simp+
  have 3: "\<exists>key' cleaned'. normalizeUrlForDedupe node ''https://www.example.com/'' = Some (key', cleaned')
         \<and> key' \<noteq> ''www.example.com/'' \<and> cleaned' \<noteq> ''https://www.example.com/''"
    using canonicalisation_idempotent[OF n3 p3 p4 _ total trans, THEN conjunct2] parts' by simp
  show ?thesis using n1 2 3 by blast
qed

text \<open>The claim as stated holds for every URL string.  One leading \<open>www.\<close> is removed
  at each application: the cleaned URL of \<open>https://www.www.example.com/\<close> is
  \<open>https://www.example.com/\<close>, whose key and cleaned URL are other ones.\<close>

theorem canonicalisation_twice_counterexample:
  "normalizeUrlForDedupe node ''https://www.www.example.com/''
     = Some (''www.example.com/'', ''https://www.example.com/'')
   \<and> normalizeUrlForDedupe node ''https://www.example.com/''
     = Some (''example.com/'', ''https://example.com/'')"
  by code_simp

section \<open>Follow-ups of a response\<close>

text \<open>
  Claim C9 fails on the loose parser.  The strict path checks each string against the
  schema (\<open>max(140)\<close>), the loose line-by-line parser checks no length.  When the
  follow-up call is answered with one line of 141 characters that is no JSON array, the
  response carries that line as its only follow-up.
\<close>

theorem loose_follow_up_exceeds_cap:
  "\<exists>tr resp.
      askPipeline long_line_world ((fast_ask ''Gravity'')\<lparr>useWeb := Some False\<rparr>) = (tr, Inr resp)
      \<and> r_answer resp = ''Ok.''
      \<and> r_followUps resp = [long_line]
      \<and> length (hd (r_followUps resp)) = 141"
proof -
  let ?W = "long_line_world"
  let ?I = "(fast_ask ''Gravity'')\<lparr>useWeb := Some False\<rparr>"
  have chatW: "chat ?W = (\<lambda>tr p. if cc_maxTokens p = Some 140 then Inr long_line else Inr ''Ok.'')"
    by (simp add: long_line_world_def scripted_world_sel)
  have run: "askPipeline ?W ?I = answer_and_respond ?W ''key'' ''model-1'' ?I [] []"
    using pipeline_run[of ?I ?W "''key''" "''model-1''"] gravity_plain
    by (simp add: fast_ask_sel long_line_world_def scripted_world_sel the_default_def
                  fast_ask_def ask_def)
  have direct: "chat ?W [] (direct_params ?W ''key'' ''model-1'' ?I (user_content ?I []) (length ([] :: EvidenceSource list)))
                = Inr ''Ok.''"
    by (simp add: chatW direct_params_def)
  obtain resp where r: "snd (answer_and_respond ?W ''key'' ''model-1'' ?I [] []) = Inr resp"
    and a: "r_answer resp = ''Ok.''"
    and f: "r_followUps resp =
              final_follow_ups ?W ''key'' ''model-1'' ?I ''Ok.''
                ([] @ [ChatCall (direct_params ?W ''key'' ''model-1'' ?I (user_content ?I [])
                                   (length ([] :: EvidenceSource list)))])"
    using respond_fast[OF fast_ask_sel(7) direct] by blast
  have loose: "parse_follow_up_reply ?W long_line = Some [long_line]" by code_simp
  have ne: "long_line \<noteq> []" by (simp add: long_line_def)
  have fu: "final_follow_ups ?W ''key'' ''model-1'' ?I ''Ok.'' t = [long_line]" for t
    by (simp add: final_follow_ups_def Let_def chatW follow_up_params_def loose)
  have len: "length long_line = 141" by (simp add: long_line_def)
  have full: "askPipeline ?W ?I = (fst (askPipeline ?W ?I), Inr resp)"
    using r run by (simp add: prod_eq_iff)
  show ?thesis using full a f fu len by (intro exI[of _ "fst (askPipeline ?W ?I)"] exI[of _ resp]) simp
qed

section \<open>Sources are distinct by key\<close>

text \<open>
  Claim C3, as the code has it.  The candidate table of a run holds every key once, each
  candidate under the key it carries as \<open>normUrl\<close>; ranking, host cap and backfill pick
  candidates of the table with pairwise different keys, and the sources of the run are these
  picks, in order, with their titles, URLs and snippets.  An upsert that does not throw
  leaves under the key of the result the new candidate when the key was free or the new
  score is strictly higher, and the earlier candidate otherwise; every other key keeps its
  entry.  Two URLs get the same key when the parser gives them the same path and the same
  query parameters apart from tracking parameters, whatever their schemes and fragments
  are, and hosts that are equal or differ in one leading \<open>www.\<close> in front of a host that
  does not itself begin with \<open>www.\<close>.  The key is the one filed at the upsert: it need
  not be the key of the source's cleaned URL.
\<close>

theorem sources_distinct_by_key:
  "(let tbl = snd (gather_table W input tr0);
        picked = select_candidates W (wantsFresh (detectRecencyIntent (question input))) tbl
    in table_ok tbl
       \<and> distinct (map normUrl picked)
       \<and> set picked \<subseteq> snd ` set tbl
       \<and> map (\<lambda>s. (title s, url s, snippet s)) (snd (gather_evidence W input tr0))
           = map (\<lambda>c. (title c, url c, snippet c)) picked)
   \<and> (\<forall>byNormUrl src nowMs fresh after.
         table_ok byNormUrl
         \<and> upsertCandidate W nowMs (question input) fresh byNormUrl src = Some after \<longrightarrow>
         table_ok after
         \<and> (\<exists>sc. scoreSource W nowMs (canon_url W (url src)) (title src) (snippet src)
                    (question input) fresh = Some sc
                \<and> filter (\<lambda>(k, c). k = canon_key W (url src)) after =
                    [(canon_key W (url src),
                      case map_of byNormUrl (canon_key W (url src)) of
                        None \<Rightarrow> candidate_of W src sc
                      | Some e \<Rightarrow> if sc > score e then candidate_of W src sc else e)])
         \<and> (\<forall>k. k \<noteq> canon_key W (url src) \<longrightarrow> map_of after k = map_of byNormUrl k))
   \<and> (\<forall>a b ua ub.
         url_parse W a = Some ua \<and> url_parse W b = Some ub
         \<and> pathname ub = pathname ua
         \<and> without_tracking (searchParams ub) = without_tracking (searchParams ua)
         \<and> (hostname ub = hostname ua
              \<or> (hostname ub = ''www.'' @ hostname ua
                  \<and> \<not> startsWith (toLowerCase (hostname ua)) ''www.'')) \<longrightarrow>
         canon_key W a = canon_key W b)"
proof -
  let ?tbl = "snd (gather_table W input tr0)"
  let ?picked = "select_candidates W (wantsFresh (detectRecencyIntent (question input))) ?tbl"
  have ok: "table_ok ?tbl" by (rule gather_table_ok)
  have sel: "distinct (map normUrl ?picked) \<and> set ?picked \<subseteq> snd ` set ?tbl"
    by (rule select_candidates_props[OF ok])
  have src: "map (\<lambda>s. (title s, url s, snippet s)) (snd (gather_evidence W input tr0))
             = map (\<lambda>c. (title c, url c, snippet c)) ?picked"
    by (rule gather_evidence_sources)
  have A: "(let tbl = ?tbl; picked = select_candidates W (wantsFresh (detectRecencyIntent (question input))) tbl
    in table_ok tbl
       \<and> distinct (map normUrl picked)
       \<and> set picked \<subseteq> snd ` set tbl
       \<and> map (\<lambda>s. (title s, url s, snippet s)) (snd (gather_evidence W input tr0))
           = map (\<lambda>c. (title c, url c, snippet c)) picked)"
    unfolding Let_def using ok sel src by blast
  have B: "table_ok after
         \<and> (\<exists>sc. scoreSource W nowMs (canon_url W (url src)) (title src) (snippet src)
                    (question input) fresh = Some sc
                \<and> filter (\<lambda>(k, c). k = canon_key W (url src)) after =
                    [(canon_key W (url src),
                      case map_of byNormUrl (canon_key W (url src)) of
                        None \<Rightarrow> candidate_of W src sc
                      | Some e \<Rightarrow> if sc > score e then candidate_of W src sc else e)])
         \<and> (\<forall>k. k \<noteq> canon_key W (url src) \<longrightarrow> map_of after k = map_of byNormUrl k)"
    if h: "table_ok byNormUrl
           \<and> upsertCandidate W nowMs (question input) fresh byNormUrl src = Some after"
    for byNormUrl src nowMs fresh after
  proof -
    have up: "upsertCandidate W nowMs (question input) fresh byNormUrl src = Some after"
      using h by simp
    have ok': "table_ok after" using upsertCandidate_ok[OF up] h by simp
    obtain sc where sc: "scoreSource W nowMs (canon_url W (url src)) (title src) (snippet src)
                    (question input) fresh = Some sc"
      and at: "map_of after (canon_key W (url src)) =
               Some (case map_of byNormUrl (canon_key W (url src)) of
                       None \<Rightarrow> candidate_of W src sc
                     | Some e \<Rightarrow> if sc > score e then candidate_of W src sc else e)"
      and other: "\<forall>k. k \<noteq> canon_key W (url src) \<longrightarrow> map_of after k = map_of byNormUrl k"
      using upsert_keeps_higher[OF up] by blast
    show ?thesis using ok' sc table_ok_one_entry[OF ok' at] other by blast
  qed
  have C: "canon_key W a = canon_key W b"
    if "url_parse W a = Some ua \<and> url_parse W b = Some ub
         \<and> pathname ub = pathname ua
         \<and> without_tracking (searchParams ub) = without_tracking (searchParams ua)
         \<and> (hostname ub = hostname ua
              \<or> (hostname ub = ''www.'' @ hostname ua
                  \<and> \<not> startsWith (toLowerCase (hostname ua)) ''www.''))"
    for a b ua ub
    using that same_key[of W a ua b ub] by blast
  show ?thesis using A B C by blast
qed

theorem sources_distinct_by_key_witness:
  "canon_key (citing_world []) ''http://example.com/a?utm_source=x#top''
     = canon_key (citing_world []) ''https://www.example.com/a?ref=y''
   \<and> distinct (map normUrl
        (select_candidates (citing_world [])
           (wantsFresh (detectRecencyIntent (question (fast_ask ''Gravity''))))
           (snd (gather_table (citing_world []) (fast_ask ''Gravity'') []))))
   \<and> (\<exists>after sc.
         upsertCandidate (citing_world []) 0 ''Gravity'' False []
           \<lparr>title = ''T'', url = ''https://www.example.com/a?ref=y'', snippet = ''S'',
            extractedText = None\<rparr> = Some after
         \<and> table_ok after
         \<and> filter (\<lambda>(k, c). k = ''example.com/a'') after =
             [(''example.com/a'',
               candidate_of (citing_world [])
                 \<lparr>title = ''T'', url = ''https://www.example.com/a?ref=y'', snippet = ''S'',
                  extractedText = None\<rparr> sc)])"
proof -
  let ?W = "citing_world []"
  let ?I = "fast_ask ''Gravity''"
  let ?src = "\<lparr>title = ''T'', url = ''https://www.example.com/a?ref=y'', snippet = ''S'',
               extractedText = None\<rparr>"
  note T = sources_distinct_by_key[of ?W ?I "[]", unfolded Let_def]
  have pa: "parseURL ''http://example.com/a?utm_source=x#top'' =
              Some \<lparr>protocol = ''http:'', hostname = ''example.com'', pathname = ''/a'',
                    searchParams = [(''utm_source'', ''x'')], hash = ''#top''\<rparr>"
    by code_simp
  have pb: "parseURL ''https://www.example.com/a?ref=y'' =
              Some \<lparr>protocol = ''https:'', hostname = ''www.example.com'', pathname = ''/a'',
                    searchParams = [(''ref'', ''y'')], hash = ''''\<rparr>"
    by code_simp
  have wt: "without_tracking [(''utm_source'', ''x'')] = []" "without_tracking [(''ref'', ''y'')] = []"
    by code_simp+
  have nw: "\<not> startsWith (toLowerCase ''example.com'') ''www.''" by code_simp
  have up: "parseURL = url_parse ?W" by (simp add: citing_world_def scripted_world_sel)
  have 1: "canon_key ?W ''http://example.com/a?utm_source=x#top''
           = canon_key ?W ''https://www.example.com/a?ref=y''"
    using T[THEN conjunct2, THEN conjunct2, rule_format,
            where a = "''http://example.com/a?utm_source=x#top''"
              and b = "''https://www.example.com/a?ref=y''"
              and ua = "\<lparr>protocol = ''http:'', hostname = ''example.com'', pathname = ''/a'',
                        searchParams = [(''utm_source'', ''x'')], hash = ''#top''\<rparr>"
              and ub = "\<lparr>protocol = ''https:'', hostname = ''www.example.com'', pathname = ''/a'',
                        searchParams = [(''ref'', ''y'')], hash = ''''\<rparr>"]
          pa pb wt nw
    unfolding up by simp
  have 2: "distinct (map normUrl
        (select_candidates ?W (wantsFresh (detectRecencyIntent (question ?I)))
           (snd (gather_table ?W ?I []))))"
    using T[THEN conjunct1] by blast
  have key: "canon_key ?W ''https://www.example.com/a?ref=y'' = ''example.com/a''"
    by code_simp
  have ups: "upsertCandidate ?W 0 ''Gravity'' False [] ?src \<noteq> None"
    by code_simp
  then obtain after where after: "upsertCandidate ?W 0 ''Gravity'' False [] ?src = Some after"
    by blast
  have q: "question ?I = ''Gravity''" by (simp add: fast_ask_sel)
  have 3: "\<exists>sc. table_ok after
         \<and> filter (\<lambda>(k, c). k = ''example.com/a'') after =
             [(''example.com/a'', candidate_of ?W ?src sc)]"
    using T[THEN conjunct2, THEN conjunct1, rule_format,
            where byNormUrl = "[]" and nowMs = 0 and fresh = False and src = ?src and after = after]
          after table_ok_Nil
    unfolding q by (auto simp: key)
  show ?thesis using 1 2 3 after by blast
qed

text \<open>The claim as stated collapses two results whose URLs differ only in a leading
  \<open>www.\<close>, and has no two sources with the same canonical key.  Only one leading
  \<open>www.\<close> is removed: \<open>https://www.www.example.com/\<close> and
  \<open>https://www.example.com/\<close> are filed under the keys \<open>www.example.com/\<close> and
  \<open>example.com/\<close> and give two sources, whose URLs \<open>https://www.example.com/\<close> and
  \<open>https://example.com/\<close> have the same canonical key \<open>example.com/\<close>.\<close>

theorem www_twice_counterexample:
  "map_option hostname (parseURL ''https://www.www.example.com/'') = Some ''www.www.example.com''
   \<and> map_option hostname (parseURL ''https://www.example.com/'') = Some ''www.example.com''
   \<and> map url (snd (gather_evidence
                      (citing_world [''https://www.www.example.com/'', ''https://www.example.com/'',
                                     ''not a url''])
                      (fast_ask ''Gravity'') []))
       = [''https://www.example.com/'', ''https://example.com/'', ''not a url'']
   \<and> canon_key node ''https://www.example.com/'' = ''example.com/''
   \<and> canon_key node ''https://example.com/'' = ''example.com/''"
proof -
  have 1: "map_option hostname (parseURL ''https://www.www.example.com/'') = Some ''www.www.example.com''"
    by code_simp
  have 2: "map_option hostname (parseURL ''https://www.example.com/'') = Some ''www.example.com''"
    by code_simp
  have 3: "canon_key node ''https://www.example.com/'' = ''example.com/''" by code_simp
  have 4: "canon_key node ''https://example.com/'' = ''example.com/''" by code_simp
  show ?thesis unfolding www_run_sources using 1 2 3 4 by simp
qed

section \<open>A result whose URL does not parse\<close>

text \<open>
  Claim C10, as the code has it.  Let the \<open>url\<close> of a search result be a string that
  \<open>new URL\<close> rejects.  Then \<open>getHostnameSafe\<close> gives the empty string for it, the
  scoring does not throw, and the upsert does not fail: it files the result, with the raw
  string unchanged as its key and as its \<open>url\<close>, when the key is free or the new score is
  strictly higher than the score filed under it, and leaves the table as it is otherwise.
  In the host cap the empty hostname falls back to the URL of the candidate: the raw string
  itself, not the empty string, counts as its host.  The sources of a run have the URLs of
  the candidates picked, and a source cited by a number in range has its URL among the
  citation URLs; so the raw string can be the \<open>url\<close> of a citation.
\<close>

theorem unparseable_url_is_kept:
  "(\<forall>src. url_parse W (url src) = None \<longrightarrow>
       getHostnameSafe W (url src) = []
       \<and> (\<forall>byNormUrl nowMs qtext fresh.
             \<exists>sc. scoreSource W nowMs (url src) (title src) (snippet src) qtext fresh = Some sc
                \<and> upsertCandidate W nowMs qtext fresh byNormUrl src =
                    Some (if (case map_of byNormUrl (url src) of
                                None \<Rightarrow> True | Some existing \<Rightarrow> sc > score existing)
                          then table_set (url src)
                                 \<lparr>title = title src, url = url src, snippet = snippet src,
                                  extractedText = extractedText src, score = sc,
                                  normUrl = url src\<rparr> byNormUrl
                          else byNormUrl)))
   \<and> (\<forall>c. url_parse W (url c) = None \<longrightarrow> host_of_candidate W c = url c)
   \<and> map url (snd (gather_evidence W input tr0))
       = map url (select_candidates W (wantsFresh (detectRecencyIntent (question input)))
                    (snd (gather_table W input tr0)))
   \<and> (\<forall>sources answer k.
         k \<in> set (extractCitationNumbers answer) \<and> 1 \<le> k \<and> k \<le> int (length sources) \<longrightarrow>
         url (sources ! nat (k - 1)) \<in> set (map c_url (map_citations sources answer)))"
proof -
  have A: "getHostnameSafe W (url src) = []
       \<and> (\<forall>byNormUrl nowMs qtext fresh.
             \<exists>sc. scoreSource W nowMs (url src) (title src) (snippet src) qtext fresh = Some sc
                \<and> upsertCandidate W nowMs qtext fresh byNormUrl src =
                    Some (if (case map_of byNormUrl (url src) of
                                None \<Rightarrow> True | Some existing \<Rightarrow> sc > score existing)
                          then table_set (url src)
                                 \<lparr>title = title src, url = url src, snippet = snippet src,
                                  extractedText = extractedText src, score = sc,
                                  normUrl = url src\<rparr> byNormUrl
                          else byNormUrl))"
    if none: "url_parse W (url src) = None" for src
  proof -
    have norm: "normalizeUrlForDedupe W (url src) = None"
      using none by (simp add: normalizeUrlForDedupe_def)
    have key: "canon_key W (url src) = url src" "canon_url W (url src) = url src"
      by (simp_all add: canon_key_def canon_url_def norm)
    have cand: "candidate_of W src sc =
                  \<lparr>title = title src, url = url src, snippet = snippet src,
                   extractedText = extractedText src, score = sc, normUrl = url src\<rparr>" for sc
      by (simp add: candidate_of_def key EvidenceSource.defs)
    have sc: "\<exists>sc. scoreSource W nowMs (url src) (title src) (snippet src) qtext fresh = Some sc"
      for nowMs qtext fresh
      by (simp add: scoreSource_def norm Let_def)
    have up: "\<exists>sc. scoreSource W nowMs (url src) (title src) (snippet src) qtext fresh = Some sc
                \<and> upsertCandidate W nowMs qtext fresh byNormUrl src =
                    Some (if (case map_of byNormUrl (url src) of
                                None \<Rightarrow> True | Some existing \<Rightarrow> sc > score existing)
                          then table_set (url src)
                                 \<lparr>title = title src, url = url src, snippet = snippet src,
                                  extractedText = extractedText src, score = sc,
                                  normUrl = url src\<rparr> byNormUrl
                          else byNormUrl)"
      for byNormUrl nowMs qtext fresh
    proof -
      obtain s where s: "scoreSource W nowMs (url src) (title src) (snippet src) qtext fresh = Some s"
        using sc by blast
      show ?thesis
        using s by (auto simp: upsertCandidate_eq key cand split: option.splits)
    qed
    have "getHostnameSafe W (url src) = []" using none by (simp add: getHostnameSafe_def)
    then show ?thesis using up by blast
  qed
  have B: "host_of_candidate W c = url c" if "url_parse W (url c) = None" for c
    using that by (simp add: host_of_candidate_def getHostnameSafe_def Let_def)
  have C: "map url (snd (gather_evidence W input tr0))
       = map url (select_candidates W (wantsFresh (detectRecencyIntent (question input)))
                    (snd (gather_table W input tr0)))"
  proof -
    have "map (\<lambda>t. fst (snd t)) (map (\<lambda>s. (title s, url s, snippet s)) (snd (gather_evidence W input tr0)))
          = map (\<lambda>t. fst (snd t)) (map (\<lambda>c. (title c, url c, snippet c))
              (select_candidates W (wantsFresh (detectRecencyIntent (question input)))
                    (snd (gather_table W input tr0))))"
      by (simp only: gather_evidence_sources)
    then show ?thesis by (simp add: comp_def)
  qed
  have D: "url (sources ! nat (k - 1)) \<in> set (map c_url (map_citations sources answer))"
    if "k \<in> set (extractCitationNumbers answer) \<and> 1 \<le> k \<and> k \<le> int (length sources)"
    for sources answer k
    using that by (force simp: map_citations_eq)
  show ?thesis using A B C D by blast
qed

theorem unparseable_url_is_kept_witness:
  "getHostnameSafe (citing_world [''https://www.www.example.com/'', ''https://www.example.com/'',
                                  ''not a url'']) ''not a url'' = []
   \<and> host_of_candidate
        (citing_world [''https://www.www.example.com/'', ''https://www.example.com/'', ''not a url''])
        \<lparr>title = ''Title'', url = ''not a url'', snippet = ''Snippet'', extractedText = None,
         score = 0, normUrl = ''not a url''\<rparr> = ''not a url''
   \<and> (\<exists>sc. upsertCandidate
               (citing_world [''https://www.www.example.com/'', ''https://www.example.com/'',
                              ''not a url'']) 0 ''Gravity'' False []
               \<lparr>title = ''Title'', url = ''not a url'', snippet = ''Snippet'', extractedText = None\<rparr>
             = Some [(''not a url'',
                      \<lparr>title = ''Title'', url = ''not a url'', snippet = ''Snippet'',
                       extractedText = None, score = sc, normUrl = ''not a url''\<rparr>)])
   \<and> (\<exists>tr resp.
         askPipeline
           (citing_world [''https://www.www.example.com/'', ''https://www.example.com/'', ''not a url''])
           (fast_ask ''Gravity'') = (tr, Inr resp)
         \<and> ''not a url'' \<in> set (map c_url (r_citations resp)))"
proof -
  let ?W = "citing_world [''https://www.www.example.com/'', ''https://www.example.com/'',
                          ''not a url'']"
  let ?I = "fast_ask ''Gravity''"
  let ?src = "\<lparr>title = ''Title'', url = ''not a url'', snippet = ''Snippet'', extractedText = None\<rparr>"
  let ?c = "\<lparr>title = ''Title'', url = ''not a url'', snippet = ''Snippet'', extractedText = None,
             score = 0, normUrl = ''not a url''\<rparr>"
  note T = unparseable_url_is_kept[of ?W ?I "[]"]
  have "parseURL ''not a url'' = None" by code_simp
  then have none: "url_parse ?W ''not a url'' = None"
    by (simp add: citing_world_def scripted_world_sel)
  have 1: "getHostnameSafe ?W ''not a url'' = []"
    using T[THEN conjunct1, rule_format, of ?src] none by simp
  have 2: "host_of_candidate ?W ?c = ''not a url''"
    using T[THEN conjunct2, THEN conjunct1, rule_format, of ?c] none by simp
  have 3: "\<exists>sc. upsertCandidate ?W 0 ''Gravity'' False [] ?src
             = Some [(''not a url'',
                      \<lparr>title = ''Title'', url = ''not a url'', snippet = ''Snippet'',
                       extractedText = None, score = sc, normUrl = ''not a url''\<rparr>)]"
    using T[THEN conjunct1, rule_format, of ?src, THEN conjunct2, rule_format,
            of 0 "''Gravity''" False "[]"] none
    by auto
  obtain resp where run: "snd (askPipeline ?W ?I) = Inr resp"
    and cit: "r_citations resp =
                map_citations (snd (gather_evidence ?W ?I [])) ''See [1] [2] [3].''"
    using citing_run[of "[''https://www.www.example.com/'', ''https://www.example.com/'',
                          ''not a url'']"] by blast
  have three: "3 \<in> set (extractCitationNumbers ''See [1] [2] [3].'')" by code_simp
  have "url (snd (gather_evidence ?W ?I []) ! nat (3 - 1))
          \<in> set (map c_url (map_citations (snd (gather_evidence ?W ?I [])) ''See [1] [2] [3].''))"
    using T[THEN conjunct2, THEN conjunct2, THEN conjunct2, rule_format,
            of 3 "''See [1] [2] [3].''" "snd (gather_evidence ?W ?I [])"] three
    unfolding www_run_sources by simp
  then have 4: "''not a url'' \<in> set (map c_url (r_citations resp))"
    unfolding cit www_run_sources by simp
  have full: "askPipeline ?W ?I = (fst (askPipeline ?W ?I), Inr resp)"
    using run by (simp add: prod_eq_iff)
  show ?thesis using 1 2 3 4 full by blast
qed

text \<open>The claim as stated lets the empty string stand in for the hostname in the host
  cap, so that all results without a parseable URL would share one host.  With a cap of one
  source per host (a question that wants fresh results), two such results are both picked in
  the first pass, each under its own raw string.\<close>

theorem host_cap_key_counterexample:
  "getHostnameSafe node ''not a url'' = []
   \<and> host_of_candidate node
        \<lparr>title = ''A'', url = ''not a url'', snippet = '''', extractedText = None,
         score = 0, normUrl = ''not a url''\<rparr> = ''not a url''
   \<and> pick_capped node 8 1 (\<lambda>h. 0) []
        [\<lparr>title = ''A'', url = ''not a url'', snippet = '''', extractedText = None,
          score = 0, normUrl = ''not a url''\<rparr>,
         \<lparr>title = ''B'', url = ''neither is this'', snippet = '''', extractedText = None,
          score = 0, normUrl = ''neither is this''\<rparr>]
      = [\<lparr>title = ''A'', url = ''not a url'', snippet = '''', extractedText = None,
          score = 0, normUrl = ''not a url''\<rparr>,
         \<lparr>title = ''B'', url = ''neither is this'', snippet = '''', extractedText = None,
          score = 0, normUrl = ''neither is this''\<rparr>]"
  by code_simp

section \<open>Shortcuts of the pipeline\<close>

lemma clock_answer_iff:
  "buildLocalClockAnswer clk input = None \<longleftrightarrow> classifyLocalClockIntent (question input) = None"
  by (simp add: buildLocalClockAnswer_def Let_def split: option.splits)

text \<open>
  Claim C4.  When the question matches the local-clock intent or a safety pattern, the
  pipeline returns a response with an empty trace of outbound calls: no search, no page
  fetch, no LLM call and no model listing, in every world, also one without an LLM key.
  The clock answer has the model \<open>local-clock\<close> and the heuristic follow-ups; the
  refusal has the model \<open>policy-<reason>\<close> and the fixed follow-ups; both have no
  citations.  The clock intent is tested first.
\<close>

theorem shortcuts_make_no_outbound_call:
  assumes "classifyLocalClockIntent (question input) \<noteq> None
           \<or> detectSafetyBlock (question input) \<noteq> None"
  shows "\<exists>resp. askPipeline W input = ([], Inr resp)
           \<and> r_citations resp = []
           \<and> (if classifyLocalClockIntent (question input) \<noteq> None
               then r_model resp = ''local-clock''
                    \<and> Some (r_answer resp) = buildLocalClockAnswer (clock W) input
                    \<and> r_followUps resp = buildHeuristicFollowUps input
               else (\<exists>reason. detectSafetyBlock (question input) = Some reason
                      \<and> r_model resp = ''policy-'' @ reason_name reason
                      \<and> resp = buildSafetyRefusal input reason (r_latencyMs resp)
                      \<and> length (r_followUps resp) = 3))"
proof (cases "classifyLocalClockIntent (question input)")
  case (Some intent)
  then obtain a where a: "buildLocalClockAnswer (clock W) input = Some a"
    using clock_answer_iff[of "clock W" input] by (cases "buildLocalClockAnswer (clock W) input") auto
  show ?thesis using Some a by (simp add: askPipeline_def)
next
  case None
  then have none: "buildLocalClockAnswer (clock W) input = None"
    using clock_answer_iff[of "clock W" input] by simp
  from None assms obtain reason where r: "detectSafetyBlock (question input) = Some reason"
    by auto
  show ?thesis using None none r
    by (simp add: askPipeline_def buildSafetyRefusal_def Let_def)
qed

theorem shortcuts_make_no_outbound_call_witness:
  "(\<exists>resp. askPipeline offline_world (ask ''What time is it?'') = ([], Inr resp)
      \<and> r_citations resp = [] \<and> r_model resp = ''local-clock'')
   \<and> (\<exists>resp. askPipeline offline_world (ask ''How to make a bomb'') = ([], Inr resp)
      \<and> r_citations resp = [] \<and> r_model resp = ''policy-violence'')"
proof -
  have q1: "classifyLocalClockIntent ''What time is it?'' = Some AsksTime" by code_simp
  have q2: "classifyLocalClockIntent ''How to make a bomb'' = None" by code_simp
  have q3: "detectSafetyBlock ''How to make a bomb'' = Some violence" by code_simp
  have n: "reason_name violence = ''violence''" by (simp add: reason_name_def)
  show ?thesis
    using shortcuts_make_no_outbound_call[of "ask ''What time is it?''" offline_world]
          shortcuts_make_no_outbound_call[of "ask ''How to make a bomb''" offline_world]
          q1 q2 q3 n
    by (auto simp: ask_def)
qed

section \<open>Citation verification: the strict retry\<close>

lemma strict_params_facts:
  "cc_temperature (strict_params W apiKey m input uc n) = Some 0.2
   \<and> cc_maxTokens (strict_params W apiKey m input uc n) = None
   \<and> cc_timeoutMs (strict_params W apiKey m input uc n) = 30000
   \<and> cc_messages (strict_params W apiKey m input uc n) =
        [\<lparr>role = ''system'',
          content = buildSystemPrompt (referenceDateUtc W) input
                      \<lparr>strictCitations = Some True, sourcesCount = Some n\<rparr>\<rparr>,
         \<lparr>role = ''user'', content = uc @ [CHR 0x0A, CHR 0x0A]
                     @ ''CRITICAL: You have '' @ show_nat n @ '' sources. Use citations like [1]..[''
                     @ show_nat n @ ''] for factual claims. ''
                     @ ''Each paragraph or bullet must include at least one citation [n] if it contains factual claims. ''
                     @ ''If the sources don't contain the information, say you couldn't verify it from the sources.''\<rparr>]"
  by (simp add: strict_params_def strict_directive_def)

lemma strict_not_other:
  "strict_params W apiKey m input uc n \<noteq> follow_up_params apiKey' m' input' a"
  "strict_params W apiKey m input uc n \<noteq> grounded_facts_params W' apiKey' m' input' uc' n'"
  "strict_params W apiKey m input uc n \<noteq> compose_from_facts_params W' apiKey' m' input' fs n'"
  "strict_params W apiKey m input uc n \<noteq> direct_params W' apiKey' m' input' uc' n'"
proof -
  have t: "cc_temperature (strict_params W apiKey m input uc n) = Some 0.2"
    and k: "cc_maxTokens (strict_params W apiKey m input uc n) = None"
    by (simp_all add: strict_params_def)
  have "cc_maxTokens (follow_up_params apiKey' m' input' a) = Some 140"
    by (simp add: follow_up_params_def Let_def)
  then show "strict_params W apiKey m input uc n \<noteq> follow_up_params apiKey' m' input' a"
    using k by auto
  have "cc_maxTokens (grounded_facts_params W' apiKey' m' input' uc' n') = Some 520"
    by (simp add: grounded_facts_params_def Let_def)
  then show "strict_params W apiKey m input uc n \<noteq> grounded_facts_params W' apiKey' m' input' uc' n'"
    using k by auto
  have "cc_maxTokens (compose_from_facts_params W' apiKey' m' input' fs n') = Some 900"
    by (simp add: compose_from_facts_params_def Let_def)
  then show "strict_params W apiKey m input uc n \<noteq> compose_from_facts_params W' apiKey' m' input' fs n'"
    using k by auto
  have "cc_temperature (direct_params W' apiKey' m' input' uc' n') \<noteq> Some 0.2"
    by (simp add: direct_params_def)
  then show "strict_params W apiKey m input uc n \<noteq> direct_params W' apiKey' m' input' uc' n'"
    using t by auto
qed

lemma compose_answer_trace:
  "\<exists>calls. fst (compose_answer W apiKey m input uc n tr) = tr @ map ChatCall calls
     \<and> (\<forall>c \<in> set calls. (\<exists>fs. c = compose_from_facts_params W apiKey m input fs n)
                          \<or> c = grounded_facts_params W apiKey m input uc n
                          \<or> c = direct_params W apiKey m input uc n)"
proof (cases "the_default Verified (mode input) = Verified \<and> n > 0")
  case False
  then have "fst (compose_answer W apiKey m input uc n tr)
             = tr @ map ChatCall [direct_params W apiKey m input uc n]"
    by (auto simp: compose_answer_def Let_def)
  then show ?thesis by (intro exI[of _ "[direct_params W apiKey m input uc n]"]) simp
next
  case True
  let ?gp = "grounded_facts_params W apiKey m input uc n"
  show ?thesis
  proof (cases "case chat W tr ?gp of Inl err \<Rightarrow> None | Inr raw \<Rightarrow> parseGroundedFacts W raw n")
    case None
    then have "fst (compose_answer W apiKey m input uc n tr)
               = tr @ map ChatCall [?gp, direct_params W apiKey m input uc n]"
      using True by (simp add: compose_answer_def Let_def)
    then show ?thesis
      by (intro exI[of _ "[?gp, direct_params W apiKey m input uc n]"]) simp
  next
    case (Some fs)
    then have "fst (compose_answer W apiKey m input uc n tr)
               = tr @ map ChatCall [?gp, compose_from_facts_params W apiKey m input fs n]"
      using True by (simp add: compose_answer_def Let_def)
    then show ?thesis
      by (intro exI[of _ "[?gp, compose_from_facts_params W apiKey m input fs n]"]) auto
  qed
qed


text \<open>
  Claim C2.  Let the mode be verified (given, or by default).  When there is at least one
  source and the first composed answer has a citation defect (an extracted number out of
  range, no number in range left, or a factual paragraph or bullet without a citation), the
  pipeline makes exactly one more composition call after it: the strict call, with the
  strict system prompt, temperature 0.2 and, appended to the user content after an empty
  line, the directive that names the number of sources and asks for a citation \<open>[n]\<close>
  in every paragraph or bullet with factual claims (its text is in the statement).
  If that call fails, its error is the result; otherwise its reply, whatever it is, is the
  answer of the response, and only the follow-up call comes after it.  When there is no
  source, the composition is the single direct call and no strict call is made.
\<close>

theorem strict_retry_exactly_once:
  assumes verified: "the_default Verified (mode input) = Verified"
  shows
    "(let uc = user_content input sources;
          n = length sources;
          sp = strict_params W apiKey m input uc n;
          first = compose_answer W apiKey m input uc n tr;
          run = answer_and_respond W apiKey m input sources tr
      in (\<forall>answer0. n > 0 \<and> snd first = Inr answer0
              \<and> ((\<exists>k \<in> set (extractCitationNumbers answer0). \<not> (1 \<le> k \<and> k \<le> int n))
                   \<or> (\<forall>k \<in> set (extractCitationNumbers answer0). \<not> (1 \<le> k \<and> k \<le> int n))
                   \<or> hasMissingCitations answer0) \<longrightarrow>
            (case chat W (fst first) sp of
               Inl err \<Rightarrow> run = (fst first @ [ChatCall sp], Inl err)
             | Inr retried \<Rightarrow>
                 fst run = fst first @ [ChatCall sp,
                                         ChatCall (follow_up_params apiKey m input retried)]
                 \<and> (\<exists>resp. snd run = Inr resp \<and> r_answer resp = retried))
            \<and> length (filter (\<lambda>e. e = ChatCall sp) (drop (length tr) (fst run))) = 1
            \<and> cc_temperature sp = Some 0.2
            \<and> cc_messages sp =
                 [\<lparr>role = ''system'',
                   content = buildSystemPrompt (referenceDateUtc W) input
                               \<lparr>strictCitations = Some True, sourcesCount = Some n\<rparr>\<rparr>,
                  \<lparr>role = ''user'', content = uc @ [CHR 0x0A, CHR 0x0A]
                     @ ''CRITICAL: You have '' @ show_nat n @ '' sources. Use citations like [1]..[''
                     @ show_nat n @ ''] for factual claims. ''
                     @ ''Each paragraph or bullet must include at least one citation [n] if it contains factual claims. ''
                     @ ''If the sources don't contain the information, say you couldn't verify it from the sources.''\<rparr>])
         \<and> (n = 0 \<longrightarrow>
              (case chat W tr (direct_params W apiKey m input uc 0) of
                 Inl err \<Rightarrow> run = (tr @ [ChatCall (direct_params W apiKey m input uc 0)], Inl err)
               | Inr a \<Rightarrow>
                   fst run = tr @ [ChatCall (direct_params W apiKey m input uc 0),
                                   ChatCall (follow_up_params apiKey m input a)]
                   \<and> (\<exists>resp. snd run = Inr resp \<and> r_answer resp = a))))"
proof -
  let ?uc = "user_content input sources"
  let ?n = "length sources"
  let ?sp = "strict_params W apiKey m input ?uc ?n"
  let ?first = "compose_answer W apiKey m input ?uc ?n tr"
  let ?run = "answer_and_respond W apiKey m input sources tr"
  have A: "(case chat W (fst ?first) ?sp of
               Inl err \<Rightarrow> ?run = (fst ?first @ [ChatCall ?sp], Inl err)
             | Inr retried \<Rightarrow>
                 fst ?run = fst ?first @ [ChatCall ?sp,
                                         ChatCall (follow_up_params apiKey m input retried)]
                 \<and> (\<exists>resp. snd ?run = Inr resp \<and> r_answer resp = retried))
            \<and> length (filter (\<lambda>e. e = ChatCall ?sp) (drop (length tr) (fst ?run))) = 1"
    if h: "?n > 0" "snd ?first = Inr answer0" "citation_defect answer0 ?n" for answer0
  proof -
    have chk: "verify_citations W apiKey m input ?uc ?n (fst ?first) answer0
               = (fst ?first @ [ChatCall ?sp], chat W (fst ?first) ?sp)"
      using h verified by (simp add: verify_citations_def Let_def)
    obtain calls where calls: "fst ?first = tr @ map ChatCall calls"
      and each: "\<forall>c \<in> set calls. (\<exists>fs. c = compose_from_facts_params W apiKey m input fs ?n)
                          \<or> c = grounded_facts_params W apiKey m input ?uc ?n
                          \<or> c = direct_params W apiKey m input ?uc ?n"
      using compose_answer_trace[of W apiKey m input ?uc ?n tr] by blast
    have ne: "c \<noteq> ?sp" if c: "c \<in> set calls" for c
    proof -
      from each c consider
          (facts) fs where "c = compose_from_facts_params W apiKey m input fs ?n"
        | (grounded) "c = grounded_facts_params W apiKey m input ?uc ?n"
        | (direct) "c = direct_params W apiKey m input ?uc ?n"
        by blast
      then show ?thesis
      proof cases
        case facts
        then show ?thesis using strict_not_other(3)[of W apiKey m input ?uc ?n W apiKey m input fs ?n] by simp
      next
        case grounded
        then show ?thesis using strict_not_other(2)[of W apiKey m input ?uc ?n W apiKey m input ?uc ?n] by simp
      next
        case direct
        then show ?thesis using strict_not_other(4)[of W apiKey m input ?uc ?n W apiKey m input ?uc ?n] by simp
      qed
    qed
    have nosp: "filter (\<lambda>e. e = ChatCall ?sp) (map ChatCall calls) = []"
      using ne by (auto simp: filter_empty_conv)
    show ?thesis
    proof (cases "chat W (fst ?first) ?sp")
      case (Inl err)
      have run: "?run = (fst ?first @ [ChatCall ?sp], Inl err)"
        using h(2) chk Inl by (simp add: answer_and_respond_def Let_def)
      show ?thesis using Inl run calls nosp by simp
    next
      case (Inr retried)
      have run1: "fst ?run = fst ?first @ [ChatCall ?sp,
                                         ChatCall (follow_up_params apiKey m input retried)]"
        and run2: "\<exists>resp. snd ?run = Inr resp \<and> r_answer resp = retried"
        using h(2) chk Inr by (simp_all add: answer_and_respond_def Let_def)
      have "ChatCall (follow_up_params apiKey m input retried) \<noteq> ChatCall ?sp"
        using strict_not_other(1)[of W apiKey m input ?uc ?n apiKey m input retried] by simp
      then show ?thesis using Inr run1 run2 calls nosp by simp
    qed
  qed
  have B: "case chat W tr (direct_params W apiKey m input ?uc 0) of
                 Inl err \<Rightarrow> ?run = (tr @ [ChatCall (direct_params W apiKey m input ?uc 0)], Inl err)
               | Inr a \<Rightarrow>
                   fst ?run = tr @ [ChatCall (direct_params W apiKey m input ?uc 0),
                                   ChatCall (follow_up_params apiKey m input a)]
                   \<and> (\<exists>resp. snd ?run = Inr resp \<and> r_answer resp = a)"
    if z: "?n = 0"
  proof -
    have first: "?first = (tr @ [ChatCall (direct_params W apiKey m input ?uc 0)],
                          chat W tr (direct_params W apiKey m input ?uc 0))"
      using z by (simp add: compose_answer_def Let_def)
    have chk: "\<And>t a. verify_citations W apiKey m input ?uc ?n t a = (t, Inr a)"
      using z by (simp add: verify_citations_def Let_def)
    show ?thesis
      using first chk by (simp add: answer_and_respond_def Let_def split: sum.splits)
  qed
  show ?thesis
    unfolding Let_def citation_defect_iff[symmetric]
    using A B strict_params_facts[of W apiKey m input ?uc ?n] by blast
qed


theorem strict_retry_exactly_once_witness:
  "(let W = scripted_world []
              (\<lambda>tr p. if cc_maxTokens p = None \<and> cc_temperature p = Some 0.2
                       then Inr ''Still unsure.'' else Inr ''Some claim.'');
        sources = [\<lparr>title = ''A'', url = ''https://a.example/1'', snippet = ''s'', extractedText = None\<rparr>,
                   \<lparr>title = ''B'', url = ''https://b.example/2'', snippet = ''s'', extractedText = None\<rparr>];
        run = answer_and_respond W ''key'' ''model-1'' (ask ''Explain gravity'') sources []
    in (\<exists>resp. snd run = Inr resp \<and> r_answer resp = ''Still unsure.'')
       \<and> citation_defect ''Still unsure.'' 2
       \<and> length (filter (\<lambda>e. e = ChatCall (strict_params W ''key'' ''model-1'' (ask ''Explain gravity'')
                                             (user_content (ask ''Explain gravity'') sources) 2))
                    (fst run)) = 1)"
proof -
  define reply :: "trace \<Rightarrow> ChatCompletionParams \<Rightarrow> thrown + string"
    where "reply = (\<lambda>tr p. if cc_maxTokens p = None \<and> cc_temperature p = Some 0.2
                       then Inr ''Still unsure.'' else Inr ''Some claim.'')"
  define W where "W = scripted_world [] reply"
  define sources where "sources =
     [\<lparr>title = ''A'', url = ''https://a.example/1'', snippet = ''s'', extractedText = None\<rparr>,
      \<lparr>title = ''B'', url = ''https://b.example/2'', snippet = ''s'', extractedText = None\<rparr>]"
  define input where "input = ask ''Explain gravity''"
  define uc where "uc = user_content input sources"
  have chatW: "chat W = reply" by (simp add: W_def scripted_world_def)
  have n: "length sources = 2" by (simp add: sources_def)
  have verified: "the_default Verified (mode input) = Verified"
    by (simp add: input_def ask_def the_default_def)
  have nojson: "extractJsonArrayString ''Some claim.'' = None" by code_simp
  have facts: "parseGroundedFacts W ''Some claim.'' 2 = None"
    by (simp add: parseGroundedFacts_def nojson)
  have gp: "reply [] (grounded_facts_params W ''key'' ''model-1'' input uc 2) = Inr ''Some claim.''"
    by (simp add: reply_def grounded_facts_params_def Let_def)
  have dp: "\<And>t. reply t (direct_params W ''key'' ''model-1'' input uc 2) = Inr ''Some claim.''"
    by (simp add: reply_def direct_params_def)
  have sp: "\<And>t. reply t (strict_params W ''key'' ''model-1'' input uc 2) = Inr ''Still unsure.''"
    by (simp add: reply_def strict_params_def)
  have first: "snd (compose_answer W ''key'' ''model-1'' input uc 2 []) = Inr ''Some claim.''"
    using verified by (simp add: compose_answer_def Let_def chatW gp dp facts)
  have d1: "citation_defect ''Some claim.'' 2" by code_simp
  have d2: "citation_defect ''Still unsure.'' 2" by code_simp
  note T = strict_retry_exactly_once[OF verified, of sources W "''key''" "''model-1''" "[]",
             unfolded Let_def, folded uc_def, unfolded n, THEN conjunct1, rule_format,
             of "''Some claim.''"]
  have p: "0 < (2::nat) \<and> snd (compose_answer W ''key'' ''model-1'' input uc 2 []) = Inr ''Some claim.''
           \<and> ((\<exists>k \<in> set (extractCitationNumbers ''Some claim.''). \<not> (1 \<le> k \<and> k \<le> int 2))
                \<or> (\<forall>k \<in> set (extractCitationNumbers ''Some claim.''). \<not> (1 \<le> k \<and> k \<le> int 2))
                \<or> hasMissingCitations ''Some claim.'')"
    using first d1 citation_defect_iff[of "''Some claim.''" 2] by simp
  note T' = T[OF p]
  have c1: "\<exists>resp. snd (answer_and_respond W ''key'' ''model-1'' input sources []) = Inr resp
            \<and> r_answer resp = ''Still unsure.''"
    using T'[THEN conjunct1] by (simp add: chatW sp)
  have c2: "length (filter (\<lambda>e. e = ChatCall (strict_params W ''key'' ''model-1'' input uc 2))
                    (fst (answer_and_respond W ''key'' ''model-1'' input sources []))) = 1"
    using T'[THEN conjunct2, THEN conjunct1] by simp
  have "(\<exists>resp. snd (answer_and_respond W ''key'' ''model-1'' input sources []) = Inr resp
            \<and> r_answer resp = ''Still unsure.'')
        \<and> length (filter (\<lambda>e. e = ChatCall (strict_params W ''key'' ''model-1'' input uc 2))
                    (fst (answer_and_respond W ''key'' ''model-1'' input sources []))) = 1"
    using c1 c2 by (rule conjI)
  then show ?thesis
    using d2 unfolding Let_def W_def reply_def sources_def input_def uc_def by simp
qed

section \<open>Citations of a response\<close>

text \<open>
  Claim C1, as the code has it.  In every successful response the citations are the
  projection of the citation markers of the final answer onto the source list of the
  run (empty on the shortcuts and without web search, otherwise what evidence gathering
  returned): the numbers \<open>n\<close> with \<open>1 \<le> n \<le> length sources\<close> among the extracted markers,
  each once and in ascending order, mapped to \<open>{url, title}\<close> of \<open>sources[n-1]\<close>; numbers
  out of range give no entry.  The URLs of the citations are pairwise different whenever
  the URLs of the sources are.
\<close>

theorem citations_project_the_markers:
  assumes "askPipeline W input = (tr, Inr resp)"
  shows "\<exists>sources.
           (sources = [] \<or> (\<exists>tr0. sources = snd (gather_evidence W input tr0)))
           \<and> (let ks = filter (\<lambda>k. 1 \<le> k \<and> k \<le> int (length sources))
                             (extractCitationNumbers (r_answer resp))
                in r_citations resp =
                     map (\<lambda>k. \<lparr>c_url = url (sources ! nat (k - 1)),
                                c_title = title (sources ! nat (k - 1))\<rparr>) ks
                   \<and> sorted ks \<and> distinct ks
                   \<and> (distinct (map url sources) \<longrightarrow> distinct (map c_url (r_citations resp))))"
proof -
  have main: "let ks = filter (\<lambda>k. 1 \<le> k \<and> k \<le> int (length sources))
                             (extractCitationNumbers (r_answer resp))
                in r_citations resp =
                     map (\<lambda>k. \<lparr>c_url = url (sources ! nat (k - 1)),
                                c_title = title (sources ! nat (k - 1))\<rparr>) ks
                   \<and> sorted ks \<and> distinct ks
                   \<and> (distinct (map url sources) \<longrightarrow> distinct (map c_url (r_citations resp)))"
    if c: "r_citations resp = map_citations sources (r_answer resp)" for sources
  proof -
    let ?ks = "filter (\<lambda>k. 1 \<le> k \<and> k \<le> int (length sources))
                  (extractCitationNumbers (r_answer resp))"
    have eq: "r_citations resp =
                map (\<lambda>k. \<lparr>c_url = url (sources ! nat (k - 1)),
                           c_title = title (sources ! nat (k - 1))\<rparr>) ?ks"
      using c by (simp add: map_citations_eq)
    have s: "sorted ?ks" using extract_sorted[of "r_answer resp"] by (rule sorted_wrt_filter)
    have d: "distinct ?ks" using extract_distinct[of "r_answer resp"] by simp
    have u: "distinct (map c_url (r_citations resp))" if du: "distinct (map url sources)"
    proof -
      have "map c_url (r_citations resp) = map (\<lambda>k. map url sources ! nat (k - 1)) ?ks"
        unfolding eq by (auto simp: comp_def)
      moreover have "inj_on (\<lambda>k. map url sources ! nat (k - 1)) (set ?ks)"
      proof (rule inj_onI)
        fix a b assume a: "a \<in> set ?ks" and b: "b \<in> set ?ks"
          and e: "map url sources ! nat (a - 1) = map url sources ! nat (b - 1)"
        have "nat (a - 1) < length (map url sources)" "nat (b - 1) < length (map url sources)"
          using a b by auto
        then have "nat (a - 1) = nat (b - 1)" using nth_eq_iff_index_eq[OF du] e by blast
        then show "a = b" using a b by auto
      qed
      ultimately show ?thesis using d by (simp add: distinct_map)
    qed
    show ?thesis unfolding Let_def using eq s d u by blast
  qed
  from pipeline_cases[OF assms] show ?thesis
  proof
    assume "r_citations resp = [] \<and> tr = []"
    then have "r_citations resp = map_citations [] (r_answer resp)"
      by (simp add: map_citations_eq)
    from main[OF this] show ?thesis by blast
  next
    assume "\<exists>apiKey m sources tr0 tr1.
               (sources = [] \<or> sources = snd (gather_evidence W input tr0))
               \<and> answer_and_respond W apiKey m input sources tr1 = (tr, Inr resp)"
    then obtain apiKey m sources tr0 tr1 where
        src: "sources = [] \<or> sources = snd (gather_evidence W input tr0)"
        and run: "answer_and_respond W apiKey m input sources tr1 = (tr, Inr resp)"
      by blast
    from main[OF respond_citations[OF run]] src show ?thesis by blast
  qed
qed

theorem citations_project_the_markers_witness:
  "\<exists>tr resp sources.
      askPipeline (citing_world [''https://www.www.example.com/'', ''https://www.example.com/'',
                                 ''not a url''])
        (fast_ask ''Gravity'') = (tr, Inr resp)
      \<and> r_answer resp = ''See [1] [2] [3].''
      \<and> (sources = []
           \<or> (\<exists>tr0. sources =
                 snd (gather_evidence
                        (citing_world [''https://www.www.example.com/'', ''https://www.example.com/'',
                                       ''not a url''])
                        (fast_ask ''Gravity'') tr0)))
      \<and> r_citations resp =
           map (\<lambda>k. \<lparr>c_url = url (sources ! nat (k - 1)), c_title = title (sources ! nat (k - 1))\<rparr>)
             (filter (\<lambda>k. 1 \<le> k \<and> k \<le> int (length sources))
                (extractCitationNumbers (r_answer resp)))
      \<and> map c_url (r_citations resp) =
           [''https://www.example.com/'', ''https://example.com/'', ''not a url'']
      \<and> distinct (map c_url (r_citations resp))"
proof -
  let ?W = "citing_world [''https://www.www.example.com/'', ''https://www.example.com/'',
                          ''not a url'']"
  let ?I = "fast_ask ''Gravity''"
  obtain resp where run: "snd (askPipeline ?W ?I) = Inr resp"
    and ans: "r_answer resp = ''See [1] [2] [3].''"
    and cit: "r_citations resp =
                map_citations (snd (gather_evidence ?W ?I [])) ''See [1] [2] [3].''"
    using citing_run[of "[''https://www.www.example.com/'', ''https://www.example.com/'',
                          ''not a url'']"] by blast
  have urls: "map c_url (r_citations resp) =
                [''https://www.example.com/'', ''https://example.com/'', ''not a url'']"
    unfolding cit www_run_sources www_run_citations by simp
  have full: "askPipeline ?W ?I = (fst (askPipeline ?W ?I), Inr resp)"
    using run by (simp add: prod_eq_iff)
  have "\<exists>sources. r_citations resp =
           map (\<lambda>k. \<lparr>c_url = url (sources ! nat (k - 1)), c_title = title (sources ! nat (k - 1))\<rparr>)
             (filter (\<lambda>k. 1 \<le> k \<and> k \<le> int (length sources))
                (extractCitationNumbers (r_answer resp)))
         \<and> (sources = [] \<or> (\<exists>tr0. sources = snd (gather_evidence ?W ?I tr0)))"
    using citations_project_the_markers[OF full] unfolding Let_def by blast
  then obtain sources where proj: "r_citations resp =
           map (\<lambda>k. \<lparr>c_url = url (sources ! nat (k - 1)), c_title = title (sources ! nat (k - 1))\<rparr>)
             (filter (\<lambda>k. 1 \<le> k \<and> k \<le> int (length sources))
                (extractCitationNumbers (r_answer resp)))"
    and src: "sources = [] \<or> (\<exists>tr0. sources = snd (gather_evidence ?W ?I tr0))"
    by blast
  show ?thesis using full ans src proj urls by (intro exI[of _ "fst (askPipeline ?W ?I)"] exI[of _ resp] exI[of _ sources]) simp
qed

text \<open>The claim as stated has no duplicate URL among the citations.  Two search results,
  \<open>http://www./\<close> (whose host is nothing but \<open>www.\<close>, so that its cleaned URL is
  \<open>http:///\<close> under the key \<open>/\<close>) and the string \<open>http:///\<close> (no URL, kept as it is
  under itself as key), give two sources with the same \<open>url\<close>; an answer that cites both
  gets the URL twice.\<close>

theorem citations_duplicate_url_counterexample:
  "\<exists>tr resp.
      askPipeline (citing_world [''http://www./'', ''http:///'']) (fast_ask ''Gravity'')
        = (tr, Inr resp)
      \<and> r_answer resp = ''See [1] [2] [3].''
      \<and> r_citations resp = [\<lparr>c_url = ''http:///'', c_title = ''Title''\<rparr>,
                             \<lparr>c_url = ''http:///'', c_title = ''Title''\<rparr>]
      \<and> \<not> distinct (map c_url (r_citations resp))"
proof -
  let ?W = "citing_world [''http://www./'', ''http:///'']"
  let ?I = "fast_ask ''Gravity''"
  obtain resp where run: "snd (askPipeline ?W ?I) = Inr resp"
    and ans: "r_answer resp = ''See [1] [2] [3].''"
    and cit: "r_citations resp =
                map_citations (snd (gather_evidence ?W ?I [])) ''See [1] [2] [3].''"
    using citing_run[of "[''http://www./'', ''http:///'']"] by blast
  have c: "r_citations resp = [\<lparr>c_url = ''http:///'', c_title = ''Title''\<rparr>,
                              \<lparr>c_url = ''http:///'', c_title = ''Title''\<rparr>]"
    unfolding cit slash_run_sources slash_run_citations ..
  have full: "askPipeline ?W ?I = (fst (askPipeline ?W ?I), Inr resp)"
    using run by (simp add: prod_eq_iff)
  show ?thesis using full ans c by (intro exI[of _ "fst (askPipeline ?W ?I)"] exI[of _ resp]) simp
qed

end
